(* ===== verification/Prelude.thy ===== *)
theory Prelude
  imports Main "HOL-Library.Sublist"
begin

text \<open>
  Shared vocabulary of the development. The script manipulates JavaScript strings;
  they are modelled as \<open>char list\<close>s whose characters stand for UTF-16 code units of
  the Latin-1 range (every literal of the script, such as the accented month names
  and unit names, lies in it). On that range the section below defines the string
  primitives the script calls: \<open>String.prototype.includes\<close>, \<open>trim\<close>,
  \<open>toLowerCase\<close>, \<open>padStart(2, '0')\<close>, \<open>split\<close> on one character, \<open>String(n)\<close>
  of an integer and \<open>Number(s)\<close> of a string of decimal digits. The last section
  holds the floor-division lemma the calendar arithmetic shares.
\<close>

named_theorems js_string_simps "evaluation rules of the JavaScript string primitives"

type_synonym jstr = string

section \<open>Characters\<close>

definition js_is_space :: "char \<Rightarrow> bool" where
  \<comment> \<open>WhiteSpace and LineTerminator of ECMA-262 inside Latin-1: TAB, LF, VT, FF, CR,
      SPACE and NO-BREAK SPACE\<close>
  "js_is_space c \<longleftrightarrow> of_char c \<in> {9, 10, 11, 12, 13, 32, 160 :: nat}"

definition js_is_digit :: "char \<Rightarrow> bool" where
  "js_is_digit c \<longleftrightarrow> 48 \<le> (of_char c :: nat) \<and> (of_char c :: nat) \<le> 57"

definition js_lower_char :: "char \<Rightarrow> char" where
  \<comment> \<open>toLowerCase on Latin-1: A-Z and the accented capitals U+00C0..U+00DE but U+00D7\<close>
  "js_lower_char c =
     (let n = (of_char c :: nat)
      in if (65 \<le> n \<and> n \<le> 90) \<or> (192 \<le> n \<and> n \<le> 222 \<and> n \<noteq> 215)
         then char_of (n + 32) else c)"

section \<open>String primitives\<close>

definition js_includes :: "jstr \<Rightarrow> jstr \<Rightarrow> bool" where
  \<comment> \<open>\<open>s.includes(pat)\<close>\<close>
  "js_includes s pat \<longleftrightarrow> sublist pat s"

definition js_trim :: "jstr \<Rightarrow> jstr" where
  "js_trim s = rev (dropWhile js_is_space (rev (dropWhile js_is_space s)))"

definition js_lower :: "jstr \<Rightarrow> jstr" where
  "js_lower s = map js_lower_char s"

definition js_pad2 :: "jstr \<Rightarrow> jstr" where
  \<comment> \<open>\<open>s.padStart(2, '0')\<close>\<close>
  "js_pad2 s = (if 2 \<le> length s then s else replicate (2 - length s) (CHR ''0'') @ s)"

fun js_split :: "char \<Rightarrow> jstr \<Rightarrow> jstr list" where
  \<comment> \<open>\<open>s.split(c)\<close> for a one-character separator: \<open>''.split('/')\<close> is \<open>['']\<close>\<close>
  "js_split c [] = [[]]"
| "js_split c (x # xs) =
     (if x = c then [] # js_split c xs
      else (case js_split c xs of p # ps \<Rightarrow> (x # p) # ps | [] \<Rightarrow> [[x]]))"

fun js_nat_str :: "nat \<Rightarrow> jstr" where
  \<comment> \<open>\<open>String(n)\<close> of a non-negative integer: its decimal digits\<close>
  "js_nat_str n =
     (if n < 10 then [char_of (48 + n)]
      else js_nat_str (n div 10) @ [char_of (48 + n mod 10)])"

declare js_nat_str.simps [simp del]

definition js_int_str :: "int \<Rightarrow> jstr" where
  "js_int_str i = (if i < 0 then CHR ''-'' # js_nat_str (nat (- i)) else js_nat_str (nat i))"

fun js_join :: "jstr \<Rightarrow> jstr list \<Rightarrow> jstr" where
  \<comment> \<open>\<open>xs.join(sep)\<close>\<close>
  "js_join sep [] = []"
| "js_join sep [x] = x"
| "js_join sep (x # y # zs) = x @ sep @ js_join sep (y # zs)"

definition nat_of_digits :: "jstr \<Rightarrow> nat" where
  "nat_of_digits s = foldl (\<lambda>n c. 10 * n + (of_char c - 48)) 0 s"

definition js_number :: "jstr \<Rightarrow> nat option" where
  \<comment> \<open>\<open>Number(s)\<close> on the strings the script converts: after trimming, the empty
      string is 0 and a string of decimal digits its value; anything else is NaN (None)\<close>
  "js_number s =
     (let t = js_trim s
      in if t = [] then Some 0
         else if list_all js_is_digit t then Some (nat_of_digits t) else None)"

section \<open>Lemmas on the string primitives\<close>

lemma sublist_Cons_eval [js_string_simps]:
  "sublist [] ys"
  "sublist (x # xs) [] \<longleftrightarrow> False"
  "sublist (x # xs) (y # ys) \<longleftrightarrow> prefix (x # xs) (y # ys) \<or> sublist (x # xs) ys"
  by (simp_all add: sublist_code)

lemma js_includes_refl [simp]: "js_includes s s"
  by (simp add: js_includes_def)

lemma js_includes_append [intro]: "js_includes (a @ s @ b) s"
  by (auto simp: js_includes_def sublist_def)

lemma js_includes_Nil [simp]: "js_includes s [] "
  by (simp add: js_includes_def)

lemma js_split_no_sep: "c \<notin> set a \<Longrightarrow> js_split c a = [a]"
  by (induction a) auto

lemma js_split_append_sep:
  "c \<notin> set a \<Longrightarrow> js_split c (a @ c # b) = a # js_split c b"
proof (induction a)
  case Nil
  then show ?case by simp
next
  case (Cons x a)
  then have "js_split c (a @ c # b) = a # js_split c b" and "x \<noteq> c" by auto
  then show ?case by simp
qed

lemma js_is_digit_char_of [simp]: "(d::nat) < 10 \<Longrightarrow> js_is_digit (char_of (48 + d))"
  by (simp add: js_is_digit_def)

lemma of_char_digit [simp]: "(d::nat) < 10 \<Longrightarrow> (of_char (char_of (48 + d) :: char) :: nat) = 48 + d"
  by simp

lemma js_digit_not_space [simp]: "js_is_digit c \<Longrightarrow> \<not> js_is_space c"
  by (auto simp: js_is_digit_def js_is_space_def)

lemma js_nat_str_digits: "list_all js_is_digit (js_nat_str n) \<and> js_nat_str n \<noteq> []"
proof (induction n rule: js_nat_str.induct)
  case (1 n)
  then show ?case by (cases "n < 10") (simp_all add: js_nat_str.simps [of n])
qed

lemma nat_of_digits_snoc:
  "nat_of_digits (s @ [c]) = 10 * nat_of_digits s + (of_char c - 48)"
  by (simp add: nat_of_digits_def)

lemma nat_of_digits_js_nat_str: "nat_of_digits (js_nat_str n) = n"
proof (induction n rule: js_nat_str.induct)
  case (1 n)
  show ?case
  proof (cases "n < 10")
    case True
    then show ?thesis by (simp add: js_nat_str.simps [of n] nat_of_digits_def)
  next
    case False
    with "1.IH" have "nat_of_digits (js_nat_str (n div 10)) = n div 10" by simp
    with False show ?thesis
      by (simp add: js_nat_str.simps [of n] nat_of_digits_snoc)
  qed
qed

lemma nat_of_digits_zero_Cons: "nat_of_digits (CHR ''0'' # s) = nat_of_digits s"
  by (simp add: nat_of_digits_def)

lemma js_trim_digits: "list_all js_is_digit s \<Longrightarrow> js_trim s = s"
proof -
  assume d: "list_all js_is_digit s"
  then have "dropWhile js_is_space s = s"
    by (cases s) auto
  moreover from d have "dropWhile js_is_space (rev s) = rev s"
    by (cases "rev s") (auto simp: list_all_iff dest: arg_cong[where f = set])
  ultimately show ?thesis by (simp add: js_trim_def)
qed

lemma js_number_nat_str [simp]: "js_number (js_nat_str n) = Some n"
  using js_nat_str_digits [of n]
  by (simp add: js_number_def js_trim_digits nat_of_digits_js_nat_str)

lemma js_pad2_digits:
  "list_all js_is_digit s \<Longrightarrow> s \<noteq> [] \<Longrightarrow> list_all js_is_digit (js_pad2 s) \<and> js_pad2 s \<noteq> []"
  by (auto simp: js_pad2_def js_is_digit_def list_all_iff)

lemma nat_of_digits_pad2: "nat_of_digits (js_pad2 s) = nat_of_digits s"
proof (cases "2 \<le> length s")
  case True
  then show ?thesis by (simp add: js_pad2_def)
next
  case False
  then have "2 - length s = 1 \<or> 2 - length s = 2" by auto
  then show ?thesis
    by (auto simp: js_pad2_def numeral_2_eq_2 nat_of_digits_zero_Cons)
qed

lemma js_number_pad2_nat_str [simp]: "js_number (js_pad2 (js_nat_str n)) = Some n"
  using js_pad2_digits [OF conjunct1 [OF js_nat_str_digits] conjunct2 [OF js_nat_str_digits]]
  by (simp add: js_number_def js_trim_digits nat_of_digits_pad2 nat_of_digits_js_nat_str)

lemma js_nat_str_no_char: "c \<notin> set (js_nat_str n) \<or> js_is_digit c"
  using js_nat_str_digits [of n] by (auto simp: list_all_iff)

lemma js_pad2_nat_str_no_char: "c \<notin> set (js_pad2 (js_nat_str n)) \<or> js_is_digit c"
  using js_nat_str_no_char [of c n] by (auto simp: js_pad2_def js_is_digit_def)

lemma js_trim_no_space: "list_all (\<lambda>c. \<not> js_is_space c) s \<Longrightarrow> js_trim s = s"
proof -
  assume d: "list_all (\<lambda>c. \<not> js_is_space c) s"
  then have "dropWhile js_is_space s = s"
    by (cases s) auto
  moreover from d have "dropWhile js_is_space (rev s) = rev s"
    by (cases "rev s") (auto simp: list_all_iff dest: arg_cong[where f = set])
  ultimately show ?thesis by (simp add: js_trim_def)
qed

lemma js_nat_str_length_step:
  "10 \<le> n \<Longrightarrow> length (js_nat_str n) = Suc (length (js_nat_str (n div 10)))"
  by (simp add: js_nat_str.simps [of n])

lemma js_nat_str_length_1: "n < 10 \<Longrightarrow> length (js_nat_str n) = 1"
  by (simp add: js_nat_str.simps [of n])

lemma js_nat_str_length_2: "10 \<le> n \<Longrightarrow> n < 100 \<Longrightarrow> length (js_nat_str n) = 2"
  using js_nat_str_length_1 [of "n div 10"] by (simp add: js_nat_str_length_step [of n])

lemma js_nat_str_length_3: "100 \<le> n \<Longrightarrow> n < 1000 \<Longrightarrow> length (js_nat_str n) = 3"
  using js_nat_str_length_2 [of "n div 10"] by (simp add: js_nat_str_length_step [of n])

lemma js_nat_str_length_4: "1000 \<le> n \<Longrightarrow> n < 10000 \<Longrightarrow> length (js_nat_str n) = 4"
  using js_nat_str_length_3 [of "n div 10"] by (simp add: js_nat_str_length_step [of n])

lemma js_pad2_nat_str_length: "n < 100 \<Longrightarrow> length (js_pad2 (js_nat_str n)) = 2"
  by (cases "n < 10") (simp_all add: js_pad2_def js_nat_str_length_1 js_nat_str_length_2)

lemma js_pad2_nat_str_digits: "list_all js_is_digit (js_pad2 (js_nat_str n))"
  using js_pad2_digits [OF conjunct1 [OF js_nat_str_digits] conjunct2 [OF js_nat_str_digits]] by simp

section \<open>Floor division\<close>

lemma int_div_succ:
  fixes x k :: int
  assumes k: "0 < k"
  shows "(x + 1) div k = x div k + (if (x + 1) mod k = 0 then 1 else 0)"
proof -
  define q r where "q = x div k" and "r = x mod k"
  have x: "x = k * q + r" unfolding q_def r_def by simp
  have r: "0 \<le> r" "r < k" unfolding r_def using k by simp_all
  show ?thesis
  proof (cases "r + 1 = k")
    case True
    then have x1: "x + 1 = k * (q + 1)" using x by (simp add: algebra_simps)
    have "x div k = q" by (simp add: q_def)
    moreover have "(x + 1) div k = q + 1" "(x + 1) mod k = 0"
      using k by (simp_all only: x1) simp_all
    ultimately show ?thesis by simp
  next
    case False
    then have r1: "0 \<le> r + 1" "r + 1 < k" using r by simp_all
    have x1: "x + 1 = (r + 1) + k * q" using x by simp
    have "(x + 1) div k = q" unfolding x1 using r1 k by simp
    moreover have "(x + 1) mod k = r + 1" unfolding x1 using r1 by simp
    moreover have "x div k = q" by (simp add: q_def)
    ultimately show ?thesis using r r1 by simp
  qed
qed

lemma int_mod_shift:
  fixes y c k :: int
  shows "(y + c * k) mod k = y mod k"
  by simp

lemma js_trim_idem: "js_trim (js_trim s) = js_trim s"
proof -
  define a where "a = dropWhile js_is_space s"
  define b where "b = dropWhile js_is_space (rev a)"
  have t: "js_trim s = rev b" by (simp add: js_trim_def a_def b_def)
  have hb: "dropWhile js_is_space b = b"
    unfolding b_def by (rule dropWhile_idem)
  have rb: "dropWhile js_is_space (rev b) = rev b"
  proof (cases "b = []")
    case False
    then have "last b = last (rev a)" unfolding b_def by (metis dropWhile_eq_Nil_conv dropWhile_last)
    moreover from False have "a \<noteq> []" by (auto simp: b_def)
    ultimately have "\<not> js_is_space (hd (rev b))"
      by (metis a_def dropWhile_eq_Nil_conv hd_dropWhile hd_rev last_rev)
    then show ?thesis by (simp add: dropWhile_eq_self_iff)
  qed simp
  show ?thesis unfolding t by (simp only: js_trim_def rb rev_rev_ident hb)
qed

lemma set_js_trim: "set (js_trim s) \<subseteq> set s"
  unfolding js_trim_def by (metis set_dropWhileD set_rev subsetI)

lemma set_js_join: "set (js_join sep xs) \<subseteq> set sep \<union> \<Union> (set ` set xs)"
  by (induction sep xs rule: js_join.induct) auto

lemma js_trim_ends:
  "s \<noteq> [] \<Longrightarrow> \<not> js_is_space (hd s) \<Longrightarrow> \<not> js_is_space (last s) \<Longrightarrow> js_trim s = s"
proof -
  assume a: "s \<noteq> []" "\<not> js_is_space (hd s)" "\<not> js_is_space (last s)"
  then have "dropWhile js_is_space s = s" "dropWhile js_is_space (rev s) = rev s"
    by (simp_all add: dropWhile_eq_self_iff hd_rev)
  then show ?thesis by (simp add: js_trim_def)
qed

lemma js_lower_char_digit: "js_is_digit c \<Longrightarrow> js_lower_char c = c"
  by (auto simp: js_lower_char_def js_is_digit_def Let_def)

lemma js_nat_str_4:
  assumes "1000 \<le> y" "y < 10000"
  shows "js_nat_str y = [char_of (48 + y div 1000), char_of (48 + y div 100 mod 10),
                         char_of (48 + y div 10 mod 10), char_of (48 + y mod 10)]"
proof -
  have b: "y div 10 div 10 = y div 100" "y div 100 div 10 = y div 1000" "y div 10 div 10 mod 10 = y div 100 mod 10"
    by (simp_all add: div_mult2_eq [symmetric])
  have c: "\<not> y < 10" "\<not> y div 10 < 10" "\<not> y div 100 < 10" "y div 1000 < 10" using assms by simp_all
  show ?thesis
    using c by (simp add: js_nat_str.simps [of y] js_nat_str.simps [of "y div 10"]
        js_nat_str.simps [of "y div 100"] js_nat_str.simps [of "y div 1000"] b)
qed

lemma digit_char_of:
  "char_of (48::nat) = CHR ''0''" "char_of (49::nat) = CHR ''1''" "char_of (50::nat) = CHR ''2''"
  "char_of (57::nat) = CHR ''9''"
  by (simp_all add: char_of_def bit_0)

lemma sublist_before_sep:
  assumes "k \<noteq> []" and "set k \<inter> set (x # ds) = {}"
  shows "sublist k (a @ x # ds) \<longleftrightarrow> sublist k a"
proof
  assume s: "sublist k (a @ x # ds)"
  have nz: "\<not> sublist k (x # ds)"
  proof
    assume "sublist k (x # ds)"
    then have "set k \<subseteq> set (x # ds)" by (rule set_mono_sublist)
    moreover obtain c where "c \<in> set k" using assms(1) by (cases k) auto
    ultimately show False using assms(2) by blast
  qed
  have ns: "\<not> (\<exists>k1 k2. k = k1 @ k2 \<and> suffix k1 a \<and> prefix k2 (x # ds) \<and> k2 \<noteq> [])"
  proof
    assume "\<exists>k1 k2. k = k1 @ k2 \<and> suffix k1 a \<and> prefix k2 (x # ds) \<and> k2 \<noteq> []"
    then obtain k1 k2 where "k = k1 @ k2" "prefix k2 (x # ds)" "k2 \<noteq> []" by blast
    then have "x \<in> set k" by (cases k2) (auto simp: prefix_def)
    with assms(2) show False by auto
  qed
  from s nz ns show "sublist k a"
    unfolding sublist_append by (metis append_Nil2 suffix_imp_sublist)
next
  assume "sublist k a"
  then show "sublist k (a @ x # ds)" by (auto simp: sublist_append)
qed

lemma find_cong_set: "(\<And>x. x \<in> set xs \<Longrightarrow> P x = Q x) \<Longrightarrow> find P xs = find Q xs"
  by (induction xs) auto

lemma js_lower_space: "js_lower_char (CHR '' '') = CHR '' ''"
  by (simp add: js_lower_char_def)

lemma js_lower_digits: "list_all js_is_digit ds \<Longrightarrow> js_lower ds = ds"
  by (induction ds) (simp_all add: js_lower_def js_lower_char_digit)

lemma js_trim_int_str_pos: "0 \<le> i \<Longrightarrow> js_trim (js_int_str i) = js_int_str i"
  using js_nat_str_digits [of "nat i"] by (simp add: js_int_str_def js_trim_digits)

lemma js_join_nonempty: "xs \<noteq> [] \<Longrightarrow> hd xs \<noteq> [] \<Longrightarrow> js_join sep xs \<noteq> []"
  by (induction sep xs rule: js_join.induct) auto

end
