(* ===== verification/Dates.thy ===== *)
theory Dates
  imports Prelude
begin

text \<open>
  The date helpers of \<open>src/PAUTA-JRT2.js\<close> (lines 26-71, repeated at 573-618 in the
  second variant, and \<open>brToIsoDateString\<close> at 708-714). A JavaScript \<open>Date\<close> is a
  time value; the script only ever builds dates at local midnight or moves a date
  by whole days, so a date is modelled as its day number \<open>t :: int\<close> (days since
  1970-01-01 in the local calendar). The calendar functions are those of ECMA-262
  (\<open>DayFromYear\<close>, \<open>YearFromTime\<close>, \<open>MonthFromTime\<close>, \<open>DateFromTime\<close>,
  \<open>WeekDay\<close>, \<open>MakeDay\<close>), with \<open>YearFromTime\<close> computed by a search whose
  result is proved to be the largest year starting at or before the day.
\<close>

section \<open>ECMA-262 day arithmetic\<close>

definition day_from_year :: "int \<Rightarrow> int" where
  "day_from_year y =
     365 * (y - 1970) + (y - 1969) div 4 - (y - 1901) div 100 + (y - 1601) div 400"

definition days_in_year :: "int \<Rightarrow> int" where
  "days_in_year y =
     (if y mod 4 \<noteq> 0 then 365 else if y mod 100 \<noteq> 0 then 366
      else if y mod 400 \<noteq> 0 then 365 else 366)"

definition in_leap_year :: "int \<Rightarrow> bool" where
  "in_leap_year y \<longleftrightarrow> days_in_year y = 366"

lemma days_in_year_bounds: "365 \<le> days_in_year y \<and> days_in_year y \<le> 366"
  by (simp add: days_in_year_def)

lemma day_from_year_succ: "day_from_year (y + 1) = day_from_year y + days_in_year y"
proof -
  have a: "y + 1 - 1969 = (y - 1969) + 1" "y + 1 - 1901 = (y - 1901) + 1"
    "y + 1 - 1601 = (y - 1601) + 1" by simp_all
  have m4: "((y - 1969) + 1) mod 4 = 0 \<longleftrightarrow> y mod 4 = 0"
  proof -
    have "(y - 1969) + 1 = y + (-492) * 4" by simp
    then show ?thesis by (simp only: int_mod_shift)
  qed
  have m100: "((y - 1901) + 1) mod 100 = 0 \<longleftrightarrow> y mod 100 = 0"
  proof -
    have "(y - 1901) + 1 = y + (-19) * 100" by simp
    then show ?thesis by (simp only: int_mod_shift)
  qed
  have m400: "((y - 1601) + 1) mod 400 = 0 \<longleftrightarrow> y mod 400 = 0"
  proof -
    have "(y - 1601) + 1 = y + (-4) * 400" by simp
    then show ?thesis by (simp only: int_mod_shift)
  qed
  have i1: "y mod 100 = 0 \<Longrightarrow> y mod 4 = 0"
  proof -
    assume "y mod 100 = 0"
    then have "(4::int) dvd y" by (auto simp: dvd_def elim!: mod_eqE)
    then show ?thesis by simp
  qed
  have i2: "y mod 400 = 0 \<Longrightarrow> y mod 100 = 0"
  proof -
    assume "y mod 400 = 0"
    then have "(100::int) dvd y" by (auto simp: dvd_def elim!: mod_eqE)
    then show ?thesis by simp
  qed
  show ?thesis
    unfolding day_from_year_def days_in_year_def a
    by (simp only: int_div_succ [of 4] int_div_succ [of 100] int_div_succ [of 400] m4 m100 m400
        zero_less_numeral) (use i1 i2 in auto)
qed

lemma day_from_year_less: "y < y' \<Longrightarrow> day_from_year y < day_from_year y'"
proof (induction "nat (y' - y)" arbitrary: y')
  case 0
  then show ?case by simp
next
  case (Suc n)
  show ?case
  proof (cases "y' - 1 = y")
    case True
    then show ?thesis
      using day_from_year_succ [of y] days_in_year_bounds [of y] by (simp add: True [symmetric])
  next
    case False
    with Suc.prems have "y < y' - 1" by simp
    moreover from Suc.hyps have "n = nat ((y' - 1) - y)" by simp
    ultimately have "day_from_year y < day_from_year (y' - 1)" by (rule Suc.hyps(1) [rotated])
    moreover have "day_from_year y' = day_from_year (y' - 1) + days_in_year (y' - 1)"
      using day_from_year_succ [of "y' - 1"] by simp
    ultimately show ?thesis using days_in_year_bounds [of "y' - 1"] by simp
  qed
qed

lemma day_from_year_le_iff: "day_from_year y \<le> day_from_year y' \<longleftrightarrow> y \<le> y'"
proof
  assume "day_from_year y \<le> day_from_year y'"
  then show "y \<le> y'" using day_from_year_less [of y' y] by (cases "y' < y") auto
next
  assume "y \<le> y'"
  then show "day_from_year y \<le> day_from_year y'"
    using day_from_year_less [of y y'] by (cases "y = y'") auto
qed

subsection \<open>YearFromTime by search\<close>

function year_down :: "int \<Rightarrow> int \<Rightarrow> int" where
  "year_down t y = (if t < day_from_year y then year_down t (y - 1) else y)"
  by pat_completeness auto
termination
proof (relation "measure (\<lambda>(t, y). nat (day_from_year y - t))")
  fix t y :: int
  assume "t < day_from_year y"
  moreover have "day_from_year (y - 1) < day_from_year y" by (rule day_from_year_less) simp
  ultimately show "((t, y - 1), t, y) \<in> measure (\<lambda>(t, y). nat (day_from_year y - t))" by simp
qed simp

function year_up :: "int \<Rightarrow> int \<Rightarrow> int" where
  "year_up t y = (if day_from_year (y + 1) \<le> t then year_up t (y + 1) else y)"
  by pat_completeness auto
termination
proof (relation "measure (\<lambda>(t, y). nat (t - day_from_year y))")
  fix t y :: int
  assume "day_from_year (y + 1) \<le> t"
  moreover have "day_from_year y < day_from_year (y + 1)" by (rule day_from_year_less) simp
  ultimately show "((t, y + 1), t, y) \<in> measure (\<lambda>(t, y). nat (t - day_from_year y))" by simp
qed simp

declare year_down.simps [simp del] year_up.simps [simp del]

definition year_from_day :: "int \<Rightarrow> int" where
  \<comment> \<open>\<open>YearFromTime\<close>: the search starts at the Gregorian estimate, one year off at most\<close>
  "year_from_day t = year_up t (year_down t (1970 + (400 * t) div 146097))"

lemma year_down_le: "day_from_year (year_down t y) \<le> t"
  by (induction t y rule: year_down.induct) (simp add: year_down.simps)

lemma year_up_bounds:
  "day_from_year y \<le> t \<Longrightarrow>
     day_from_year (year_up t y) \<le> t \<and> t < day_from_year (year_up t y + 1)"
proof (induction t y rule: year_up.induct)
  case (1 t y)
  show ?case
  proof (cases "day_from_year (y + 1) \<le> t")
    case True
    with "1.IH" show ?thesis by (simp add: year_up.simps [of t y])
  next
    case False
    with "1.prems" show ?thesis by (simp add: year_up.simps [of t y])
  qed
qed

lemma year_from_day_bounds:
  "day_from_year (year_from_day t) \<le> t \<and> t < day_from_year (year_from_day t + 1)"
  unfolding year_from_day_def by (rule year_up_bounds [OF year_down_le])

lemma year_from_day_unique:
  assumes "day_from_year y \<le> t" and "t < day_from_year (y + 1)"
  shows "year_from_day t = y"
proof -
  let ?z = "year_from_day t"
  from year_from_day_bounds [of t] assms have "day_from_year y < day_from_year (?z + 1)"
    and "day_from_year ?z < day_from_year (y + 1)" by auto
  then have "y < ?z + 1" and "?z < y + 1"
    using day_from_year_le_iff [of "?z + 1" y] day_from_year_le_iff [of "y + 1" ?z] by auto
  then show ?thesis by simp
qed

lemma year_from_day_mono: "t \<le> t' \<Longrightarrow> year_from_day t \<le> year_from_day t'"
proof -
  assume "t \<le> t'"
  with year_from_day_bounds [of t] year_from_day_bounds [of t']
  have "day_from_year (year_from_day t) < day_from_year (year_from_day t' + 1)" by simp
  then show ?thesis using day_from_year_le_iff [of "year_from_day t' + 1" "year_from_day t"] by simp
qed

subsection \<open>Months, dates, week days\<close>

definition month_start :: "int \<Rightarrow> nat \<Rightarrow> int" where
  \<comment> \<open>first day of month \<open>m\<close> (0-based) within year \<open>y\<close>, as in \<open>MonthFromTime\<close>\<close>
  "month_start y m =
     [0, 31, 59, 90, 120, 151, 181, 212, 243, 273, 304, 334] ! m
     + (if 2 \<le> m \<and> in_leap_year y then 1 else 0)"

fun month_find :: "int \<Rightarrow> int \<Rightarrow> nat \<Rightarrow> nat" where
  "month_find y dwy 0 = 0"
| "month_find y dwy (Suc m) = (if month_start y (Suc m) \<le> dwy then Suc m else month_find y dwy m)"

definition month_from_day :: "int \<Rightarrow> int" where
  "month_from_day t =
     (let y = year_from_day t in int (month_find y (t - day_from_year y) 11))"

definition date_from_day :: "int \<Rightarrow> int" where
  "date_from_day t =
     (let y = year_from_day t
      in t - day_from_year y - month_start y (nat (month_from_day t)) + 1)"

definition week_day :: "int \<Rightarrow> int" where
  "week_day t = (t + 4) mod 7"

definition make_day :: "int \<Rightarrow> int \<Rightarrow> int \<Rightarrow> int" where
  \<comment> \<open>\<open>MakeDay(year, month, date)\<close>: months past December roll into the next years\<close>
  "make_day y m d =
     (let ym = y + m div 12; mn = nat (m mod 12)
      in day_from_year ym + month_start ym mn + d - 1)"

definition js_new_date :: "int \<Rightarrow> int \<Rightarrow> int \<Rightarrow> int" where
  \<comment> \<open>\<open>new Date(y, m, d)\<close>: a year 0..99 is read as 1900..1999\<close>
  "js_new_date y m d = make_day (if 0 \<le> y \<and> y \<le> 99 then 1900 + y else y) m d"

lemma month_find_le: "month_find y dwy m \<le> m"
  by (induction m) auto

lemma month_start_0 [simp]: "month_start y 0 = 0"
  by (simp add: month_start_def)

lemma month_find_start: "0 \<le> dwy \<Longrightarrow> month_start y (month_find y dwy m) \<le> dwy"
  by (induction m) auto

lemma month_from_day_range: "0 \<le> month_from_day t \<and> month_from_day t \<le> 11"
  using month_find_le [of _ _ 11] by (simp add: month_from_day_def Let_def)

lemma make_day_date: "make_day y m (d + k) = make_day y m d + k"
  by (simp add: make_day_def Let_def)

theorem make_day_of_parts:
  "make_day (year_from_day t) (month_from_day t) (date_from_day t) = t"
proof -
  have "month_from_day t div 12 = 0" "month_from_day t mod 12 = month_from_day t"
    using month_from_day_range [of t] by simp_all
  then show ?thesis by (simp add: make_day_def date_from_day_def Let_def)
qed

lemma date_from_day_pos: "1 \<le> date_from_day t"
proof -
  let ?y = "year_from_day t"
  have "0 \<le> t - day_from_year ?y" using year_from_day_bounds [of t] by simp
  then have "month_start ?y (month_find ?y (t - day_from_year ?y) 11) \<le> t - day_from_year ?y"
    by (rule month_find_start)
  then show ?thesis by (simp add: date_from_day_def month_from_day_def Let_def)
qed

lemma month_find_max:
  "month_find y dwy m < m \<Longrightarrow> dwy < month_start y (Suc (month_find y dwy m))"
proof (induction m)
  case 0
  then show ?case by simp
next
  case (Suc m)
  show ?case
  proof (cases "month_start y (Suc m) \<le> dwy")
    case True
    with Suc.prems show ?thesis by simp
  next
    case False
    show ?thesis
    proof (cases "month_find y dwy m < m")
      case True
      with Suc.IH False show ?thesis by simp
    next
      case f2: False
      with month_find_le [of y dwy m] have "month_find y dwy m = m" by simp
      with False show ?thesis by simp
    qed
  qed
qed

lemma month_length_le_31: "r < 11 \<Longrightarrow> month_start y (Suc r) - month_start y r \<le> 31"
proof -
  assume "r < 11"
  then have "r \<in> set [0..<11]" by simp
  moreover have "\<forall>r \<in> set [0..<11]. month_start y (Suc r) - month_start y r \<le> 31"
    by (simp add: month_start_def upt_rec)
  ultimately show ?thesis by blast
qed

lemma month_start_11: "month_start y 11 = days_in_year y - 31"
  by (simp add: month_start_def in_leap_year_def days_in_year_def)

lemma date_from_day_le_31: "date_from_day t \<le> 31"
proof -
  let ?y = "year_from_day t"
  let ?dwy = "t - day_from_year ?y"
  let ?r = "month_find ?y ?dwy 11"
  have dwy: "?dwy < days_in_year ?y"
    using year_from_day_bounds [of t] day_from_year_succ [of ?y] by simp
  have "?dwy - month_start ?y ?r + 1 \<le> 31"
  proof (cases "?r < 11")
    case True
    then have "?dwy < month_start ?y (Suc ?r)" by (rule month_find_max)
    with month_length_le_31 [OF True, of ?y] show ?thesis by simp
  next
    case False
    with month_find_le [of ?y ?dwy 11] have "?r = 11" by simp
    with dwy show ?thesis by (simp add: month_start_11)
  qed
  then show ?thesis by (simp add: date_from_day_def month_from_day_def Let_def)
qed

section \<open>The script's date helpers\<close>

definition format_br :: "int \<Rightarrow> jstr" where
  \<comment> \<open>the \<open>DD/MM/YYYY\<close> string built in \<open>getTodayBR\<close> and in the loop of
      \<open>gerarDatasProximosDoisMeses\<close>\<close>
  "format_br t =
     js_pad2 (js_int_str (date_from_day t)) @ ''/'' @
     js_pad2 (js_int_str (month_from_day t + 1)) @ ''/'' @ js_int_str (year_from_day t)"

definition parse_br :: "jstr \<Rightarrow> int option" where
  \<comment> \<open>\<open>parseBRDate\<close>: \<open>split('/')\<close>, \<open>Number\<close> of each piece, \<open>new Date(yyyy, mm - 1, dd)\<close>;
      None is the Invalid Date a missing or non-numeric piece gives\<close>
  "parse_br br =
     (case map js_number (js_split (CHR ''/'') br) of
        Some dd # Some mm # Some yyyy # _ \<Rightarrow> Some (js_new_date (int yyyy) (int mm - 1) (int dd))
      | _ \<Rightarrow> None)"

definition is_weekday_br :: "jstr \<Rightarrow> bool" where
  \<comment> \<open>\<open>isWeekdayBR\<close>: \<open>getDay()\<close> of an Invalid Date is NaN, which is neither 0 nor 6\<close>
  "is_weekday_br s =
     (case parse_br s of None \<Rightarrow> True | Some t \<Rightarrow> week_day t \<noteq> 0 \<and> week_day t \<noteq> 6)"

definition get_today_br :: "int \<Rightarrow> jstr" where
  "get_today_br hoje = format_br hoje"

definition set_date_add :: "int \<Rightarrow> int \<Rightarrow> int" where
  \<comment> \<open>\<open>d.setDate(d.getDate() + k)\<close>\<close>
  "set_date_add t k = make_day (year_from_day t) (month_from_day t) (date_from_day t + k)"

definition set_month_add :: "int \<Rightarrow> int \<Rightarrow> int" where
  \<comment> \<open>\<open>d.setMonth(d.getMonth() + k)\<close>: the day of the month is kept and overflows\<close>
  "set_month_add t k = make_day (year_from_day t) (month_from_day t + k) (date_from_day t)"

lemma set_date_add_eq [simp]: "set_date_add t k = t + k"
  by (simp add: set_date_add_def make_day_date make_day_of_parts)

function gerar_from :: "int \<Rightarrow> int \<Rightarrow> jstr list" where
  \<comment> \<open>the \<open>while (current <= fim)\<close> loop of \<open>gerarDatasProximosDoisMeses\<close>\<close>
  "gerar_from fim current =
     (if current \<le> fim then
        (let data_br = format_br current
         in (if is_weekday_br data_br then [data_br] else [])
            @ gerar_from fim (set_date_add current 1))
      else [])"
  by pat_completeness auto
termination
  by (relation "measure (\<lambda>(fim, current). nat (fim + 1 - current))") auto

declare gerar_from.simps [simp del]

definition gerar_datas :: "int \<Rightarrow> jstr list" where
  \<comment> \<open>\<open>gerarDatasProximosDoisMeses\<close>, with \<open>hoje\<close> the day the run starts\<close>
  "gerar_datas hoje =
     gerar_from (set_date_add (set_month_add hoje 2) 10) (set_date_add hoje 7)"

definition br_to_iso :: "jstr \<Rightarrow> jstr" where
  \<comment> \<open>\<open>brToIsoDateString\<close>: \<open>String(NaN)\<close> is \<open>NaN\<close> and stays so under padStart\<close>
  "br_to_iso br =
     (case parse_br br of
        None \<Rightarrow> ''NaN-NaN-NaN''
      | Some t \<Rightarrow> js_int_str (year_from_day t) @ ''-'' @
          js_pad2 (js_int_str (month_from_day t + 1)) @ ''-'' @ js_pad2 (js_int_str (date_from_day t)))"

definition business_day :: "int \<Rightarrow> bool" where
  "business_day t \<longleftrightarrow> week_day t \<noteq> 0 \<and> week_day t \<noteq> 6"

subsection \<open>Round trip of the date string\<close>

lemma js_int_str_nonneg: "0 \<le> i \<Longrightarrow> js_int_str i = js_nat_str (nat i)"
  by (simp add: js_int_str_def)

lemma slash_not_digit [simp]: "\<not> js_is_digit (CHR ''/'')"
  by (simp add: js_is_digit_def)

lemma format_br_nat:
  assumes "0 \<le> year_from_day t"
  shows "format_br t =
    js_pad2 (js_nat_str (nat (date_from_day t))) @ CHR ''/'' #
    js_pad2 (js_nat_str (nat (month_from_day t + 1))) @ CHR ''/'' #
    js_nat_str (nat (year_from_day t))"
  using assms date_from_day_pos [of t] month_from_day_range [of t]
  by (simp add: format_br_def js_int_str_nonneg)

lemma split_format_br:
  assumes "0 \<le> year_from_day t"
  shows "js_split (CHR ''/'') (format_br t) =
    [js_pad2 (js_nat_str (nat (date_from_day t))),
     js_pad2 (js_nat_str (nat (month_from_day t + 1))),
     js_nat_str (nat (year_from_day t))]"
proof -
  have n: "CHR ''/'' \<notin> set (js_pad2 (js_nat_str n))" "CHR ''/'' \<notin> set (js_nat_str n)" for n
    using js_pad2_nat_str_no_char [of "CHR ''/''" n] js_nat_str_no_char [of "CHR ''/''" n] by auto
  show ?thesis
    unfolding format_br_nat [OF assms]
    by (simp add: js_split_append_sep n js_split_no_sep)
qed

theorem parse_format_br:
  assumes "100 \<le> year_from_day t"
  shows "parse_br (format_br t) = Some t"
proof -
  have "js_new_date (year_from_day t) (month_from_day t) (date_from_day t) = t"
    using assms by (simp add: js_new_date_def make_day_of_parts)
  then show ?thesis
    using assms date_from_day_pos [of t] month_from_day_range [of t]
    by (simp add: parse_br_def split_format_br)
qed

lemma is_weekday_format_br:
  "100 \<le> year_from_day t \<Longrightarrow> is_weekday_br (format_br t) = business_day t"
  by (simp add: is_weekday_br_def parse_format_br business_day_def)

lemma format_br_layout:
  assumes "1000 \<le> year_from_day t" and "year_from_day t \<le> 9999"
  obtains a b c where "format_br t = a @ CHR ''/'' # b @ CHR ''/'' # c"
    and "length a = 2" and "length b = 2" and "length c = 4"
    and "list_all js_is_digit a" and "list_all js_is_digit b" and "list_all js_is_digit c"
proof -
  have "nat (date_from_day t) < 100" using date_from_day_le_31 [of t] by simp
  moreover have "nat (month_from_day t + 1) < 100"
    using month_from_day_range [of t] by (simp add: nat_less_iff)
  moreover have "1000 \<le> nat (year_from_day t)" "nat (year_from_day t) < 10000" using assms by simp_all
  ultimately show ?thesis
    using that [of "js_pad2 (js_nat_str (nat (date_from_day t)))"
        "js_pad2 (js_nat_str (nat (month_from_day t + 1)))" "js_nat_str (nat (year_from_day t))"]
      format_br_nat [of t] assms js_nat_str_digits
    by (simp add: js_pad2_nat_str_length js_nat_str_length_4 js_pad2_nat_str_digits)
qed

lemma format_br_length:
  assumes "1000 \<le> year_from_day t" and "year_from_day t \<le> 9999"
  shows "length (format_br t) = 10"
proof -
  obtain a b c where "format_br t = a @ CHR ''/'' # b @ CHR ''/'' # c"
    and "length a = 2" and "length b = 2" and "length c = 4"
    by (rule format_br_layout [OF assms])
  then show ?thesis by simp
qed

lemma format_br_no_space:
  assumes "1000 \<le> year_from_day t" and "year_from_day t \<le> 9999"
  shows "list_all (\<lambda>c. \<not> js_is_space c) (format_br t)"
proof -
  obtain a b c where "format_br t = a @ CHR ''/'' # b @ CHR ''/'' # c"
    and "list_all js_is_digit a" and "list_all js_is_digit b" and "list_all js_is_digit c"
    by (rule format_br_layout [OF assms])
  then show ?thesis by (auto simp: list_all_iff js_is_space_def js_is_digit_def)
qed

subsection \<open>The generated range\<close>

lemma gerar_from_eq:
  "100 \<le> year_from_day current \<Longrightarrow>
     gerar_from fim current = map format_br (filter business_day [current..fim])"
proof (induction fim current rule: gerar_from.induct)
  case (1 fim current)
  show ?case
  proof (cases "current \<le> fim")
    case True
    have "100 \<le> year_from_day (current + 1)"
      using "1.prems" year_from_day_mono [of current "current + 1"] by simp
    with True "1.IH" have "gerar_from fim (current + 1) =
        map format_br (filter business_day [current + 1..fim])" by simp
    moreover have "[current..fim] = current # [current + 1..fim]"
      using True by (simp add: upto_rec1)
    ultimately show ?thesis
      using True "1.prems" by (simp add: gerar_from.simps [of fim current] is_weekday_format_br)
  next
    case False
    then show ?thesis by (simp add: gerar_from.simps [of fim current])
  qed
qed

lemma gerar_datas_map:
  "100 \<le> year_from_day hoje \<Longrightarrow>
     gerar_datas hoje = map format_br (filter business_day [hoje + 7..set_month_add hoje 2 + 10])"
proof -
  assume y: "100 \<le> year_from_day hoje"
  then have "100 \<le> year_from_day (hoje + 7)"
    using year_from_day_mono [of hoje "hoje + 7"] by simp
  then show ?thesis by (simp add: gerar_datas_def gerar_from_eq)
qed

lemma format_br_inj:
  "100 \<le> year_from_day t \<Longrightarrow> 100 \<le> year_from_day t' \<Longrightarrow> format_br t = format_br t' \<Longrightarrow> t = t'"
proof -
  assume y: "100 \<le> year_from_day t" "100 \<le> year_from_day t'" and eq: "format_br t = format_br t'"
  have "Some t = parse_br (format_br t)" using y(1) by (simp only: parse_format_br)
  also have "\<dots> = parse_br (format_br t')" by (simp only: eq)
  also have "\<dots> = Some t'" using y(2) by (simp only: parse_format_br)
  finally show "t = t'" by simp
qed

lemma year_from_day_20514: "year_from_day 20514 = 2026"
  by (rule year_from_day_unique) (simp_all add: day_from_year_def)

lemma month_start_step: "r < 11 \<Longrightarrow> month_start y r < month_start y (Suc r)"
proof -
  assume "r < 11"
  then have "r \<in> set [0..<11]" by simp
  moreover have "\<forall>r \<in> set [0..<11]. month_start y r < month_start y (Suc r)"
    by (simp add: month_start_def upt_rec)
  ultimately show ?thesis by blast
qed

lemma month_start_mono: "m < m' \<Longrightarrow> m' \<le> 11 \<Longrightarrow> month_start y m < month_start y m'"
proof (induction m')
  case 0
  then show ?case by simp
next
  case (Suc m')
  show ?case
  proof (cases "m = m'")
    case True
    with Suc.prems show ?thesis by (simp add: month_start_step)
  next
    case False
    with Suc have "month_start y m < month_start y m'" by simp
    with Suc.prems month_start_step [of m' y] show ?thesis by simp
  qed
qed

lemma month_find_exact: "m \<le> k \<Longrightarrow> k \<le> 11 \<Longrightarrow> month_find y (month_start y m) k = m"
proof (induction k)
  case 0
  then show ?case by simp
next
  case (Suc k)
  show ?case
  proof (cases "m = Suc k")
    case True
    then show ?thesis by simp
  next
    case False
    with Suc.prems have "m \<le> k" by simp
    with Suc.prems have "month_start y m < month_start y (Suc k)" by (simp add: month_start_mono)
    with Suc.IH \<open>m \<le> k\<close> Suc.prems show ?thesis by simp
  qed
qed

lemma make_day_first_parts:
  assumes "0 \<le> m" and "m < 12"
  shows "year_from_day (make_day y m 1) = y \<and> month_from_day (make_day y m 1) = m"
proof -
  have md: "m div 12 = 0" "nat (m mod 12) = nat m" using assms by simp_all
  have le: "month_start y (nat m) \<le> month_start y 11"
  proof (cases "nat m = 11")
    case False
    with assms have "nat m < 11" by simp
    then show ?thesis using month_start_mono [of "nat m" 11 y] by simp
  qed simp
  have t: "make_day y m 1 = day_from_year y + month_start y (nat m)" by (simp add: make_day_def md)
  have ms0: "0 \<le> month_start y (nat m)"
  proof (cases "nat m = 0")
    case False
    have "nat m \<le> 11" using assms by simp
    with False show ?thesis using month_start_mono [of 0 "nat m" y] by simp
  qed simp
  have y: "year_from_day (make_day y m 1) = y"
    using le ms0 month_start_11 [of y] day_from_year_succ [of y]
    by (intro year_from_day_unique) (simp_all add: t)
  have "month_find y (month_start y (nat m)) 11 = nat m"
    using assms by (intro month_find_exact) simp_all
  moreover have y2: "year_from_day (day_from_year y + month_start y (nat m)) = y" using y by (simp add: t)
  ultimately have "month_from_day (make_day y m 1) = m" using assms by (simp add: month_from_day_def t Let_def)
  with y show ?thesis by simp
qed

text \<open>C31: the date string the script builds (\<open>DD/MM/YYYY\<close> from \<open>getDate\<close>,
  \<open>getMonth() + 1\<close> and \<open>getFullYear\<close>, padded) is read back by \<open>parseBRDate\<close> as
  the same day, for every day from the year 100 on (earlier years print with fewer
  digits or are re-read as 19xx).\<close>

theorem parse_br_format_br_roundtrip:
  assumes "100 \<le> year_from_day t"
  shows "parse_br (format_br t) = Some t"
  using assms by (rule parse_format_br)

theorem parse_br_format_br_roundtrip_witness:
  "100 \<le> year_from_day 20514 \<and> parse_br (format_br 20514) = Some 20514"
  using parse_br_format_br_roundtrip [of 20514] by (simp add: year_from_day_20514)

text \<open>C32: \<open>gerarDatasProximosDoisMeses\<close> returns exactly the business days
  (Monday to Friday) from today + 7 days through the day \<open>setMonth(getMonth() + 2)\<close>
  then \<open>setDate(getDate() + 10)\<close> give, both ends included, in ascending order, each
  as its \<open>DD/MM/YYYY\<close> string.\<close>

theorem gerar_datas_exact:
  assumes "100 \<le> year_from_day hoje"
  shows "gerar_datas hoje = map format_br (filter business_day [hoje + 7..set_month_add hoje 2 + 10])"
  using assms by (rule gerar_datas_map)

theorem gerar_datas_exact_witness:
  "100 \<le> year_from_day 20514 \<and>
   gerar_datas 20514 = map format_br (filter business_day [20514 + 7..set_month_add 20514 2 + 10])"
  using gerar_datas_exact [of 20514] by (simp add: year_from_day_20514)

text \<open>A corollary of the two properties above: every date string \<open>gerarDatasProximosDoisMeses\<close> produces parses back to a
  day that is a business day and lies within today + 7 and the end of the range; the
  strings are pairwise distinct and strictly ascending by the day they denote.\<close>

corollary gerar_datas_business_sorted:
  assumes "100 \<le> year_from_day hoje"
  shows "(\<forall>s \<in> set (gerar_datas hoje). \<exists>t. parse_br s = Some t \<and> business_day t \<and>
            hoje + 7 \<le> t \<and> t \<le> set_month_add hoje 2 + 10) \<and>
         sorted_wrt (\<lambda>a b. the (parse_br a) < the (parse_br b)) (gerar_datas hoje) \<and>
         distinct (gerar_datas hoje)"
proof -
  let ?ts = "filter business_day [hoje + 7..set_month_add hoje 2 + 10]"
  have g: "gerar_datas hoje = map format_br ?ts" using assms by (rule gerar_datas_map)
  have y: "100 \<le> year_from_day t" if "t \<in> set ?ts" for t
    using that assms year_from_day_mono [of hoje t] by auto
  have p: "parse_br (format_br t) = Some t" if "t \<in> set ?ts" for t
    using y [OF that] by (rule parse_format_br)
  have part1: "\<forall>s \<in> set (gerar_datas hoje). \<exists>t. parse_br s = Some t \<and> business_day t \<and>
            hoje + 7 \<le> t \<and> t \<le> set_month_add hoje 2 + 10"
    using p by (auto simp: g)
  have srt: "sorted_wrt (<) ?ts" by (rule sorted_wrt_filter) (simp add: sorted_wrt_upto)
  have part2: "sorted_wrt (\<lambda>a b. the (parse_br a) < the (parse_br b)) (gerar_datas hoje)"
    unfolding g sorted_wrt_map by (rule sorted_wrt_mono_rel [OF _ srt]) (simp add: p)
  have "inj_on format_br (set ?ts)"
    by (rule inj_onI) (use y format_br_inj in blast)
  then have part3: "distinct (gerar_datas hoje)"
    by (simp add: g distinct_map)
  from part1 part2 part3 show ?thesis by blast
qed

corollary gerar_datas_business_sorted_witness:
  "100 \<le> year_from_day 20514 \<and> distinct (gerar_datas 20514)"
  using gerar_datas_business_sorted [of 20514] by (simp add: year_from_day_20514)

end
