(* ===== verification/Session.thy ===== *)
theory Session
  imports Prelude
begin

text \<open>
  The session facade and the two helpers every step of the script goes through:
  \<open>fecharOverlays\<close> (the overlay guard, lines 77-88 and 853-864 of
  \<open>src/PAUTA-JRT2.js\<close>) and \<open>retryOperation\<close> (the retry envelope, lines 90-101 and
  866-877).

  The browser page is an external collaborator. It is an abstract world \<open>'w\<close>
  together with a record \<open>'w page\<close> of the primitives the script calls on it; each
  primitive that Playwright may reject returns an \<open>outcome\<close>, \<open>Inl\<close> carrying the
  error. Every component is a function of a page, so its lemmas hold for every
  behaviour of the remote UI. The state the model threads is a \<open>'w sess\<close>: the world
  and the reading of \<open>Date.now()\<close> in milliseconds. \<open>page.waitForTimeout(ms)\<close>
  advances that clock by exactly \<open>ms\<close> and lets the page evolve (\<open>elapse\<close>); a
  \<open>waitFor\<close> with a timeout reports how long it waited; every other primitive is
  taken as instantaneous.

  Awaits without a \<open>catch\<close> are chained by \<open>then_o\<close> (a rejection skips the rest)
  and \<open>for ... of\<close> loops whose bodies await by \<open>for_each_o\<close>; \<open>always\<close> and
  \<open>isl_then_o\<close> are the rules for chains that resolve from every state or that
  reject. The retry envelope gives up after exactly \<open>maxRetries\<close> attempts
  (\<open>retry_operation_gives_up\<close>).
\<close>

section \<open>Errors, outcomes and the page interface\<close>

datatype js_error = JsError jstr

type_synonym 'a outcome = "js_error + 'a"

datatype nav_button = Prev | Next

datatype spinner = IonSpinner | MatProgressSpinner | MatProgressBar

record cal_cell =
  \<comment> \<open>a \<open>td.mat-calendar-body-cell\<close> of the month grid, as the page-side script reads it\<close>
  td_aria :: "jstr option"
  td_text :: jstr
  cell_btn :: "(jstr option \<times> jstr) option"
  \<comment> \<open>the inner button's aria-label and text, when the cell holds a button\<close>
  cell_disabled :: bool

record item =
  \<comment> \<open>an \<open>ion-list ion-item\<close>: the text content of each sub-element the mapper selects\<close>
  it_sessao :: "jstr option"
  it_palavras :: "jstr option"
  it_negrito :: "jstr option"
  it_descs :: "jstr list"

record 'w page =
  kb_escape :: "'w \<Rightarrow> unit outcome \<times> 'w"
  backdrop_visible :: "'w \<Rightarrow> bool outcome \<times> 'w"
  backdrop_click :: "'w \<Rightarrow> unit outcome \<times> 'w"
  backdrop_detached :: "'w \<Rightarrow> unit outcome \<times> 'w"
  elapse :: "nat \<Rightarrow> 'w \<Rightarrow> 'w"
  ion_exists :: "nav_button \<Rightarrow> 'w \<Rightarrow> bool outcome \<times> 'w"
  ion_click :: "nav_button \<Rightarrow> 'w \<Rightarrow> bool outcome \<times> 'w"
  label_xpath :: "'w \<Rightarrow> jstr option outcome \<times> 'w"
  date_button_text :: "'w \<Rightarrow> jstr outcome \<times> 'w"
  date_button_visible :: "'w \<Rightarrow> unit outcome \<times> 'w"
  date_button_click :: "'w \<Rightarrow> unit outcome \<times> 'w"
  calendar_wait :: "'w \<Rightarrow> unit outcome \<times> 'w"
  period_text :: "'w \<Rightarrow> jstr option outcome \<times> 'w"
  cal_click :: "nav_button \<Rightarrow> 'w \<Rightarrow> unit outcome \<times> 'w"
  calendar_cells :: "'w \<Rightarrow> cal_cell list option outcome \<times> 'w"
  cell_click :: "nat \<Rightarrow> 'w \<Rightarrow> 'w"
  spinner_visible :: "spinner \<Rightarrow> 'w \<Rightarrow> bool outcome \<times> 'w"
  spinner_hidden :: "spinner \<Rightarrow> 'w \<Rightarrow> (unit outcome \<times> nat) \<times> 'w"
  \<comment> \<open>\<open>waitFor({state: 'hidden'})\<close>: its outcome and the milliseconds it waited\<close>
  items_count :: "'w \<Rightarrow> nat outcome \<times> 'w"
  items_read :: "'w \<Rightarrow> item list outcome \<times> 'w"

record 'w sess =
  world :: 'w
  clock :: nat

definition inert_page :: "'w page" where
  \<comment> \<open>a page on which every primitive succeeds and changes nothing; concrete pages
      of the examples update it\<close>
  "inert_page =
     \<lparr>kb_escape = (\<lambda>w. (Inr (), w)), backdrop_visible = (\<lambda>w. (Inr False, w)),
      backdrop_click = (\<lambda>w. (Inr (), w)), backdrop_detached = (\<lambda>w. (Inr (), w)),
      elapse = (\<lambda>_ w. w), ion_exists = (\<lambda>_ w. (Inr False, w)), ion_click = (\<lambda>_ w. (Inr False, w)),
      label_xpath = (\<lambda>w. (Inr None, w)), date_button_text = (\<lambda>w. (Inr [], w)),
      date_button_visible = (\<lambda>w. (Inr (), w)), date_button_click = (\<lambda>w. (Inr (), w)),
      calendar_wait = (\<lambda>w. (Inr (), w)), period_text = (\<lambda>w. (Inr None, w)),
      cal_click = (\<lambda>_ w. (Inr (), w)), calendar_cells = (\<lambda>w. (Inr None, w)),
      cell_click = (\<lambda>_ w. w), spinner_visible = (\<lambda>_ w. (Inr False, w)),
      spinner_hidden = (\<lambda>_ w. ((Inr (), 0), w)), items_count = (\<lambda>w. (Inr 0, w)),
      items_read = (\<lambda>w. (Inr [], w))\<rparr>"

section \<open>Running primitives\<close>

definition run :: "('w \<Rightarrow> 'a \<times> 'w) \<Rightarrow> 'w sess \<Rightarrow> 'a \<times> 'w sess" where
  "run f s = (fst (f (world s)), s\<lparr>world := snd (f (world s))\<rparr>)"

definition catch_default :: "'a \<Rightarrow> 'a outcome \<Rightarrow> 'a" where
  \<comment> \<open>\<open>.catch(() => d)\<close>\<close>
  "catch_default d r = (case r of Inl _ \<Rightarrow> d | Inr a \<Rightarrow> a)"

definition then_o ::
  "'a outcome \<times> 'w sess \<Rightarrow> ('a \<Rightarrow> 'w sess \<Rightarrow> 'b outcome \<times> 'w sess) \<Rightarrow> 'b outcome \<times> 'w sess" where
  \<comment> \<open>\<open>const a = await op(); rest\<close> with no \<open>catch\<close>: a rejection skips the rest\<close>
  "then_o rs f = (case rs of (Inl e, s) \<Rightarrow> (Inl e, s) | (Inr a, s) \<Rightarrow> f a s)"

fun for_each_o :: "('a \<Rightarrow> 's \<Rightarrow> unit outcome \<times> 's) \<Rightarrow> 'a list \<Rightarrow> 's \<Rightarrow> unit outcome \<times> 's" where
  \<comment> \<open>\<open>for (const x of xs) { ...await body(x)... }\<close> with no \<open>catch\<close> inside: the first
      rejection leaves the loop\<close>
  "for_each_o f [] s = (Inr (), s)"
| "for_each_o f (x # xs) s = (case f x s of (Inl e, s1) \<Rightarrow> (Inl e, s1) | (Inr _, s1) \<Rightarrow> for_each_o f xs s1)"

definition sleep :: "'w page \<Rightarrow> nat \<Rightarrow> 'w sess \<Rightarrow> 'w sess" where
  \<comment> \<open>\<open>page.waitForTimeout(ms)\<close>\<close>
  "sleep P ms s = s\<lparr>world := elapse P ms (world s), clock := clock s + ms\<rparr>"

lemma clock_run [simp]: "clock (snd (run f s)) = clock s"
  by (simp add: run_def)

lemma clock_sleep [simp]: "clock (sleep P ms s) = clock s + ms"
  by (simp add: sleep_def)

lemma run_pure:
  "snd (f (world s)) = world s \<Longrightarrow> snd (run f s) = s"
  by (simp add: run_def)

lemma for_each_o_append:
  "for_each_o f (xs @ ys) s =
     (case for_each_o f xs s of (Inl e, s1) \<Rightarrow> (Inl e, s1) | (Inr _, s1) \<Rightarrow> for_each_o f ys s1)"
  by (induction xs arbitrary: s) (auto split: prod.splits sum.splits)

lemma for_each_o_invariant:
  assumes step: "\<And>x s r s'. x \<in> set xs \<Longrightarrow> I s \<Longrightarrow> f x s = (r, s') \<Longrightarrow> I s'"
    and "I s" and "for_each_o f xs s = (r, s')"
  shows "I s'"
  using assms
proof (induction xs arbitrary: s)
  case Nil
  then show ?case by simp
next
  case (Cons x xs)
  obtain r1 s1 where f: "f x s = (r1, s1)" by fastforce
  have I1: "I s1" using Cons.prems(1) [of x s r1 s1] Cons.prems(2) f by simp
  have step': "\<And>y t q t'. y \<in> set xs \<Longrightarrow> I t \<Longrightarrow> f y t = (q, t') \<Longrightarrow> I t'"
    using Cons.prems(1) by (meson list.set_intros(2))
  show ?case
  proof (cases r1)
    case Inl
    with Cons.prems(3) f I1 show ?thesis by auto
  next
    case Inr
    with Cons.prems(3) f have "for_each_o f xs s1 = (r, s')" by simp
    then show ?thesis using Cons.IH step' I1 by blast
  qed
qed

lemma for_each_o_all_Inr:
  assumes "\<And>x s. x \<in> set xs \<Longrightarrow> I s \<Longrightarrow> \<exists>s'. f x s = (Inr (), s') \<and> I s'" and "I s"
  shows "\<exists>s'. for_each_o f xs s = (Inr (), s') \<and> I s'"
  using assms
proof (induction xs arbitrary: s)
  case Nil
  then show ?case by simp
next
  case (Cons x xs)
  then obtain s1 where "f x s = (Inr (), s1)" and "I s1" by fastforce
  with Cons.IH [of s1] Cons.prems show ?case by simp
qed

definition always :: "('s \<Rightarrow> 'a outcome \<times> 's) \<Rightarrow> 'a \<Rightarrow> bool" where
  \<comment> \<open>an awaited step that resolves to \<open>a\<close> from every state\<close>
  "always f a \<longleftrightarrow> (\<forall>s. \<exists>s'. f s = (Inr a, s'))"

lemma always_then_o [intro]:
  assumes "always g a" and "always (f a) b"
  shows "always (\<lambda>s. then_o (g s) f) b"
  unfolding always_def
proof
  fix s
  obtain s1 where "g s = (Inr a, s1)" using assms(1) by (auto simp: always_def)
  moreover obtain s2 where "f a s1 = (Inr b, s2)" using assms(2) by (auto simp: always_def)
  ultimately show "\<exists>s'. then_o (g s) f = (Inr b, s')" by (simp add: then_o_def)
qed

lemma always_return [intro]: "always (\<lambda>s. (Inr a, h s)) a"
  by (simp add: always_def)

lemma always_pre [intro]: "always f a \<Longrightarrow> always (\<lambda>s. f (h s)) a"
  by (simp add: always_def)

lemma always_run [intro]: "\<forall>w. fst (f w) = Inr a \<Longrightarrow> always (run f) a"
  by (simp add: always_def run_def)

lemma isl_then_o [intro]:
  "(\<And>a s'. rs = (Inr a, s') \<Longrightarrow> isl (fst (f a s'))) \<Longrightarrow> isl (fst (then_o rs f))"
  by (cases rs) (auto simp: then_o_def split: sum.splits)

section \<open>Overlay guard\<close>

definition fechar_overlays :: "'w page \<Rightarrow> 'w sess \<Rightarrow> 'w sess" where
  \<comment> \<open>every step's rejection is caught, so the guard never raises\<close>
  "fechar_overlays P s0 =
     (let (_, s1) = run (kb_escape P) s0;
          s2 = sleep P 200 s1;
          (vis, s3) = run (backdrop_visible P) s2;
          s4 = (if catch_default False vis then snd (run (backdrop_click P) s3) else s3);
          (_, s5) = run (backdrop_detached P) s4
      in s5)"

lemma clock_fechar_overlays [simp]: "clock (fechar_overlays P s) = clock s + 200"
  by (simp add: fechar_overlays_def Let_def split_def)

section \<open>Retry envelope\<close>

function retry_from ::
  "'w page \<Rightarrow> ('w sess \<Rightarrow> 'a outcome \<times> 'w sess) \<Rightarrow> nat \<Rightarrow> nat \<Rightarrow> nat \<Rightarrow> 'w sess
     \<Rightarrow> 'a option outcome \<times> 'w sess" where
  \<comment> \<open>the \<open>for (let attempt = 1; attempt <= maxRetries; attempt++)\<close> loop; \<open>Inr None\<close>
      is the \<open>undefined\<close> a loop that never runs returns\<close>
  "retry_from P op max_retries delay_ms attempt s =
     (if attempt \<le> max_retries then
        (case op s of
           (Inr a, s') \<Rightarrow> (Inr (Some a), s')
         | (Inl err, s') \<Rightarrow>
             (if attempt = max_retries then (Inl err, s')
              else retry_from P op max_retries delay_ms (attempt + 1)
                     (sleep P delay_ms (fechar_overlays P s'))))
      else (Inr None, s))"
  by pat_completeness auto
termination
  by (relation "measure (\<lambda>(P, op, m, d, attempt, s). Suc m - attempt)") auto

declare retry_from.simps [simp del]

definition retry_operation ::
  "'w page \<Rightarrow> ('w sess \<Rightarrow> 'a outcome \<times> 'w sess) \<Rightarrow> nat \<Rightarrow> nat \<Rightarrow> 'w sess
     \<Rightarrow> 'a option outcome \<times> 'w sess" where
  "retry_operation P op max_retries delay_ms s = retry_from P op max_retries delay_ms 1 s"

lemma retry_from_result:
  "retry_from P op m d k s = (r, s') \<Longrightarrow>
     (\<forall>e. r = Inl e \<longrightarrow> (\<exists>s0. op s0 = (Inl e, s'))) \<and>
     (\<forall>a. r = Inr (Some a) \<longrightarrow> (\<exists>s0. op s0 = (Inr a, s'))) \<and>
     (r = Inr None \<longrightarrow> m < k \<and> s' = s)"
proof (induction P op m d k s arbitrary: r s' rule: retry_from.induct)
  case (1 P op m d k s)
  show ?case
  proof (cases "k \<le> m")
    case False
    with "1.prems" show ?thesis by (auto simp: retry_from.simps [of P op m d k s])
  next
    case True
    obtain r0 s1 where op: "op s = (r0, s1)" by fastforce
    show ?thesis
    proof (cases r0)
      case (Inr a)
      with True op "1.prems" show ?thesis by (auto simp: retry_from.simps [of P op m d k s])
    next
      case (Inl e)
      show ?thesis
      proof (cases "k = m")
        case True
        with \<open>k \<le> m\<close> Inl op have "retry_from P op m d k s = (Inl e, s1)"
          by (subst retry_from.simps) simp
        with "1.prems" op Inl show ?thesis by auto
      next
        case False
        with \<open>k \<le> m\<close> Inl op "1.prems"
        have "retry_from P op m d (k + 1) (sleep P d (fechar_overlays P s1)) = (r, s')"
          by (simp add: retry_from.simps [of P op m d k s])
        from "1.IH" [OF \<open>k \<le> m\<close> op [symmetric] Inl False this] \<open>k \<le> m\<close> False
        show ?thesis by auto
      qed
    qed
  qed
qed

lemma retry_from_gives_up:
  assumes op: "\<forall>s. \<exists>e. fst (op s) = Inl e \<and> clock (snd (op s)) = clock s"
  shows "k \<le> m \<Longrightarrow> 0 < k \<Longrightarrow>
           \<exists>e s'. retry_from P op m d k s = (Inl e, s') \<and> clock s' = clock s + (m - k) * (200 + d)"
proof (induction "m - k" arbitrary: k s)
  case 0
  then have k: "k = m" by simp
  obtain e s1 where o: "op s = (Inl e, s1)" "clock s1 = clock s" using op by (metis prod.collapse)
  then show ?case using k 0 by (simp add: retry_from.simps [of P op m d m s])
next
  case (Suc n)
  then have k: "k < m" by simp
  obtain e s1 where o: "op s = (Inl e, s1)" "clock s1 = clock s" using op by (metis prod.collapse)
  have rec: "retry_from P op m d k s = retry_from P op m d (k + 1) (sleep P d (fechar_overlays P s1))"
    using k o(1) Suc.prems by (simp add: retry_from.simps [of P op m d k s])
  obtain e' s' where r: "retry_from P op m d (k + 1) (sleep P d (fechar_overlays P s1)) = (Inl e', s')"
      and c: "clock s' = clock (sleep P d (fechar_overlays P s1)) + (m - (k + 1)) * (200 + d)"
  proof -
    have n: "n = m - (k + 1)" using Suc.hyps(2) by simp
    show ?thesis using Suc.hyps(1) [OF n, of "sleep P d (fechar_overlays P s1)"] k that by auto
  qed
  have "m - k = Suc (m - (k + 1))" using k by simp
  with c o(2) have "clock s' = clock s + (m - k) * (200 + d)" by simp
  with rec r show ?case by simp
qed


text \<open>C30: the retry envelope gives up: when every attempt rejects without taking time,
  \<open>retryOperation\<close> rejects after exactly \<open>maxRetries\<close> attempts, having run the
  overlay guard and the delay between each two of them.\<close>

theorem retry_operation_gives_up:
  assumes "\<forall>s. \<exists>e. fst (op s) = Inl e \<and> clock (snd (op s)) = clock s" and "0 < m"
  shows "\<exists>e s'. retry_operation P op m d s = (Inl e, s') \<and> clock s' = clock s + (m - 1) * (200 + d)"
  using retry_from_gives_up [OF assms(1), of 1 m P d s] assms(2) by (simp add: retry_operation_def)

theorem retry_operation_gives_up_witness:
  "\<exists>e s'. retry_operation inert_page (\<lambda>s. (Inl (JsError ''Timeout 20000ms exceeded''), s)) 5 1200
            \<lparr>world = (), clock = 0\<rparr> = (Inl e, s') \<and> clock s' = 5600"
  using retry_operation_gives_up [of "\<lambda>s. (Inl (JsError ''Timeout 20000ms exceeded''), s)" 5 inert_page 1200
      "\<lparr>world = (), clock = 0\<rparr>"]
  by simp

end
