(* ===== verification/Stepper.thy ===== *)
theory Stepper
  imports Dates Session
begin

text \<open>
  The linear stepper date navigator of the second variant of \<open>src/PAUTA-JRT2.js\<close>
  (lines 1048-1187): \<open>extrairDataBR\<close>, the page reads \<open>readIonButtonTextByXpath\<close>
  and \<open>lerTextoDataExibida\<close>, the clicks \<open>clickIonButtonByCss\<close> and
  \<open>ionExistsByCss\<close>, the bounded wait \<open>esperarTextoMudar\<close>, the navigator
  \<open>irAteDataPorBotoes\<close> and its confirmation loop \<open>selecionarDataComConfirmacao\<close>.
  The page-side scripts of the \<open>page.evaluate\<close> calls are primitives of the page
  (\<open>ion_exists\<close>, \<open>ion_click\<close>, \<open>label_xpath\<close>); the Node-side control flow
  around them is modelled line by line.
\<close>

section \<open>\<open>extrairDataBR\<close>: the first \<open>\b\d{2}/\d{2}/\d{4}\b\<close> token\<close>

definition js_is_word_char :: "char \<Rightarrow> bool" where
  "js_is_word_char c \<longleftrightarrow>
     js_is_digit c \<or> (let n = (of_char c :: nat) in (65 \<le> n \<and> n \<le> 90) \<or> (97 \<le> n \<and> n \<le> 122) \<or> n = 95)"

definition date_token_shape :: "jstr \<Rightarrow> bool" where
  "date_token_shape s \<longleftrightarrow>
     length s = 10 \<and> list_all (\<lambda>i. js_is_digit (s ! i)) [0, 1, 3, 4, 6, 7, 8, 9]
     \<and> s ! 2 = CHR ''/'' \<and> s ! 5 = CHR ''/''"

fun find_date_token :: "bool \<Rightarrow> jstr \<Rightarrow> jstr" where
  \<comment> \<open>leftmost match; the flag says whether the previous character is a word character\<close>
  "find_date_token prev_word [] = []"
| "find_date_token prev_word (c # cs) =
     (let cand = take 10 (c # cs)
      in if \<not> prev_word \<and> date_token_shape cand
            \<and> (case drop 10 (c # cs) of [] \<Rightarrow> True | d # _ \<Rightarrow> \<not> js_is_word_char d)
         then cand else find_date_token (js_is_word_char c) cs)"

definition extrair_data_br :: "jstr \<Rightarrow> jstr" where
  "extrair_data_br texto = find_date_token False (js_trim texto)"

section \<open>Page reads and clicks\<close>

definition read_ion_button_text_by_xpath :: "'w page \<Rightarrow> 'w sess \<Rightarrow> jstr \<times> 'w sess" where
  \<comment> \<open>the page script trims the button's text; a missing node or a rejection gives ''\<close>
  "read_ion_button_text_by_xpath P s =
     (let (r, s1) = run (label_xpath P) s
      in ((case r of Inr (Some raw) \<Rightarrow> js_trim raw | _ \<Rightarrow> []), s1))"

definition ler_texto_data_exibida :: "'w page \<Rightarrow> 'w sess \<Rightarrow> jstr \<times> 'w sess" where
  "ler_texto_data_exibida P s =
     (let (raw, s1) = read_ion_button_text_by_xpath P s
      in if raw \<noteq> [] then (raw, s1)
         else (let (r, s2) = run (date_button_text P) s1;
                   t = catch_default [] r
               in if t \<noteq> [] \<and> js_trim t \<noteq> [] then (js_trim t, s2) else ([], s2)))"

definition click_ion_button_by_css :: "'w page \<Rightarrow> nav_button \<Rightarrow> 'w sess \<Rightarrow> bool \<times> 'w sess" where
  "click_ion_button_by_css P b s = (let (r, s1) = run (ion_click P b) s in (catch_default False r, s1))"

definition ion_exists_by_css :: "'w page \<Rightarrow> nav_button \<Rightarrow> 'w sess \<Rightarrow> bool \<times> 'w sess" where
  "ion_exists_by_css P b s = (let (r, s1) = run (ion_exists P b) s in (catch_default False r, s1))"

lemma clock_read_ion_button_text_by_xpath [simp]:
  "clock (snd (read_ion_button_text_by_xpath P s)) = clock s"
  by (simp add: read_ion_button_text_by_xpath_def split_def Let_def)

lemma clock_ler_texto_data_exibida [simp]: "clock (snd (ler_texto_data_exibida P s)) = clock s"
  by (simp add: ler_texto_data_exibida_def split_def Let_def)

lemma clock_ler_pair: "(a, s') = ler_texto_data_exibida P s \<Longrightarrow> clock s' = clock s"
  using clock_ler_texto_data_exibida [of P s] by (metis snd_conv)

section \<open>\<open>esperarTextoMudar\<close>: polling bounded by the clock\<close>

function esperar_loop :: "'w page \<Rightarrow> jstr \<Rightarrow> nat \<Rightarrow> nat \<Rightarrow> 'w sess \<Rightarrow> jstr \<times> 'w sess" where
  "esperar_loop P anterior timeout_ms start s =
     (if clock s - start < timeout_ms then
        (let (atual, s1) = ler_texto_data_exibida P s
         in if atual \<noteq> [] \<and> atual \<noteq> anterior then (atual, s1)
            else esperar_loop P anterior timeout_ms start (sleep P 80 s1))
      else ler_texto_data_exibida P s)"
  by pat_completeness auto
termination
  by (relation "measure (\<lambda>(P, a, tmo, start, s). start + tmo - clock s)")
     (auto dest: clock_ler_pair)

declare esperar_loop.simps [simp del]

definition esperar_texto_mudar :: "'w page \<Rightarrow> jstr \<Rightarrow> nat \<Rightarrow> 'w sess \<Rightarrow> jstr \<times> 'w sess" where
  "esperar_texto_mudar P anterior timeout_ms s = esperar_loop P anterior timeout_ms (clock s) s"

section \<open>\<open>irAteDataPorBotoes\<close>\<close>

definition js_time_gt :: "int option \<Rightarrow> int option \<Rightarrow> bool" where
  \<comment> \<open>\<open>a > b\<close> on \<open>getTime()\<close> values: false when either is NaN\<close>
  "js_time_gt a b = (case (a, b) of (Some x, Some y) \<Rightarrow> y < x | _ \<Rightarrow> False)"

definition step_direction :: "bool \<Rightarrow> int option \<Rightarrow> jstr \<Rightarrow> nav_button" where
  "step_direction has_prev alvo_date raw =
     (let atual_br = extrair_data_br raw
      in if atual_br \<noteq> [] then
           (if has_prev \<and> js_time_gt (parse_br atual_br) alvo_date then Prev else Next)
         else Next)"

fun ir_loop :: "'w page \<Rightarrow> jstr \<Rightarrow> int option \<Rightarrow> bool \<Rightarrow> nat \<Rightarrow> 'w sess \<Rightarrow> bool \<times> 'w sess" where
  \<comment> \<open>the \<open>for (let step = 1; step <= maxSteps; step++)\<close> loop, counting the steps left\<close>
  "ir_loop P alvo alvo_date has_prev 0 s = (False, s)"
| "ir_loop P alvo alvo_date has_prev (Suc n) s =
     (let (raw, s1) = ler_texto_data_exibida P s
      in if raw \<noteq> [] \<and> js_includes raw alvo then (True, s1)
         else
           (let direction = step_direction has_prev alvo_date raw;
                antes = raw;
                (clicked, s2) = click_ion_button_by_css P direction s1
            in if \<not> clicked then ir_loop P alvo alvo_date has_prev n (sleep P 150 s2)
               else
                 (let (depois, s3) = esperar_texto_mudar P antes 2500 s2
                  in if depois \<noteq> [] \<and> js_includes depois alvo then (True, s3)
                     else ir_loop P alvo alvo_date has_prev n (sleep P 120 s3))))"

definition ir_ate_data_por_botoes :: "'w page \<Rightarrow> jstr \<Rightarrow> nat \<Rightarrow> 'w sess \<Rightarrow> bool \<times> 'w sess" where
  "ir_ate_data_por_botoes P alvo max_steps s0 =
     (let s1 = fechar_overlays P s0;
          alvo_date = parse_br alvo;
          (has_prev, s2) = ion_exists_by_css P Prev s1;
          (has_next, s3) = ion_exists_by_css P Next s2
      in if \<not> has_next \<and> \<not> has_prev then (False, s3)
         else
           (let (raw, s4) = ler_texto_data_exibida P s3
            in if raw \<noteq> [] \<and> js_includes raw alvo then (True, s4)
               else ir_loop P alvo alvo_date has_prev max_steps s4))"

section \<open>\<open>selecionarDataComConfirmacao\<close> of the stepper variant\<close>

fun sel_data_botoes_loop :: "'w page \<Rightarrow> jstr \<Rightarrow> nat \<Rightarrow> 'w sess \<Rightarrow> bool \<times> 'w sess" where
  "sel_data_botoes_loop P data_br 0 s = (False, s)"
| "sel_data_botoes_loop P data_br (Suc n) s =
     (let (raw_antes, s1) = ler_texto_data_exibida P s;
          (ok, s2) = ir_ate_data_por_botoes P data_br 220 s1;
          (raw_depois, s3) = ler_texto_data_exibida P s2
      in if ok then (True, s3)
         else sel_data_botoes_loop P data_br n (sleep P 600 (fechar_overlays P s3)))"

definition selecionar_data_botoes :: "'w page \<Rightarrow> jstr \<Rightarrow> nat \<Rightarrow> 'w sess \<Rightarrow> bool \<times> 'w sess" where
  "selecionar_data_botoes P data_br max_tentativas s = sel_data_botoes_loop P data_br max_tentativas s"

section \<open>No false positive\<close>

lemma esperar_loop_read:
  "esperar_loop P anterior tmo start s = (r, s') \<Longrightarrow> \<exists>s0. ler_texto_data_exibida P s0 = (r, s')"
proof (induction P anterior tmo start s rule: esperar_loop.induct)
  case (1 P anterior tmo start s)
  obtain atual s1 where l: "ler_texto_data_exibida P s = (atual, s1)" by fastforce
  show ?case
  proof (cases "clock s - start < tmo")
    case True
    show ?thesis
    proof (cases "atual \<noteq> [] \<and> atual \<noteq> anterior")
      case True
      with \<open>clock s - start < tmo\<close> l "1.prems" show ?thesis
        by (auto simp: esperar_loop.simps [of P anterior tmo start s])
    next
      case False
      with \<open>clock s - start < tmo\<close> l "1.prems"
      have "esperar_loop P anterior tmo start (sleep P 80 s1) = (r, s')"
        by (simp add: esperar_loop.simps [of P anterior tmo start s])
      with "1.IH" [OF \<open>clock s - start < tmo\<close> l [symmetric] refl] False show ?thesis by auto
    qed
  next
    case False
    with "1.prems" show ?thesis by (auto simp: esperar_loop.simps [of P anterior tmo start s])
  qed
qed

lemma esperar_texto_mudar_read:
  "esperar_texto_mudar P anterior tmo s = (r, s') \<Longrightarrow> \<exists>s0. ler_texto_data_exibida P s0 = (r, s')"
  unfolding esperar_texto_mudar_def by (rule esperar_loop_read)

lemma ir_loop_true:
  "ir_loop P alvo alvo_date has_prev n s = (True, s') \<Longrightarrow>
     \<exists>s0 raw. ler_texto_data_exibida P s0 = (raw, s') \<and> raw \<noteq> [] \<and> js_includes raw alvo"
proof (induction n arbitrary: s)
  case 0
  then show ?case by simp
next
  case (Suc n)
  obtain raw s1 where l: "ler_texto_data_exibida P s = (raw, s1)" by fastforce
  obtain clicked s2 where c: "click_ion_button_by_css P (step_direction has_prev alvo_date raw) s1
      = (clicked, s2)" by fastforce
  obtain depois s3 where e: "esperar_texto_mudar P raw 2500 s2 = (depois, s3)" by fastforce
  show ?case
  proof (cases "raw \<noteq> [] \<and> js_includes raw alvo")
    case True
    with l Suc.prems show ?thesis by auto
  next
    case nf: False
    show ?thesis
    proof (cases clicked)
      case False
      with nf l c Suc.prems have "ir_loop P alvo alvo_date has_prev n (sleep P 150 s2) = (True, s')"
        by (auto simp: Let_def split: if_splits)
      then show ?thesis by (rule Suc.IH)
    next
      case True
      show ?thesis
      proof (cases "depois \<noteq> [] \<and> js_includes depois alvo")
        case True
        with nf \<open>clicked\<close> l c e Suc.prems have "s3 = s'" by (auto simp: Let_def split: if_splits)
        with True esperar_texto_mudar_read [OF e] show ?thesis by blast
      next
        case False
        with nf \<open>clicked\<close> l c e Suc.prems
        have "ir_loop P alvo alvo_date has_prev n (sleep P 120 s3) = (True, s')"
          by (auto simp: Let_def split: if_splits)
        then show ?thesis by (rule Suc.IH)
      qed
    qed
  qed
qed

lemma ir_ate_true:
  "ir_ate_data_por_botoes P alvo m s = (True, s') \<Longrightarrow>
     \<exists>s0 raw. ler_texto_data_exibida P s0 = (raw, s') \<and> raw \<noteq> [] \<and> js_includes raw alvo"
  by (auto simp: ir_ate_data_por_botoes_def Let_def split: prod.splits if_splits dest: ir_loop_true)

definition reads_pure :: "'w page \<Rightarrow> bool" where
  \<comment> \<open>reading the date label leaves the page as it is\<close>
  "reads_pure P \<longleftrightarrow> (\<forall>w. snd (label_xpath P w) = w) \<and> (\<forall>w. snd (date_button_text P w) = w)"

lemma ler_pure: "reads_pure P \<Longrightarrow> snd (ler_texto_data_exibida P s) = s"
  by (simp add: reads_pure_def ler_texto_data_exibida_def read_ion_button_text_by_xpath_def
      run_def Let_def split_def)

lemma ler_pure_pair: "reads_pure P \<Longrightarrow> ler_texto_data_exibida P s0 = (raw, s') \<Longrightarrow> s' = s0"
  using ler_pure [of P s0] by simp

lemma sel_data_botoes_loop_true:
  assumes "reads_pure P"
  shows "sel_data_botoes_loop P d n s = (True, s') \<Longrightarrow>
    fst (ler_texto_data_exibida P s') \<noteq> [] \<and> js_includes (fst (ler_texto_data_exibida P s')) d"
proof (induction n arbitrary: s)
  case 0
  then show ?case by simp
next
  case (Suc n)
  obtain r1 s1 where l1: "ler_texto_data_exibida P s = (r1, s1)" by fastforce
  obtain ok s2 where i: "ir_ate_data_por_botoes P d 220 s1 = (ok, s2)" by fastforce
  obtain r3 s3 where l3: "ler_texto_data_exibida P s2 = (r3, s3)" by fastforce
  show ?case
  proof (cases ok)
    case True
    with l1 i l3 Suc.prems have "s' = s3" by simp
    moreover have "s3 = s2" using ler_pure_pair [OF assms l3] .
    moreover have "ir_ate_data_por_botoes P d 220 s1 = (True, s2)" using i True by simp
    moreover obtain s0 raw where "ler_texto_data_exibida P s0 = (raw, s2)" and "raw \<noteq> []"
      and "js_includes raw d" using ir_ate_true [OF calculation(3)] by blast
    moreover then have "s2 = s0" using ler_pure_pair [OF assms] by blast
    ultimately show ?thesis by simp
  next
    case False
    with l1 i l3 Suc.prems
    have "sel_data_botoes_loop P d n (sleep P 600 (fechar_overlays P s3)) = (True, s')" by simp
    then show ?thesis by (rule Suc.IH)
  qed
qed

section \<open>A stepper that moves one day per click\<close>

text \<open>
  A concrete page for the scenarios of the specification: the inline label shows
  the current day as \<open>DD/MM/YYYY\<close>, \<open>Next\<close> and \<open>Prev\<close> move it by one day, and
  the page records the clicks it received.
\<close>

record stepper_ui =
  shown_day :: int
  clicks :: "nav_button list"

definition stepper_page :: "stepper_ui page" where
  "stepper_page = inert_page
     \<lparr>ion_exists := (\<lambda>b w. (Inr True, w)),
      ion_click := (\<lambda>b w. (Inr True,
         w\<lparr>shown_day := shown_day w + (if b = Next then 1 else -1), clicks := clicks w @ [b]\<rparr>)),
      label_xpath := (\<lambda>w. (Inr (Some (format_br (shown_day w))), w))\<rparr>"

definition four_digit_year :: "int \<Rightarrow> bool" where
  "four_digit_year t \<longleftrightarrow> 1000 \<le> year_from_day t \<and> year_from_day t \<le> 9999"

lemma four_digit_year_between:
  "four_digit_year a \<Longrightarrow> four_digit_year b \<Longrightarrow> a \<le> t \<Longrightarrow> t \<le> b \<Longrightarrow> four_digit_year t"
  using year_from_day_mono [of a t] year_from_day_mono [of t b] by (simp add: four_digit_year_def)

lemma sublist_same_length: "sublist xs ys \<Longrightarrow> length xs = length ys \<Longrightarrow> xs = ys"
  by (auto simp: sublist_def)

lemma includes_format_br_iff:
  "four_digit_year d \<Longrightarrow> four_digit_year a \<Longrightarrow> js_includes (format_br d) (format_br a) \<longleftrightarrow> d = a"
proof
  assume d: "four_digit_year d" and a: "four_digit_year a"
    and i: "js_includes (format_br d) (format_br a)"
  have "length (format_br a) = length (format_br d)"
    using d a by (simp add: four_digit_year_def format_br_length)
  with i have "format_br a = format_br d" by (simp add: js_includes_def sublist_same_length)
  then show "d = a" using d a by (simp add: four_digit_year_def format_br_inj)
qed simp

lemma date_token_shape_format_br:
  assumes "four_digit_year t"
  shows "date_token_shape (format_br t)"
proof -
  obtain a b c where f: "format_br t = a @ CHR ''/'' # b @ CHR ''/'' # c"
    and l: "length a = 2" "length b = 2" "length c = 4"
    and dg: "list_all js_is_digit a" "list_all js_is_digit b" "list_all js_is_digit c"
    using assms by (auto simp: four_digit_year_def elim: format_br_layout)
  from l obtain a0 a1 b0 b1 c0 c1 c2 c3 where
    "a = [a0, a1]" "b = [b0, b1]" "c = [c0, c1, c2, c3]"
    by (auto simp: length_Suc_conv numeral_eq_Suc)
  with f dg show ?thesis by (simp add: date_token_shape_def)
qed

lemma extrair_data_br_format_br:
  assumes "four_digit_year t"
  shows "extrair_data_br (format_br t) = format_br t"
proof -
  have len: "length (format_br t) = 10" and ns: "list_all (\<lambda>c. \<not> js_is_space c) (format_br t)"
    using assms by (simp_all add: four_digit_year_def format_br_length format_br_no_space)
  then obtain c cs where fc: "format_br t = c # cs" by (cases "format_br t") auto
  have "take 10 (c # cs) = c # cs" "drop 10 (c # cs) = []" using len fc by simp_all
  moreover have "date_token_shape (c # cs)" using date_token_shape_format_br [OF assms] fc by simp
  ultimately show ?thesis
    using ns fc by (simp add: extrair_data_br_def js_trim_no_space)
qed

lemma step_direction_format_br:
  "four_digit_year d \<Longrightarrow> step_direction True (Some a) (format_br d) = (if a < d then Prev else Next)"
  using extrair_data_br_format_br [of d] parse_format_br [of d] format_br_length [of d]
  by (auto simp: step_direction_def js_time_gt_def four_digit_year_def Let_def)

lemma format_br_nonempty: "four_digit_year t \<Longrightarrow> format_br t \<noteq> []"
  using format_br_length [of t] by (auto simp: four_digit_year_def)

lemma stepper_ler:
  "four_digit_year (shown_day (world s)) \<Longrightarrow>
     ler_texto_data_exibida stepper_page s = (format_br (shown_day (world s)), s)"
  using format_br_no_space [of "shown_day (world s)"] format_br_nonempty [of "shown_day (world s)"]
  by (simp add: ler_texto_data_exibida_def read_ion_button_text_by_xpath_def run_def
      stepper_page_def inert_page_def four_digit_year_def js_trim_no_space)

lemma stepper_fechar: "fechar_overlays stepper_page s = s\<lparr>clock := clock s + 200\<rparr>"
  by (simp add: fechar_overlays_def run_def sleep_def stepper_page_def inert_page_def
      catch_default_def)

lemma stepper_sleep: "sleep stepper_page ms s = s\<lparr>clock := clock s + ms\<rparr>"
  by (simp add: sleep_def stepper_page_def inert_page_def)

lemma stepper_exists: "ion_exists_by_css stepper_page b s = (True, s)"
  by (simp add: ion_exists_by_css_def run_def stepper_page_def inert_page_def catch_default_def)

lemma stepper_click:
  "click_ion_button_by_css stepper_page b s =
     (True, s\<lparr>world := world s\<lparr>shown_day := shown_day (world s) + (if b = Next then 1 else -1),
                               clicks := clicks (world s) @ [b]\<rparr>\<rparr>)"
  by (simp add: click_ion_button_by_css_def run_def stepper_page_def inert_page_def catch_default_def)

lemma stepper_esperar:
  assumes "four_digit_year (shown_day (world s))" and "format_br (shown_day (world s)) \<noteq> antes"
  shows "esperar_texto_mudar stepper_page antes 2500 s = (format_br (shown_day (world s)), s)"
  using assms format_br_nonempty [OF assms(1)]
  by (simp add: esperar_texto_mudar_def esperar_loop.simps [of _ _ _ "clock s" s] stepper_ler)

lemma stepper_ir_loop:
  "four_digit_year d \<Longrightarrow> four_digit_year a \<Longrightarrow> d \<noteq> a \<Longrightarrow> nat \<bar>a - d\<bar> \<le> n \<Longrightarrow>
     shown_day (world s) = d \<Longrightarrow>
     \<exists>s'. ir_loop stepper_page (format_br a) (Some a) True n s = (True, s') \<and>
       shown_day (world s') = a \<and>
       clicks (world s') = clicks (world s) @ replicate (nat \<bar>a - d\<bar>) (if a < d then Prev else Next)"
proof (induction "nat \<bar>a - d\<bar>" arbitrary: d n s)
  case 0
  then show ?case by simp
next
  case (Suc k)
  define dir where "dir = (if a < d then Prev else Next)"
  define d1 where "d1 = (if a < d then d - 1 else d + 1)"
  define s2 where "s2 = s\<lparr>world := world s\<lparr>shown_day := d1, clicks := clicks (world s) @ [dir]\<rparr>\<rparr>"
  obtain m where n: "n = Suc m" using Suc.prems(4) Suc.hyps(2) by (cases n) auto
  have d1_between: "four_digit_year d1"
    using four_digit_year_between [OF Suc.prems(1) Suc.prems(2), of d1]
      four_digit_year_between [OF Suc.prems(2) Suc.prems(1), of d1] Suc.prems(3)
    by (auto simp: d1_def)
  have ne: "format_br d1 \<noteq> format_br d"
    using format_br_inj [of d1 d] d1_between Suc.prems(1) by (auto simp: four_digit_year_def d1_def)
  have ler: "ler_texto_data_exibida stepper_page s = (format_br d, s)"
    using stepper_ler [of s] Suc.prems(1,5) by simp
  have noinc: "\<not> js_includes (format_br d) (format_br a)"
    using includes_format_br_iff [OF Suc.prems(1,2)] Suc.prems(3) by simp
  have sd: "step_direction True (Some a) (format_br d) = dir"
    using step_direction_format_br [OF Suc.prems(1)] by (simp add: dir_def)
  have clk: "click_ion_button_by_css stepper_page dir s = (True, s2)"
    by (simp add: stepper_click s2_def d1_def dir_def Suc.prems(5))
  have esp: "esperar_texto_mudar stepper_page (format_br d) 2500 s2 = (format_br d1, s2)"
    using stepper_esperar [of s2 "format_br d"] d1_between ne by (simp add: s2_def)
  have unf: "ir_loop stepper_page (format_br a) (Some a) True n s =
      (if js_includes (format_br d1) (format_br a) then (True, s2)
       else ir_loop stepper_page (format_br a) (Some a) True m (sleep stepper_page 120 s2))"
    using format_br_nonempty [OF d1_between] format_br_nonempty [OF Suc.prems(1)]
    by (simp add: n ler noinc sd clk esp Let_def)
  have step: "nat \<bar>a - d\<bar> = Suc (nat \<bar>a - d1\<bar>)"
    using Suc.prems(3) by (auto simp: d1_def)
  show ?case
  proof (cases "d1 = a")
    case True
    then show ?thesis using step by (simp add: unf s2_def dir_def)
  next
    case False
    have k: "k = nat \<bar>a - d1\<bar>" using Suc.hyps(2) step by simp
    have samedir: "(if a < d1 then Prev else Next) = dir"
      using Suc.prems(3) False by (auto simp: d1_def dir_def)
    have "nat \<bar>a - d1\<bar> \<le> m" using step Suc.prems(4) n by simp
    moreover have "shown_day (world (sleep stepper_page 120 s2)) = d1"
      by (simp add: stepper_sleep s2_def)
    ultimately obtain s' where "ir_loop stepper_page (format_br a) (Some a) True m
          (sleep stepper_page 120 s2) = (True, s')" and "shown_day (world s') = a"
      and "clicks (world s') = clicks (world (sleep stepper_page 120 s2)) @
                replicate (nat \<bar>a - d1\<bar>) (if a < d1 then Prev else Next)"
      using Suc.hyps(1) [OF k d1_between Suc.prems(2) False] by blast
    moreover have "\<not> js_includes (format_br d1) (format_br a)"
      using includes_format_br_iff [OF d1_between Suc.prems(2)] False by simp
    ultimately show ?thesis
      using step samedir by (simp add: unf stepper_sleep s2_def dir_def replicate_append_same [symmetric])
  qed
qed

lemma stepper_ir_ate:
  assumes "four_digit_year d" and "four_digit_year a" and "nat \<bar>a - d\<bar> \<le> m"
    and "shown_day (world s) = d"
  shows "\<exists>s'. ir_ate_data_por_botoes stepper_page (format_br a) m s = (True, s') \<and>
       shown_day (world s') = a \<and>
       clicks (world s') = clicks (world s) @ replicate (nat \<bar>a - d\<bar>) (if a < d then Prev else Next)"
proof -
  let ?s1 = "s\<lparr>clock := clock s + 200\<rparr>"
  have p: "parse_br (format_br a) = Some a"
    using assms(2) by (simp add: four_digit_year_def parse_format_br)
  have l: "ler_texto_data_exibida stepper_page ?s1 = (format_br d, ?s1)"
    using stepper_ler [of ?s1] assms(1,4) by simp
  have unf: "ir_ate_data_por_botoes stepper_page (format_br a) m s =
      (if js_includes (format_br d) (format_br a) then (True, ?s1)
       else ir_loop stepper_page (format_br a) (Some a) True m ?s1)"
    using format_br_nonempty [OF assms(1)]
    by (simp add: ir_ate_data_por_botoes_def stepper_fechar stepper_exists p l Let_def)
  show ?thesis
  proof (cases "d = a")
    case True
    with unf assms show ?thesis by simp
  next
    case False
    then have "\<not> js_includes (format_br d) (format_br a)"
      using includes_format_br_iff [OF assms(1,2)] by simp
    with unf stepper_ir_loop [OF assms(1,2) False assms(3), of ?s1] assms(4) show ?thesis by simp
  qed
qed

lemma stepper_selecionar:
  assumes "four_digit_year d" and "four_digit_year a" and "nat \<bar>a - d\<bar> \<le> 220"
    and "shown_day (world s) = d"
  shows "\<exists>s'. selecionar_data_botoes stepper_page (format_br a) (Suc t) s = (True, s') \<and>
       shown_day (world s') = a \<and>
       clicks (world s') = clicks (world s) @ replicate (nat \<bar>a - d\<bar>) (if a < d then Prev else Next)"
proof -
  obtain s' where i: "ir_ate_data_por_botoes stepper_page (format_br a) 220 s = (True, s')"
    and sh: "shown_day (world s') = a"
    and c: "clicks (world s') = clicks (world s) @ replicate (nat \<bar>a - d\<bar>) (if a < d then Prev else Next)"
    using stepper_ir_ate [OF assms] by blast
  have "ler_texto_data_exibida stepper_page s = (format_br d, s)"
    using stepper_ler [of s] assms(1,4) by simp
  moreover have "ler_texto_data_exibida stepper_page s' = (format_br a, s')"
    using stepper_ler [of s'] assms(2) sh by simp
  ultimately show ?thesis using i sh c by (simp add: selecionar_data_botoes_def)
qed

lemma year_from_day_2026:
  "year_from_day 20515 = 2026" "year_from_day 20517 = 2026"
  by (rule year_from_day_unique; simp add: day_from_year_def)+

lemma four_digit_year_march_2026: "four_digit_year 20515" "four_digit_year 20517"
  by (simp_all add: four_digit_year_def year_from_day_2026)

lemma format_br_20517: "format_br 20517 = ''05/03/2026''"
  by code_simp

lemma format_br_20515: "format_br 20515 = ''03/03/2026''"
  by code_simp

definition stepper_start :: "stepper_ui sess" where
  \<comment> \<open>the stepper label reads 03/03/2026 and no click has been made\<close>
  "stepper_start = \<lparr>world = \<lparr>shown_day = 20515, clicks = []\<rparr>, clock = 0\<rparr>"

text \<open>C2: \<open>irAteDataPorBotoes\<close> reports success only right after a read of the date
  label that returned a non-empty text containing the target string: its final
  state is the state that read left, whatever the page does.\<close>

theorem ir_ate_data_por_botoes_no_false_positive:
  assumes "ir_ate_data_por_botoes P alvo max_steps s = (True, s')"
  shows "\<exists>s0 raw. ler_texto_data_exibida P s0 = (raw, s') \<and> raw \<noteq> [] \<and> js_includes raw alvo"
  using assms by (rule ir_ate_true)

theorem ir_ate_data_por_botoes_no_false_positive_witness:
  "\<exists>s'. ir_ate_data_por_botoes stepper_page ''05/03/2026'' 220 stepper_start = (True, s') \<and>
     (\<exists>s0 raw. ler_texto_data_exibida stepper_page s0 = (raw, s') \<and> raw \<noteq> [] \<and>
        js_includes raw ''05/03/2026'')"
proof -
  obtain s' where r: "ir_ate_data_por_botoes stepper_page (format_br 20517) 220 stepper_start = (True, s')"
    using stepper_ir_ate [OF four_digit_year_march_2026, of 220 stepper_start]
    by (auto simp: stepper_start_def)
  then show ?thesis
    using ir_ate_data_por_botoes_no_false_positive [of stepper_page "''05/03/2026''" 220 stepper_start s']
    by (auto simp: format_br_20517)
qed

text \<open>C3: when reading the label does not change the page, a \<open>true\<close> from the
  stepper's \<open>selecionarDataComConfirmacao\<close> means that reading the label again shows a
  non-empty text containing the target date string: the confirmation has no false
  positive.\<close>

theorem selecionar_data_botoes_confirmed:
  assumes "reads_pure P" and "selecionar_data_botoes P data_br n s = (True, s')"
  shows "fst (ler_texto_data_exibida P s') \<noteq> [] \<and> js_includes (fst (ler_texto_data_exibida P s')) data_br"
  using assms(2) unfolding selecionar_data_botoes_def by (rule sel_data_botoes_loop_true [OF assms(1)])

theorem selecionar_data_botoes_confirmed_witness:
  "reads_pure stepper_page \<and>
   (\<exists>s'. selecionar_data_botoes stepper_page ''05/03/2026'' 2 stepper_start = (True, s') \<and>
      js_includes (fst (ler_texto_data_exibida stepper_page s')) ''05/03/2026'')"
proof -
  have pure: "reads_pure stepper_page"
    by (simp add: reads_pure_def stepper_page_def inert_page_def)
  obtain s' where r: "selecionar_data_botoes stepper_page (format_br 20517) (Suc 1) stepper_start = (True, s')"
    using stepper_selecionar [OF four_digit_year_march_2026, of stepper_start 1]
    by (auto simp: stepper_start_def)
  then show ?thesis
    using pure selecionar_data_botoes_confirmed [OF pure, of "''05/03/2026''" 2 stepper_start s']
    by (auto simp: format_br_20517 numeral_2_eq_2)
qed

text \<open>C1: on a stepper whose \<open>Next\<close> and \<open>Prev\<close> controls move the displayed day by
  one and whose label shows \<open>DD/MM/YYYY\<close>, the stepper's
  \<open>selecionarDataComConfirmacao\<close> reaches any target at most 220 days away (years
  1000 to 9999) on its first attempt, clicking exactly as many times as the days
  between, all in the target's direction; from 03/03/2026 to 05/03/2026 that is two
  \<open>Next\<close> clicks.\<close>

theorem selecionar_data_botoes_reaches_target:
  assumes "four_digit_year d" and "four_digit_year a" and "nat \<bar>a - d\<bar> \<le> 220"
    and "shown_day (world s) = d"
  shows "\<exists>s'. selecionar_data_botoes stepper_page (format_br a) (Suc t) s = (True, s') \<and>
       shown_day (world s') = a \<and>
       clicks (world s') = clicks (world s) @ replicate (nat \<bar>a - d\<bar>) (if a < d then Prev else Next)"
  using assms by (rule stepper_selecionar)

theorem selecionar_data_botoes_reaches_target_witness:
  "\<exists>s'. selecionar_data_botoes stepper_page ''05/03/2026'' 2 stepper_start = (True, s') \<and>
     shown_day (world s') = 20517 \<and> clicks (world s') = [Next, Next]"
  using selecionar_data_botoes_reaches_target [OF four_digit_year_march_2026, of stepper_start 1]
  by (simp add: stepper_start_def format_br_20517 numeral_2_eq_2)

end
