(* ===== verification/Pauta.thy ===== *)
theory Pauta
  imports Session
begin

text \<open>
  The stabilization detector \<open>esperarPautaEstabilizar\<close> and the extraction mapper
  \<open>extrairProcessosDaPauta\<close> of \<open>src/PAUTA-JRT2.js\<close> (lines 388-451, repeated at
  1193-1256). The spinner waits are bounded by Playwright's own timeouts, so a wait
  advances the clock by what the page took, at most the timeout. The loop
  \<open>for (let i = 0; i < 20; i++)\<close> counts the iterations left. The source's
  function returns \<open>undefined\<close> on both of its exits; the model's boolean tells
  which exit was taken: \<open>True\<close> for the \<open>return\<close> after two equal counts
  (certified), \<open>False\<close> for falling out of the loop.
\<close>

section \<open>\<open>esperarPautaEstabilizar\<close>\<close>

definition spinners :: "spinner list" where
  "spinners = [IonSpinner, MatProgressSpinner, MatProgressBar]"

definition wait_hidden :: "'w page \<Rightarrow> spinner \<Rightarrow> nat \<Rightarrow> 'w sess \<Rightarrow> 'w sess" where
  \<comment> \<open>\<open>sp.waitFor({ state: 'hidden', timeout }).catch(() => {})\<close>\<close>
  "wait_hidden P sp timeout_ms s =
     (let ((_, waited), w1) = spinner_hidden P sp (world s)
      in s\<lparr>world := w1, clock := clock s + min waited timeout_ms\<rparr>)"

definition wait_spinner :: "'w page \<Rightarrow> spinner \<Rightarrow> 'w sess \<Rightarrow> 'w sess" where
  "wait_spinner P sp s =
     (let (vis, s1) = run (spinner_visible P sp) s
      in if catch_default False vis then wait_hidden P sp 15000 s1 else s1)"

definition wait_spinners :: "'w page \<Rightarrow> 'w sess \<Rightarrow> 'w sess" where
  "wait_spinners P s = fold (wait_spinner P) spinners s"

definition count_items :: "'w page \<Rightarrow> 'w sess \<Rightarrow> nat \<times> 'w sess" where
  \<comment> \<open>\<open>page.locator('ion-list ion-item').count().catch(() => 0)\<close>\<close>
  "count_items P s = (let (r, s1) = run (items_count P) s in (catch_default 0 r, s1))"

fun estab_loop :: "'w page \<Rightarrow> nat \<Rightarrow> int \<Rightarrow> 'w sess \<Rightarrow> bool \<times> 'w sess" where
  "estab_loop P 0 last_count s = (False, s)"
| "estab_loop P (Suc n) last_count s =
     (let (count, s1) = count_items P s
      in if int count = last_count then
           (let (count2, s3) = count_items P (sleep P 600 s1)
            in if count2 = count then (True, s3)
               else estab_loop P n (int count) (sleep P 250 s3))
         else estab_loop P n (int count) (sleep P 250 s1))"

definition esperar_pauta_estabilizar :: "'w page \<Rightarrow> 'w sess \<Rightarrow> bool \<times> 'w sess" where
  "esperar_pauta_estabilizar P s = estab_loop P 20 (-1) (wait_spinners P s)"

section \<open>\<open>extrairProcessosDaPauta\<close>\<close>

record processo =
  numero_processo :: jstr
  sessao :: jstr
  juiz :: jstr
  reclamante :: jstr
  reclamada :: jstr

definition norm_text :: "jstr \<Rightarrow> jstr" where
  \<comment> \<open>\<open>t.replace(/\u00a0/g, ' ').trim()\<close>\<close>
  "norm_text t = js_trim (map (\<lambda>c. if c = CHR 0xA0 then CHR '' '' else c) t)"

definition get_text :: "jstr option \<Rightarrow> jstr" where
  \<comment> \<open>\<open>el ? el.textContent.replace(...).trim() : ''\<close>\<close>
  "get_text el = (case el of None \<Rightarrow> [] | Some t \<Rightarrow> norm_text t)"

definition nth_or_empty :: "jstr list \<Rightarrow> nat \<Rightarrow> jstr" where
  \<comment> \<open>\<open>xs[i] || ''\<close>\<close>
  "nth_or_empty xs i = (if i < length xs then xs ! i else [])"

definition map_item :: "item \<Rightarrow> processo" where
  \<comment> \<open>the callback of \<open>Array.from(items).map\<close>\<close>
  "map_item it =
     (let hora = get_text (it_sessao it);
          status = get_text (it_palavras it);
          numero = get_text (it_negrito it);
          partes = filter (\<lambda>t. t \<noteq> []) (map norm_text (it_descs it))
      in \<lparr>numero_processo = numero,
          sessao = js_join '' - '' (filter (\<lambda>t. t \<noteq> []) [hora, status]),
          juiz = nth_or_empty partes 0, reclamante = nth_or_empty partes 1,
          reclamada = nth_or_empty partes 2\<rparr>)"

definition extrair_processos :: "'w page \<Rightarrow> 'w sess \<Rightarrow> processo list outcome \<times> 'w sess" where
  \<comment> \<open>the count is caught, the \<open>page.evaluate\<close> is not: its rejection propagates\<close>
  "extrair_processos P s =
     (let (count, s1) = count_items P s
      in if count = 0 then (Inr [], s1)
         else (let (r, s2) = run (items_read P) s1
               in (case r of Inl e \<Rightarrow> Inl e | Inr items \<Rightarrow> Inr (map map_item items), s2)))"

section \<open>Example pages\<close>

definition settled_page :: "nat \<Rightarrow> unit page" where
  \<comment> \<open>a list that has finished rendering \<open>c\<close> items\<close>
  "settled_page c = inert_page\<lparr>items_count := (\<lambda>w. (Inr c, w))\<rparr>"

definition sample_item :: item where
  "sample_item = \<lparr>it_sessao = Some ''09:00'', it_palavras = Some ''Designada'',
     it_negrito = Some ''ATOrd 1000001-11.2026.5.02.0001'', it_descs = [''Juiz X'', ''Maria'', ''Empresa Y'']\<rparr>"

definition closed_count_page :: "unit page" where
  \<comment> \<open>a page that holds an item but whose \<open>count()\<close> call rejects\<close>
  "closed_count_page = inert_page\<lparr>items_count := (\<lambda>w. (Inl (JsError ''Target closed''), w)),
     items_read := (\<lambda>w. (Inr [sample_item], w))\<rparr>"

definition unit_start :: "unit sess" where
  "unit_start = \<lparr>world = (), clock = 0\<rparr>"

section \<open>Clock and count lemmas\<close>

lemma clock_count_items [simp]: "clock (snd (count_items P s)) = clock s"
  by (simp add: count_items_def split_def Let_def)

lemma count_items_pair: "count_items P s = (c, s') \<Longrightarrow> clock s' = clock s"
  using clock_count_items [of P s] by simp

lemma estab_loop_clock:
  "estab_loop P n l s = (b, s') \<Longrightarrow> clock s \<le> clock s' \<and> clock s' \<le> clock s + 850 * n"
proof (induction P n l s arbitrary: b s' rule: estab_loop.induct)
  case (1 P l s)
  then show ?case by simp
next
  case (2 P n l s)
  obtain c s1 where c1: "count_items P s = (c, s1)" by fastforce
  obtain c2 s3 where c2: "count_items P (sleep P 600 s1) = (c2, s3)" by fastforce
  have k1: "clock s1 = clock s" and k3: "clock s3 = clock s + 600"
    using count_items_pair [OF c1] count_items_pair [OF c2] by simp_all
  show ?case
  proof (cases "int c = l")
    case True
    show ?thesis
    proof (cases "c2 = c")
      case True
      with \<open>int c = l\<close> c1 c2 "2.prems" k3 show ?thesis by simp
    next
      case False
      with \<open>int c = l\<close> c1 c2 "2.prems"
      have "estab_loop P n (int c) (sleep P 250 s3) = (b, s')" by simp
      from "2.IH"(1) [OF c1 [symmetric] refl \<open>int c = l\<close> c2 [symmetric] refl False this] k3
      show ?thesis by simp
    qed
  next
    case False
    with c1 "2.prems" have "estab_loop P n (int c) (sleep P 250 s1) = (b, s')" by simp
    from "2.IH"(2) [OF c1 [symmetric] refl False this] k1 show ?thesis by simp
  qed
qed

lemma estab_loop_true:
  "estab_loop P n l s = (True, s') \<Longrightarrow>
     \<exists>sa sb c. count_items P sa = (c, sb) \<and> count_items P (sleep P 600 sb) = (c, s')"
proof (induction P n l s rule: estab_loop.induct)
  case (1 P l s)
  then show ?case by simp
next
  case (2 P n l s)
  obtain c s1 where c1: "count_items P s = (c, s1)" by fastforce
  obtain c2 s3 where c2: "count_items P (sleep P 600 s1) = (c2, s3)" by fastforce
  show ?case
  proof (cases "int c = l")
    case True
    show ?thesis
    proof (cases "c2 = c")
      case True
      with \<open>int c = l\<close> c1 c2 "2.prems" show ?thesis by auto
    next
      case False
      with \<open>int c = l\<close> c1 c2 "2.prems"
      have "estab_loop P n (int c) (sleep P 250 s3) = (True, s')" by simp
      then show ?thesis by (rule "2.IH"(1) [OF c1 [symmetric] refl \<open>int c = l\<close> c2 [symmetric] refl False])
    qed
  next
    case False
    with c1 "2.prems" have "estab_loop P n (int c) (sleep P 250 s1) = (True, s')" by simp
    then show ?thesis by (rule "2.IH"(2) [OF c1 [symmetric] refl False])
  qed
qed

lemma estab_loop_const:
  assumes "\<forall>s. fst (count_items P s) = c"
  shows "\<exists>s'. estab_loop P (Suc (Suc n)) (-1) s = (True, s') \<and> clock s' = clock s + 850"
proof -
  obtain s1 where c1: "count_items P s = (c, s1)" using assms by (metis prod.collapse)
  obtain s2 where c2: "count_items P (sleep P 250 s1) = (c, s2)" using assms by (metis prod.collapse)
  obtain s3 where c3: "count_items P (sleep P 600 s2) = (c, s3)" using assms by (metis prod.collapse)
  have "estab_loop P (Suc (Suc n)) (-1) s = (True, s3)" by (simp add: c1 c2 c3)
  moreover have "clock s3 = clock s + 850"
    using count_items_pair [OF c1] count_items_pair [OF c2] count_items_pair [OF c3] by simp
  ultimately show ?thesis by blast
qed

lemma count_items_const:
  "\<forall>w. fst (items_count P w) = Inr c \<Longrightarrow> fst (count_items P s) = c"
  by (simp add: count_items_def run_def split_def Let_def catch_default_def)

lemma count_items_reject:
  "\<forall>w. isl (fst (items_count P w)) \<Longrightarrow> fst (count_items P s) = 0"
proof -
  assume "\<forall>w. isl (fst (items_count P w))"
  then have "isl (fst (items_count P (world s)))" by simp
  then show ?thesis
    by (cases "fst (items_count P (world s))") (simp_all add: count_items_def run_def Let_def catch_default_def)
qed

lemma wait_spinner_clock:
  "clock s \<le> clock (wait_spinner P sp s) \<and> clock (wait_spinner P sp s) \<le> clock s + 15000"
  by (simp add: wait_spinner_def wait_hidden_def split_def Let_def)

lemma wait_spinners_clock:
  "clock s \<le> clock (wait_spinners P s) \<and> clock (wait_spinners P s) \<le> clock s + 45000"
  using wait_spinner_clock [of s P IonSpinner]
    wait_spinner_clock [of "wait_spinner P IonSpinner s" P MatProgressSpinner]
    wait_spinner_clock [of "wait_spinner P MatProgressSpinner (wait_spinner P IonSpinner s)" P MatProgressBar]
  by (simp add: wait_spinners_def spinners_def)

lemma norm_text_no_nbsp: "CHR 0xA0 \<notin> set (norm_text t)"
  using set_js_trim [of "map (\<lambda>c. if c = CHR 0xA0 then CHR '' '' else c) t"]
  by (auto simp: norm_text_def)

lemma norm_text_trimmed: "js_trim (norm_text t) = norm_text t"
  by (simp add: norm_text_def js_trim_idem)

lemma get_text_no_nbsp: "CHR 0xA0 \<notin> set (get_text el)"
  by (simp add: get_text_def norm_text_no_nbsp split: option.split)

lemma get_text_trimmed: "js_trim (get_text el) = get_text el"
  by (cases el) (simp_all add: get_text_def norm_text_trimmed, simp add: js_trim_def)

lemma nth_or_empty_take:
  "[nth_or_empty xs 0, nth_or_empty xs 1, nth_or_empty xs 2] = take 3 (xs @ replicate 3 [])"
  by (cases xs; cases "tl xs"; cases "tl (tl xs)") (simp_all add: nth_or_empty_def numeral_3_eq_3 numeral_2_eq_2)

lemma nth_or_empty_set: "nth_or_empty xs i = [] \<or> nth_or_empty xs i \<in> set xs"
  by (simp add: nth_or_empty_def)

lemma extrair_processos_zero:
  "fst (count_items P s) = 0 \<Longrightarrow> fst (extrair_processos P s) = Inr []"
  by (simp add: extrair_processos_def split_def Let_def)

lemma map_item_fields_no_nbsp:
  "CHR 0xA0 \<notin> set (numero_processo (map_item it)) \<and> CHR 0xA0 \<notin> set (sessao (map_item it)) \<and>
   CHR 0xA0 \<notin> set (juiz (map_item it)) \<and> CHR 0xA0 \<notin> set (reclamante (map_item it)) \<and>
   CHR 0xA0 \<notin> set (reclamada (map_item it))"
proof -
  let ?ps = "filter (\<lambda>t. t \<noteq> []) (map norm_text (it_descs it))"
  have ps: "CHR 0xA0 \<notin> set (nth_or_empty ?ps i)" for i
  proof -
    consider "nth_or_empty ?ps i = []" | "nth_or_empty ?ps i \<in> set ?ps"
      using nth_or_empty_set by blast
    then show ?thesis using norm_text_no_nbsp by cases auto
  qed
  have j: "CHR 0xA0 \<notin> set (js_join '' - '' (filter (\<lambda>t. t \<noteq> []) [get_text (it_sessao it), get_text (it_palavras it)]))"
    using set_js_join [of "'' - ''" "filter (\<lambda>t. t \<noteq> []) [get_text (it_sessao it), get_text (it_palavras it)]"]
      get_text_no_nbsp [of "it_sessao it"] get_text_no_nbsp [of "it_palavras it"] by auto
  show ?thesis using ps j get_text_no_nbsp [of "it_negrito it"] by (simp add: map_item_def Let_def)
qed

lemma settled_page_count: "\<forall>s. fst (count_items (settled_page c) s) = c"
  by (simp add: count_items_const settled_page_def)

text \<open>C4: a certified return of \<open>esperarPautaEstabilizar\<close> rests on two reads of the
  item count, 600 ms apart, that gave the same number, the second being the last
  thing the detector did.\<close>

theorem esperar_pauta_estabilizar_certified:
  assumes "esperar_pauta_estabilizar P s = (True, s')"
  shows "\<exists>sa sb c. count_items P sa = (c, sb) \<and> count_items P (sleep P 600 sb) = (c, s')"
  using assms unfolding esperar_pauta_estabilizar_def by (rule estab_loop_true)

theorem esperar_pauta_estabilizar_certified_witness:
  "\<exists>s'. esperar_pauta_estabilizar (settled_page 3) unit_start = (True, s') \<and>
     (\<exists>sa sb c. count_items (settled_page 3) sa = (c, sb) \<and>
        count_items (settled_page 3) (sleep (settled_page 3) 600 sb) = (c, s'))"
proof -
  obtain s' where r: "estab_loop (settled_page 3) 20 (-1) (wait_spinners (settled_page 3) unit_start) = (True, s')"
    using estab_loop_const [OF settled_page_count, of 3 18] by (auto simp: numeral_eq_Suc)
  then show ?thesis
    using esperar_pauta_estabilizar_certified [of "settled_page 3" unit_start s']
    by (auto simp: esperar_pauta_estabilizar_def)
qed

text \<open>C8: \<open>esperarPautaEstabilizar\<close> never takes longer than the three spinner waits
  (15 s each) and twenty polling rounds (250 ms plus a 600 ms confirmation each):
  62 s in all.\<close>

theorem esperar_pauta_estabilizar_bounded:
  "clock s \<le> clock (snd (esperar_pauta_estabilizar P s)) \<and>
   clock (snd (esperar_pauta_estabilizar P s)) \<le> clock s + 62000"
  using wait_spinners_clock [of s P]
    estab_loop_clock [of P 20 "-1" "wait_spinners P s" "fst (esperar_pauta_estabilizar P s)"
      "snd (esperar_pauta_estabilizar P s)"]
  by (simp add: esperar_pauta_estabilizar_def)

text \<open>C7: when the item count no longer changes, \<open>esperarPautaEstabilizar\<close> certifies
  the list in its second round, 850 ms after the spinner waits, long before its
  ceiling of twenty rounds.\<close>

theorem esperar_pauta_estabilizar_settles:
  assumes "\<forall>s. fst (count_items P s) = c"
  shows "\<exists>s'. esperar_pauta_estabilizar P s = (True, s') \<and> clock s' = clock (wait_spinners P s) + 850"
  using estab_loop_const [OF assms, of 18 "wait_spinners P s"]
  by (simp add: esperar_pauta_estabilizar_def numeral_eq_Suc)

theorem esperar_pauta_estabilizar_settles_witness:
  "\<exists>s'. esperar_pauta_estabilizar (settled_page 3) unit_start = (True, s') \<and> clock s' = 850"
  using esperar_pauta_estabilizar_settles [OF settled_page_count, of 3 unit_start]
  by (simp add: wait_spinners_def spinners_def wait_spinner_def settled_page_def inert_page_def
      run_def catch_default_def unit_start_def)

text \<open>C9: when the page rejects every \<open>count()\<close> call, \<open>.catch(() => 0)\<close> makes the
  detector certify an empty list and the mapper return no record without reading
  the list: the cell is reported as having no hearing, whatever the page shows.\<close>

theorem count_rejection_empties_cell:
  assumes "\<forall>w. isl (fst (items_count P w))"
  shows "fst (esperar_pauta_estabilizar P s) \<and> fst (extrair_processos P s) = Inr []"
proof -
  have z: "\<forall>s. fst (count_items P s) = 0" using count_items_reject [OF assms] by blast
  show ?thesis
    using estab_loop_const [OF z, of 18 "wait_spinners P s"] extrair_processos_zero [of P s] z
    by (auto simp: esperar_pauta_estabilizar_def numeral_eq_Suc)
qed

theorem count_rejection_empties_cell_witness:
  "items_read closed_count_page () = (Inr [sample_item], ()) \<and>
   fst (esperar_pauta_estabilizar closed_count_page unit_start) \<and>
   fst (extrair_processos closed_count_page unit_start) = Inr []"
  using count_rejection_empties_cell [of closed_count_page unit_start]
  by (simp add: closed_count_page_def)

text \<open>C35: every record field is normalised: no no-break space survives, the
  identifier is trimmed, and judge, claimant and respondent are the first three
  non-empty normalised description texts, by position, with \<open>''\<close> for those
  missing.\<close>

theorem map_item_normalised:
  "CHR 0xA0 \<notin> set (numero_processo (map_item it)) \<and> CHR 0xA0 \<notin> set (sessao (map_item it)) \<and>
   CHR 0xA0 \<notin> set (juiz (map_item it)) \<and> CHR 0xA0 \<notin> set (reclamante (map_item it)) \<and>
   CHR 0xA0 \<notin> set (reclamada (map_item it)) \<and>
   js_trim (numero_processo (map_item it)) = numero_processo (map_item it) \<and>
   [juiz (map_item it), reclamante (map_item it), reclamada (map_item it)] =
     take 3 (filter (\<lambda>t. t \<noteq> []) (map norm_text (it_descs it)) @ replicate 3 [])"
  using map_item_fields_no_nbsp [of it] get_text_trimmed [of "it_negrito it"]
    nth_or_empty_take [of "filter (\<lambda>t. t \<noteq> []) (map norm_text (it_descs it))"]
  by (simp add: map_item_def Let_def)

end
