(* ===== verification/Csv.thy ===== *)
theory Csv
  imports Prelude
begin

text \<open>
  The CSV export of \<open>src/PAUTA-JRT2.js\<close>: \<open>csvEscape\<close> and \<open>writeCsv\<close> (lines 9-24,
  repeated at 556-571). A row is a map from column names to values (\<open>row[h]\<close> is
  \<open>undefined\<close> for a missing key, \<open>None\<close> here). \<open>writeCsv\<close> writes the UTF-8 byte
  order mark followed by the text modelled by \<open>csv_text\<close>; the mark and the file
  write are I/O. The reading side, \<open>csv_parse\<close>, is a reference parser for the
  dialect the function writes (\<open>;\<close> between fields, \<open>\n\<close> between records,
  fields quoted with \<open>"\<close> and inner quotes doubled); the round trip says every
  header and value comes back.
\<close>

section \<open>\<open>csvEscape\<close> and \<open>writeCsv\<close>\<close>

definition dq :: char where "dq = CHR 0x22"

definition csv_special :: "char \<Rightarrow> bool" where
  \<comment> \<open>the class \<open>[;"\n\r]\<close>\<close>
  "csv_special c \<longleftrightarrow> c = CHR '';'' \<or> c = dq \<or> c = CHR 0x0A \<or> c = CHR 0x0D"

definition double_quotes :: "jstr \<Rightarrow> jstr" where
  \<comment> \<open>\<open>s.replace(/"/g, '""')\<close>\<close>
  "double_quotes s = concat (map (\<lambda>c. if c = dq then [dq, dq] else [c]) s)"

definition csv_escape :: "jstr option \<Rightarrow> jstr" where
  "csv_escape v =
     (case v of None \<Rightarrow> []
      | Some s \<Rightarrow> if list_ex csv_special s then dq # double_quotes s @ [dq] else s)"

definition csv_line :: "jstr list \<Rightarrow> (jstr \<rightharpoonup> jstr) \<Rightarrow> jstr" where
  "csv_line headers row = js_join '';'' (map (\<lambda>h. csv_escape (row h)) headers)"

definition csv_text :: "jstr list \<Rightarrow> (jstr \<rightharpoonup> jstr) list \<Rightarrow> jstr" where
  \<comment> \<open>\<open>lines.join('\n')\<close> after the header line and one line per row\<close>
  "csv_text headers rows =
     js_join [CHR 0x0A] (js_join '';'' (map (\<lambda>h. csv_escape (Some h)) headers) # map (csv_line headers) rows)"

section \<open>A reader for the dialect\<close>

fun parse_quoted :: "jstr \<Rightarrow> (jstr \<times> jstr) option" where
  \<comment> \<open>the body of a quoted field, after its opening quote, up to the closing quote\<close>
  "parse_quoted [] = None"
| "parse_quoted (c # cs) =
     (if c = dq then
        (case cs of
           d # cs' \<Rightarrow> if d = dq then map_option (apfst (Cons dq)) (parse_quoted cs') else Some ([], cs)
         | [] \<Rightarrow> Some ([], []))
      else map_option (apfst (Cons c)) (parse_quoted cs))"

definition field_end :: "char \<Rightarrow> bool" where
  "field_end c \<longleftrightarrow> c = CHR '';'' \<or> c = CHR 0x0A"

definition parse_field :: "jstr \<Rightarrow> (jstr \<times> jstr) option" where
  "parse_field s =
     (case s of
        c # cs \<Rightarrow> if c = dq then parse_quoted cs else Some (takeWhile (Not \<circ> field_end) s, dropWhile (Not \<circ> field_end) s)
      | [] \<Rightarrow> Some ([], []))"

lemma parse_quoted_length: "parse_quoted s = Some (f, r) \<Longrightarrow> length r < length s"
proof (induction s arbitrary: f rule: parse_quoted.induct)
  case 1
  then show ?case by simp
next
  case (2 c cs)
  then show ?case
    by (cases "c = dq"; cases cs) (fastforce split: if_splits)+
qed

lemma parse_field_length: "parse_field s = Some (f, r) \<Longrightarrow> length r \<le> length s"
  using length_dropWhile_le [of "Not \<circ> field_end" "tl s"]
  by (cases s) (auto simp: parse_field_def split: if_splits dest!: parse_quoted_length)

function csv_parse_from :: "jstr list \<Rightarrow> jstr \<Rightarrow> jstr list list option" where
  "csv_parse_from cur s =
     (case parse_field s of
        None \<Rightarrow> None
      | Some (f, r) \<Rightarrow>
          (case r of
             [] \<Rightarrow> Some [cur @ [f]]
           | c # r' \<Rightarrow>
               if c = CHR '';'' then csv_parse_from (cur @ [f]) r'
               else if c = CHR 0x0A then map_option (Cons (cur @ [f])) (csv_parse_from [] r')
               else None))"
  by pat_completeness auto
termination
  by (relation "measure (\<lambda>(cur, s). length s)") (auto dest!: parse_field_length)

declare csv_parse_from.simps [simp del]

definition field_tail :: "jstr \<Rightarrow> bool" where
  "field_tail rest \<longleftrightarrow> rest = [] \<or> field_end (hd rest)"

definition csv_parse :: "jstr \<Rightarrow> jstr list list option" where
  "csv_parse s = csv_parse_from [] s"

section \<open>Round trip\<close>

lemma parse_quoted_double:
  "rest = [] \<or> hd rest \<noteq> dq \<Longrightarrow> parse_quoted (double_quotes v @ dq # rest) = Some (v, rest)"
proof (induction v)
  case Nil
  then show ?case by (cases rest) (auto simp: double_quotes_def)
next
  case (Cons c v)
  then show ?case by (simp add: double_quotes_def)
qed

lemma field_end_not_dq [simp]: "field_end c \<Longrightarrow> c \<noteq> dq"
  by (auto simp: field_end_def dq_def)

lemma special_field_end: "\<not> csv_special c \<Longrightarrow> \<not> field_end c"
  by (auto simp: csv_special_def field_end_def)

lemma take_drop_field:
  "\<forall>c\<in>set v. \<not> field_end c \<Longrightarrow> field_tail rest \<Longrightarrow>
     takeWhile (Not \<circ> field_end) (v @ rest) = v \<and> dropWhile (Not \<circ> field_end) (v @ rest) = rest"
  by (cases rest) (auto simp: field_tail_def takeWhile_append2 dropWhile_append2)

lemma parse_field_plain:
  assumes "\<not> list_ex csv_special v" and "field_tail rest"
  shows "parse_field (v @ rest) = Some (v, rest)"
proof -
  have nf: "\<forall>c\<in>set v. \<not> field_end c"
    using assms(1) by (auto simp: list_ex_iff dest: special_field_end)
  note td = take_drop_field [OF nf assms(2)]
  show ?thesis
  proof (cases v)
    case Nil
    with assms(2) show ?thesis by (cases rest) (auto simp: parse_field_def field_tail_def)
  next
    case (Cons c v')
    with assms(1) have "c \<noteq> dq" by (auto simp: csv_special_def)
    with Cons td show ?thesis by (simp add: parse_field_def)
  qed
qed

lemma parse_field_escape:
  assumes "field_tail rest"
  shows "parse_field (csv_escape (Some v) @ rest) = Some (v, rest)"
proof (cases "list_ex csv_special v")
  case True
  have "rest = [] \<or> hd rest \<noteq> dq" using assms by (auto simp: field_tail_def)
  with True show ?thesis by (simp add: csv_escape_def parse_field_def parse_quoted_double)
next
  case False
  with assms show ?thesis by (simp add: csv_escape_def parse_field_plain)
qed

lemma csv_escape_None: "csv_escape None = csv_escape (Some [])"
  by (simp add: csv_escape_def)

lemma csv_parse_from_fields:
  assumes "fs \<noteq> []" and "tail = [] \<or> hd tail = CHR 0x0A"
  shows "csv_parse_from cur (js_join '';'' (map (\<lambda>v. csv_escape (Some v)) fs) @ tail) =
           (case tail of [] \<Rightarrow> Some [cur @ fs]
            | _ # more \<Rightarrow> map_option (Cons (cur @ fs)) (csv_parse_from [] more))"
  using assms(1)
proof (induction fs arbitrary: cur rule: list_nonempty_induct)
  case (single v)
  have ft: "field_tail tail" using assms(2) by (auto simp: field_tail_def field_end_def)
  show ?case
    using parse_field_escape [OF ft, of v] assms(2)
    by (cases tail) (auto simp: csv_parse_from.simps [of cur])
next
  case (cons v fs)
  have ft: "field_tail ('';'' @ js_join '';'' (map (\<lambda>v. csv_escape (Some v)) fs) @ tail)"
    by (simp add: field_tail_def field_end_def)
  from cons.hyps obtain w ws where fs: "fs = w # ws" by (cases fs) auto
  show ?case
    using parse_field_escape [OF ft, of v] cons.IH [of "cur @ [v]"]
    by (cases tail) (simp_all add: fs csv_parse_from.simps [of cur])
qed

lemma csv_parse_records:
  assumes "rows \<noteq> []" and "\<forall>r\<in>set rows. r \<noteq> []"
  shows "csv_parse_from [] (js_join [CHR 0x0A] (map (\<lambda>fs. js_join '';'' (map (\<lambda>v. csv_escape (Some v)) fs)) rows))
           = Some rows"
  using assms
proof (induction rows rule: list_nonempty_induct)
  case (single r)
  then show ?case using csv_parse_from_fields [of r "[]" "[]"] by simp
next
  case (cons r rows)
  from cons.hyps obtain r' rs where rows: "rows = r' # rs" by (cases rows) auto
  show ?case
    using cons.prems cons.IH
      csv_parse_from_fields [of r "CHR 0x0A # js_join [CHR 0x0A] (map (\<lambda>fs. js_join '';'' (map (\<lambda>v. csv_escape (Some v)) fs)) rows)" "[]"]
    by (simp add: rows)
qed

lemma csv_line_fields:
  "csv_line headers =
     (\<lambda>row. js_join '';'' (map (\<lambda>v. csv_escape (Some v)) (map (\<lambda>h. case row h of None \<Rightarrow> [] | Some v \<Rightarrow> v) headers)))"
  unfolding csv_line_def by (rule ext, rule arg_cong [where f = "js_join '';''"]) (simp add: csv_escape_def split: option.split)

text \<open>C33: what \<open>writeCsv\<close> writes after the byte order mark reads back, with the
  dialect's reader, as the header line followed by one record per row holding the
  row's value for each header in order, \<open>''\<close> for a missing one: separators,
  quotes and line breaks inside values survive the round trip.\<close>

theorem csv_text_roundtrip:
  assumes "headers \<noteq> []"
  shows "csv_parse (csv_text headers rows) =
           Some (headers # map (\<lambda>row. map (\<lambda>h. case row h of None \<Rightarrow> [] | Some v \<Rightarrow> v) headers) rows)"
  using csv_parse_records [of "headers # map (\<lambda>row. map (\<lambda>h. case row h of None \<Rightarrow> [] | Some v \<Rightarrow> v) headers) rows"] assms
  by (simp add: csv_parse_def csv_text_def csv_line_fields comp_def)

theorem csv_text_roundtrip_witness:
  \<open>csv_parse (csv_text [''numeroProcesso'', ''sessao''] [[''numeroProcesso'' \<mapsto> ''1;2'', ''sessao'' \<mapsto> ''09:00 - "A"'']]) =
     Some [[''numeroProcesso'', ''sessao''], [''1;2'', ''09:00 - "A"'']]\<close>
  using csv_text_roundtrip [of \<open>[''numeroProcesso'', ''sessao'']\<close> \<open>[[''numeroProcesso'' \<mapsto> ''1;2'', ''sessao'' \<mapsto> ''09:00 - "A"'']]\<close>]
  by simp

end
