(* ===== verification/Calendar.thy ===== *)
theory Calendar
  imports Dates Session
begin

text \<open>
  The calendar-grid date navigator of the first variant of \<open>src/PAUTA-JRT2.js\<close>
  (lines 231-382): \<open>sameMonthYear\<close>, the header reader
  \<open>getCalendarHeaderDateApprox\<close>, the month walk \<open>navegarParaMes\<close>, the day
  click \<open>clicarDiaNoCalendario\<close> with its three tiers, \<open>selecionarDataNoCalendario\<close>
  and the confirmation loop \<open>selecionarDataComConfirmacao\<close>. Awaits without a
  \<open>catch\<close> are chained with \<open>then_o\<close>, so a rejection leaves the function as an
  \<open>Inl\<close>. The script of \<open>clicarDiaNoCalendario\<close> runs inside the page in one
  \<open>page.evaluate\<close>: it reads the cells of the month grid (\<open>calendar_cells\<close>),
  picks one by the three tiers (\<open>pick_day_cell\<close>, a function of the cells) and
  clicks it (\<open>cell_click\<close>).
\<close>

section \<open>\<open>getCalendarHeaderDateApprox\<close>\<close>

fun find_year :: "jstr \<Rightarrow> nat option" where
  \<comment> \<open>\<open>header.match(/(19|20)\d{2}/)\<close>, the leftmost match, read by \<open>Number\<close>\<close>
  "find_year [] = None"
| "find_year (c # cs) =
     (let w = take 4 (c # cs)
      in if length w = 4 \<and> (take 2 w = ''19'' \<or> take 2 w = ''20'') \<and> js_is_digit (w ! 2) \<and> js_is_digit (w ! 3)
         then js_number w else find_year cs)"

definition month_map :: "(nat \<times> jstr list) list" where
  "month_map =
     [(0, [''jan'', ''janeiro'', ''january'']),
      (1, [''fev'', ''fevereiro'', ''feb'', ''february'']),
      (2, [''mar'', ''mar'' @ [CHR 0xE7] @ ''o'', ''marco'', ''march'']),
      (3, [''abr'', ''abril'', ''apr'', ''april'']),
      (4, [''mai'', ''maio'', ''may'']),
      (5, [''jun'', ''junho'', ''june'']),
      (6, [''jul'', ''julho'', ''july'']),
      (7, [''ago'', ''agosto'', ''aug'', ''august'']),
      (8, [''set'', ''setembro'', ''sep'', ''september'']),
      (9, [''out'', ''outubro'', ''oct'', ''october'']),
      (10, [''nov'', ''novembro'', ''november'']),
      (11, [''dez'', ''dezembro'', ''dec'', ''december''])]"

definition header_month :: "jstr \<Rightarrow> nat option" where
  \<comment> \<open>\<open>monthMap.find(m => m.keys.some(k => header.includes(k)))\<close>\<close>
  "header_month header = map_option fst (find (\<lambda>(idx, keys). list_ex (js_includes header) keys) month_map)"

definition parse_header :: "jstr \<Rightarrow> int option" where
  "parse_header raw =
     (let header = js_lower (js_trim raw)
      in case find_year header of
           None \<Rightarrow> None
         | Some year \<Rightarrow>
             (case header_month header of
                None \<Rightarrow> None
              | Some idx \<Rightarrow> Some (js_new_date (int year) (int idx) 1)))"

definition get_calendar_header_date_approx :: "'w page \<Rightarrow> 'w sess \<Rightarrow> int option \<times> 'w sess" where
  \<comment> \<open>\<open>(await periodBtn.textContent().catch(() => '')) || ''\<close>\<close>
  "get_calendar_header_date_approx P s =
     (let (r, s1) = run (period_text P) s
      in (parse_header (case r of Inr (Some t) \<Rightarrow> t | _ \<Rightarrow> []), s1))"

section \<open>\<open>navegarParaMes\<close>\<close>

definition same_month_year :: "int \<Rightarrow> int option \<Rightarrow> bool" where
  \<comment> \<open>\<open>sameMonthYear(approx, targetDate)\<close>; an Invalid Date compares unequal\<close>
  "same_month_year a b =
     (case b of None \<Rightarrow> False
      | Some t \<Rightarrow> year_from_day a = year_from_day t \<and> month_from_day a = month_from_day t)"

definition month_key :: "int \<Rightarrow> int" where
  "month_key t = year_from_day t * 12 + month_from_day t"

definition key_gt :: "int option \<Rightarrow> int \<Rightarrow> bool" where
  \<comment> \<open>\<open>tgtKey > curKey\<close>: false when the target is an Invalid Date (NaN)\<close>
  "key_gt tgt a = (case tgt of None \<Rightarrow> False | Some t \<Rightarrow> month_key a < month_key t)"

fun nav_mes_loop :: "'w page \<Rightarrow> int option \<Rightarrow> nat \<Rightarrow> 'w sess \<Rightarrow> bool outcome \<times> 'w sess" where
  \<comment> \<open>\<open>for (let i = 0; i < maxSteps; i++)\<close>, counting the steps left\<close>
  "nav_mes_loop P tgt 0 s = (Inr False, s)"
| "nav_mes_loop P tgt (Suc n) s =
     (let (approx, s1) = get_calendar_header_date_approx P s
      in case approx of
           None \<Rightarrow> nav_mes_loop P tgt n (sleep P 120 (snd (run (cal_click P Next) s1)))
         | Some a \<Rightarrow>
             if same_month_year a tgt then (Inr True, s1)
             else
               (case run (cal_click P (if key_gt tgt a then Next else Prev)) s1 of
                  (Inl e, s2) \<Rightarrow> (Inl e, s2)
                | (Inr _, s2) \<Rightarrow> nav_mes_loop P tgt n (sleep P 120 s2)))"

definition navegar_para_mes :: "'w page \<Rightarrow> int option \<Rightarrow> nat \<Rightarrow> 'w sess \<Rightarrow> bool outcome \<times> 'w sess" where
  "navegar_para_mes P tgt max_steps s = nav_mes_loop P tgt max_steps s"

section \<open>\<open>clicarDiaNoCalendario\<close>\<close>

fun first_index :: "('a \<Rightarrow> bool) \<Rightarrow> 'a list \<Rightarrow> nat option" where
  "first_index p [] = None"
| "first_index p (x # xs) = (if p x then Some 0 else map_option Suc (first_index p xs))"

definition js_date_str :: "(int \<Rightarrow> int) \<Rightarrow> int option \<Rightarrow> jstr" where
  \<comment> \<open>\<open>String(targetDate.getDate())\<close> and the like: \<open>'NaN'\<close> for an Invalid Date\<close>
  "js_date_str f tgt = (case tgt of None \<Rightarrow> ''NaN'' | Some t \<Rightarrow> js_int_str (f t))"

definition tier_td_aria :: "jstr \<Rightarrow> jstr \<Rightarrow> cal_cell \<Rightarrow> bool" where
  \<comment> \<open>1) a \<open>td\<close> with an aria-label naming the year and the day's text\<close>
  "tier_td_aria day_s year_s c =
     (case td_aria c of None \<Rightarrow> False
      | Some a \<Rightarrow> js_includes (js_trim a) year_s \<and> js_trim (td_text c) = day_s)"

definition tier_btn_aria :: "jstr \<Rightarrow> jstr \<Rightarrow> cal_cell \<Rightarrow> bool" where
  \<comment> \<open>2) a \<open>button\<close> with an aria-label naming the year and the day's text\<close>
  "tier_btn_aria day_s year_s c =
     (case cell_btn c of Some (Some a, t) \<Rightarrow> js_includes (js_trim a) year_s \<and> js_trim t = day_s
      | _ \<Rightarrow> False)"

definition tier_text :: "jstr \<Rightarrow> cal_cell \<Rightarrow> bool" where
  \<comment> \<open>3) any enabled cell whose text is the day\<close>
  "tier_text day_s c \<longleftrightarrow> \<not> cell_disabled c \<and> js_trim (td_text c) = day_s"

definition pick_day_cell :: "jstr \<Rightarrow> jstr \<Rightarrow> cal_cell list \<Rightarrow> nat option" where
  "pick_day_cell day_s year_s cells =
     (case first_index (tier_td_aria day_s year_s) cells of
        Some i \<Rightarrow> Some i
      | None \<Rightarrow>
          (case first_index (tier_btn_aria day_s year_s) cells of
             Some i \<Rightarrow> Some i
           | None \<Rightarrow> first_index (tier_text day_s) cells))"

definition clicar_dia_no_calendario :: "'w page \<Rightarrow> int option \<Rightarrow> 'w sess \<Rightarrow> bool outcome \<times> 'w sess" where
  "clicar_dia_no_calendario P tgt s =
     (case run (calendar_cells P) s of
        (Inl e, s1) \<Rightarrow> (Inl e, s1)
      | (Inr None, s1) \<Rightarrow> (Inr False, s1)
      | (Inr (Some cells), s1) \<Rightarrow>
          (case pick_day_cell (js_date_str date_from_day tgt) (js_date_str year_from_day tgt) cells of
             None \<Rightarrow> (Inr False, s1)
           | Some i \<Rightarrow> (Inr True, s1\<lparr>world := cell_click P i (world s1)\<rparr>)))"

section \<open>\<open>selecionarDataNoCalendario\<close> and its confirmation loop\<close>

definition selecionar_data_no_calendario :: "'w page \<Rightarrow> jstr \<Rightarrow> 'w sess \<Rightarrow> bool outcome \<times> 'w sess" where
  "selecionar_data_no_calendario P data_br s0 =
     (let s1 = fechar_overlays P s0;
          target = parse_br data_br
      in then_o (run (date_button_visible P) s1) (\<lambda>_ s2.
         then_o (run (date_button_click P) s2) (\<lambda>_ s3.
         then_o (run (calendar_wait P) s3) (\<lambda>_ s4.
         then_o (navegar_para_mes P target 36 s4) (\<lambda>ok_mes s5.
         then_o (clicar_dia_no_calendario P target s5) (\<lambda>ok_dia s6.
           (Inr ok_dia, fechar_overlays P (sleep P 250 s6))))))))"

fun sel_data_cal_loop :: "'w page \<Rightarrow> jstr \<Rightarrow> nat \<Rightarrow> 'w sess \<Rightarrow> bool outcome \<times> 'w sess" where
  "sel_data_cal_loop P data_br 0 s = (Inr False, s)"
| "sel_data_cal_loop P data_br (Suc n) s =
     (case selecionar_data_no_calendario P data_br s of
        (Inl e, s1) \<Rightarrow> (Inl e, s1)
      | (Inr ok_clique, s1) \<Rightarrow>
          if \<not> ok_clique then sel_data_cal_loop P data_br n (sleep P 500 s1)
          else
            (let (r, s2) = run (date_button_text P) s1;
                 data_visivel = js_trim (catch_default [] r)
             in if data_visivel = data_br then (Inr True, s2)
                else sel_data_cal_loop P data_br n (sleep P 700 s2)))"

definition selecionar_data_calendario :: "'w page \<Rightarrow> jstr \<Rightarrow> nat \<Rightarrow> 'w sess \<Rightarrow> bool outcome \<times> 'w sess" where
  "selecionar_data_calendario P data_br max_tentativas s = sel_data_cal_loop P data_br max_tentativas s"

section \<open>Example pickers\<close>

definition month_label :: "nat \<Rightarrow> jstr" where
  "month_label m = [''JAN'', ''FEV'', ''MAR'', ''ABR'', ''MAI'', ''JUN'', ''JUL'', ''AGO'', ''SET'', ''OUT'', ''NOV'', ''DEZ''] ! m"

record cal_ui =
  shown_key :: int
  cal_clicks :: "nav_button list"

definition cal_header :: "int \<Rightarrow> jstr" where
  "cal_header k = month_label (nat (k mod 12)) @ CHR '' '' # js_nat_str (nat (k div 12))"

definition calendar_page :: "cal_ui page" where
  "calendar_page = inert_page\<lparr>
     period_text := (\<lambda>w. (Inr (Some (cal_header (shown_key w))), w)),
     cal_click := (\<lambda>b w. (Inr (), w\<lparr>shown_key := shown_key w + (if b = Next then 1 else -1),
                                   cal_clicks := cal_clicks w @ [b]\<rparr>))\<rparr>"

definition valid_key :: "int \<Rightarrow> bool" where
  "valid_key k \<longleftrightarrow> 1900 * 12 \<le> k \<and> k \<le> 2099 * 12 + 11"

definition cal_start :: "int \<Rightarrow> cal_ui sess" where
  "cal_start k = \<lparr>world = \<lparr>shown_key = k, cal_clicks = []\<rparr>, clock = 0\<rparr>"

definition march_2026 :: int where
  "march_2026 = js_new_date 2026 2 1"

definition picker_absent_page :: "unit page" where
  "picker_absent_page = inert_page\<lparr>date_button_visible := (\<lambda>w. (Inl (JsError ''Timeout 20000ms exceeded''), w))\<rparr>"

definition day_cell :: "int \<Rightarrow> cal_cell" where
  "day_cell t = \<lparr>td_aria = None, td_text = js_int_str (date_from_day t), cell_btn = None, cell_disabled = False\<rparr>"

definition confirm_page :: "unit page" where
  \<comment> \<open>a picker whose header cannot be read, whose grid holds the target's day and whose
      button then shows the target\<close>
  "confirm_page = inert_page\<lparr>calendar_cells := (\<lambda>w. (Inr (Some [day_cell 20517]), w)),
     date_button_text := (\<lambda>w. (Inr ''05/03/2026'', w))\<rparr>"

section \<open>Header, month keys and the month walk\<close>

lemma find_year_skip: "\<not> js_is_digit c \<Longrightarrow> find_year (c # cs) = find_year cs"
  by (auto simp: Let_def js_is_digit_def)

lemma find_year_nat_str:
  assumes "1900 \<le> y" and "y \<le> 2099"
  shows "find_year (js_nat_str y) = Some y"
proof -
  have lo: "19 \<le> y div 100" using div_le_mono [of 1900 y 100] assms(1) by simp
  have hi: "y div 100 \<le> 20" using div_le_mono [of y 2099 100] assms(2) by simp
  have k: "y div 1000 = y div 100 div 10" by (simp add: div_mult2_eq [symmetric])
  have pre: "take 2 (js_nat_str y) = ''19'' \<or> take 2 (js_nat_str y) = ''20''"
  proof (cases "y div 100 = 19")
    case True
    then show ?thesis using assms by (simp add: js_nat_str_4 k digit_char_of)
  next
    case False
    with lo hi have "y div 100 = 20" by simp
    then show ?thesis using assms by (simp add: js_nat_str_4 k digit_char_of)
  qed
  have dg: "list_all js_is_digit (js_nat_str y)" using js_nat_str_digits [of y] by simp
  obtain a b c d where e: "js_nat_str y = [a, b, c, d]" using assms by (simp add: js_nat_str_4)
  show ?thesis using pre dg js_number_nat_str [of y] by (simp add: e)
qed

lemma month_keys_ok:
  "\<forall>(i, ks) \<in> set month_map. \<forall>k \<in> set ks. k \<noteq> [] \<and> list_all (\<lambda>c. c \<noteq> CHR '' '' \<and> \<not> js_is_digit c) k"
  unfolding month_map_def js_is_digit_def by simp

lemma header_month_digits:
  assumes "list_all js_is_digit ds"
  shows "header_month (a @ CHR '' '' # ds) = header_month a"
proof -
  have inc: "js_includes (a @ CHR '' '' # ds) k = js_includes a k"
    if "(i, ks) \<in> set month_map" "k \<in> set ks" for i ks k
  proof -
    have "k \<noteq> []" "list_all (\<lambda>c. c \<noteq> CHR '' '' \<and> \<not> js_is_digit c) k"
      using bspec [OF month_keys_ok that(1)] that(2) by simp_all
    with assms have "set k \<inter> set (CHR '' '' # ds) = {}" by (auto simp: list_all_iff)
    with \<open>k \<noteq> []\<close> show ?thesis by (simp add: js_includes_def sublist_before_sep)
  qed
  have "(\<lambda>(idx, keys). list_ex (js_includes (a @ CHR '' '' # ds)) keys) x =
        (\<lambda>(idx, keys). list_ex (js_includes a) keys) x" if "x \<in> set month_map" for x
  proof -
    obtain i ks where x: "x = (i, ks)" by fastforce
    have "list_ex (js_includes (a @ CHR '' '' # ds)) ks = list_ex (js_includes a) ks"
      by (rule list_ex_cong) (use inc that x in auto)
    then show ?thesis by (simp add: x)
  qed
  then show ?thesis unfolding header_month_def by (metis find_cong_set)
qed

lemma month_labels_ok:
  "\<forall>m \<in> set [0..<12]. month_label m \<noteq> [] \<and> \<not> js_is_space (hd (month_label m)) \<and>
     list_all (\<lambda>c. \<not> js_is_digit c) (js_lower (month_label m)) \<and>
     header_month (js_lower (month_label m)) = Some m"
  by code_simp

lemma find_year_prefix: "list_all (\<lambda>c. \<not> js_is_digit c) a \<Longrightarrow> find_year (a @ b) = find_year b"
  by (induction a) (simp_all add: find_year_skip del: find_year.simps(2))

lemma parse_header_label:
  assumes "m < 12" and "1900 \<le> y" and "y \<le> 2099"
  shows "parse_header (month_label m @ CHR '' '' # js_nat_str y) = Some (js_new_date (int y) (int m) 1)"
proof -
  have lab: "month_label m \<noteq> []" "\<not> js_is_space (hd (month_label m))"
    "list_all (\<lambda>c. \<not> js_is_digit c) (js_lower (month_label m))"
    "header_month (js_lower (month_label m)) = Some m"
    using month_labels_ok assms(1) by simp_all
  have dg: "list_all js_is_digit (js_nat_str y)" "js_nat_str y \<noteq> []" using js_nat_str_digits [of y] by simp_all
  then have "\<not> js_is_space (last (js_nat_str y))" by (simp add: list_all_iff)
  then have tr: "js_trim (month_label m @ CHR '' '' # js_nat_str y) = month_label m @ CHR '' '' # js_nat_str y"
    using lab(1,2) dg(2) by (intro js_trim_ends) simp_all
  have lw: "js_lower (month_label m @ CHR '' '' # js_nat_str y) = js_lower (month_label m) @ CHR '' '' # js_nat_str y"
    using js_lower_digits [OF dg(1)] by (simp add: js_lower_def js_lower_space)
  have fy: "find_year (js_lower (month_label m) @ CHR '' '' # js_nat_str y) = Some y"
    using find_year_prefix [OF lab(3), of "CHR '' '' # js_nat_str y"] find_year_nat_str [OF assms(2,3)]
    by (simp add: js_is_digit_def)
  have hm: "header_month (js_lower (month_label m) @ CHR '' '' # js_nat_str y) = Some m"
    using header_month_digits [OF dg(1)] lab(4) by simp
  show ?thesis by (simp add: parse_header_def tr lw fy hm)
qed

lemma month_key_new_date:
  assumes "0 \<le> m" and "m < 12" and "100 \<le> y"
  shows "month_key (js_new_date y m 1) = y * 12 + m"
  using make_day_first_parts [OF assms(1,2), of y] assms(3) by (simp add: js_new_date_def month_key_def)

lemma cal_header_month_key:
  assumes "valid_key k"
  shows "\<exists>a. parse_header (cal_header k) = Some a \<and> month_key a = k"
proof -
  have m: "nat (k mod 12) < 12" and y1: "1900 \<le> nat (k div 12)" and y2: "nat (k div 12) \<le> 2099"
    using assms by (auto simp: valid_key_def)
  have kd: "0 \<le> k div 12" "100 \<le> k div 12" using assms by (auto simp: valid_key_def)
  have "month_key (js_new_date (k div 12) (k mod 12) 1) = k"
    using month_key_new_date [of "k mod 12" "k div 12"] kd by simp
  then have "month_key (js_new_date (int (nat (k div 12))) (int (nat (k mod 12))) 1) = k"
    using kd by simp
  then show ?thesis using parse_header_label [OF m y1 y2] by (simp add: cal_header_def)
qed

lemma same_month_year_key:
  "same_month_year a (Some t) \<longleftrightarrow> month_key a = month_key t"
proof
  assume "month_key a = month_key t"
  moreover have "0 \<le> month_from_day a" "month_from_day a \<le> 11" "0 \<le> month_from_day t" "month_from_day t \<le> 11"
    using month_from_day_range [of a] month_from_day_range [of t] by simp_all
  ultimately have "year_from_day a = year_from_day t" unfolding month_key_def by presburger
  with \<open>month_key a = month_key t\<close> show "same_month_year a (Some t)"
    unfolding month_key_def same_month_year_def by simp
qed (simp add: same_month_year_def month_key_def)

lemma calendar_read:
  assumes "valid_key (shown_key (world s))"
  shows "\<exists>a. get_calendar_header_date_approx calendar_page s = (Some a, s) \<and> month_key a = shown_key (world s)"
  using cal_header_month_key [OF assms]
  by (auto simp: get_calendar_header_date_approx_def calendar_page_def run_def)

lemma calendar_click:
  "run (cal_click calendar_page b) s =
     (Inr (), s\<lparr>world := world s\<lparr>shown_key := shown_key (world s) + (if b = Next then 1 else -1),
                                   cal_clicks := cal_clicks (world s) @ [b]\<rparr>\<rparr>)"
  by (simp add: calendar_page_def run_def)

lemma calendar_sleep: "sleep calendar_page ms s = s\<lparr>clock := clock s + ms\<rparr>"
  by (simp add: sleep_def calendar_page_def inert_page_def)

lemma valid_key_between: "valid_key a \<Longrightarrow> valid_key b \<Longrightarrow> min a b \<le> c \<Longrightarrow> c \<le> max a b \<Longrightarrow> valid_key c"
  by (auto simp: valid_key_def)

lemma calendar_nav:
  assumes "valid_key (shown_key (world s))" and "valid_key (month_key t)"
    and "nat \<bar>month_key t - shown_key (world s)\<bar> \<le> n"
  shows "\<exists>s'. nav_mes_loop calendar_page (Some t) n s = (Inr (nat \<bar>month_key t - shown_key (world s)\<bar> < n), s') \<and>
           shown_key (world s') = month_key t \<and>
           cal_clicks (world s') = cal_clicks (world s) @
             replicate (nat \<bar>month_key t - shown_key (world s)\<bar>) (if shown_key (world s) < month_key t then Next else Prev)"
  using assms
proof (induction n arbitrary: s)
  case 0
  then show ?case by simp
next
  case (Suc n)
  define c where "c = shown_key (world s)"
  define tk where "tk = month_key t"
  obtain a where rd: "get_calendar_header_date_approx calendar_page s = (Some a, s)" and ka: "month_key a = c"
    using calendar_read [OF Suc.prems(1)] c_def by blast
  show ?case
  proof (cases "c = tk")
    case True
    then have "same_month_year a (Some t)" using ka by (simp add: same_month_year_key tk_def)
    with rd True show ?thesis by (simp add: c_def tk_def)
  next
    case False
    then have ns: "\<not> same_month_year a (Some t)" using ka by (simp add: same_month_year_key tk_def)
    define dir where "dir = (if c < tk then Next else Prev)"
    have kg: "key_gt (Some t) a \<longleftrightarrow> c < tk" by (simp add: key_gt_def ka tk_def)
    define s2 where "s2 = (s\<lparr>world := world s\<lparr>shown_key := c + (if dir = Next then 1 else -1),
                                   cal_clicks := cal_clicks (world s) @ [dir]\<rparr>\<rparr>)\<lparr>clock := clock s + 120\<rparr>"
    have step: "nav_mes_loop calendar_page (Some t) (Suc n) s = nav_mes_loop calendar_page (Some t) n s2"
      using rd ns kg by (simp add: calendar_click calendar_sleep s2_def dir_def c_def)
    have c2: "shown_key (world s2) = c + (if c < tk then 1 else -1)" by (simp add: s2_def dir_def)
    have v2: "valid_key (shown_key (world s2))"
      using valid_key_between [OF Suc.prems(1) Suc.prems(2), of "shown_key (world s2)"] c2 False
      by (simp add: c_def tk_def)
    have d2: "nat \<bar>tk - shown_key (world s2)\<bar> = nat \<bar>tk - c\<bar> - 1" using c2 False by simp arith
    have dn: "nat \<bar>tk - shown_key (world s2)\<bar> \<le> n" using d2 Suc.prems(3) by (simp add: c_def tk_def) arith
    obtain s' where ih: "nav_mes_loop calendar_page (Some t) n s2 = (Inr (nat \<bar>tk - shown_key (world s2)\<bar> < n), s')"
      "shown_key (world s') = tk"
      "cal_clicks (world s') = cal_clicks (world s2) @
         replicate (nat \<bar>tk - shown_key (world s2)\<bar>) (if shown_key (world s2) < tk then Next else Prev)"
      using Suc.IH [OF v2 Suc.prems(2)] dn tk_def by blast
    have pos: "0 < nat \<bar>tk - c\<bar>" using False by simp
    have same: "nat \<bar>tk - shown_key (world s2)\<bar> = 0 \<or> (shown_key (world s2) < tk \<longleftrightarrow> c < tk)"
      using c2 False by auto
    have sd: "nat \<bar>tk - c\<bar> = Suc (nat \<bar>tk - shown_key (world s2)\<bar>)" using d2 pos by simp
    have rep: "[dir] @ replicate (nat \<bar>tk - shown_key (world s2)\<bar>) (if shown_key (world s2) < tk then Next else Prev)
               = replicate (nat \<bar>tk - c\<bar>) dir"
    proof (cases "nat \<bar>tk - shown_key (world s2)\<bar> = 0")
      case True
      from sd True have one: "nat \<bar>tk - c\<bar> = Suc 0" by (simp only:)
      show ?thesis by (simp only: True one) simp
    next
      case f: False
      with same have "(if shown_key (world s2) < tk then Next else Prev) = dir" by (simp add: dir_def)
      then show ?thesis by (simp add: sd replicate_append_same)
    qed
    have "(nat \<bar>tk - shown_key (world s2)\<bar> < n) = (nat \<bar>tk - c\<bar> < Suc n)" using sd by simp
    with step ih(1) have r: "nav_mes_loop calendar_page (Some t) (Suc n) s = (Inr (nat \<bar>tk - c\<bar> < Suc n), s')"
      by simp
    have cl: "cal_clicks (world s') = cal_clicks (world s) @ replicate (nat \<bar>tk - c\<bar>) dir"
      using ih(3) rep by (simp add: s2_def)
    show ?thesis using r ih(2) cl unfolding c_def tk_def dir_def by simp
  qed
qed

lemma sel_data_cal_loop_true:
  "sel_data_cal_loop P d n s = (Inr True, s') \<Longrightarrow>
     \<exists>s0 r. run (date_button_text P) s0 = (r, s') \<and> js_trim (catch_default [] r) = d"
proof (induction P d n s rule: sel_data_cal_loop.induct)
  case (1 P d s)
  then show ?case by simp
next
  case (2 P d n s)
  obtain r1 s1 where sel: "selecionar_data_no_calendario P d s = (r1, s1)" by fastforce
  show ?case
  proof (cases r1)
    case (Inl e)
    with sel "2.prems" show ?thesis by simp
  next
    case (Inr ok)
    show ?thesis
    proof (cases ok)
      case False
      with sel Inr "2.prems" have "sel_data_cal_loop P d n (sleep P 500 s1) = (Inr True, s')" by simp
      then show ?thesis using "2.IH"(1) [OF sel [symmetric]] Inr False by blast
    next
      case True
      obtain r s2 where rd: "run (date_button_text P) s1 = (r, s2)" by fastforce
      show ?thesis
      proof (cases "js_trim (catch_default [] r) = d")
        case True
        with sel Inr \<open>ok\<close> rd "2.prems" show ?thesis by auto
      next
        case False
        with sel Inr \<open>ok\<close> rd "2.prems" have "sel_data_cal_loop P d n (sleep P 700 s2) = (Inr True, s')"
          by simp
        then show ?thesis
          using "2.IH"(2) [OF sel [symmetric]] Inr \<open>ok\<close> rd [symmetric] False by blast
      qed
    qed
  qed
qed

lemma selecionar_no_calendario_reject:
  "\<forall>w. isl (fst (date_button_visible P w)) \<Longrightarrow> isl (fst (selecionar_data_no_calendario P d s))"
proof -
  assume a: "\<forall>w. isl (fst (date_button_visible P w))"
  define s1 where "s1 = fechar_overlays P s"
  from a obtain e where "fst (date_button_visible P (world s1)) = Inl e" by (metis isl_def)
  then show ?thesis
    by (simp add: selecionar_data_no_calendario_def then_o_def run_def s1_def [symmetric] Let_def)
qed

lemma month_key_march_2026: "month_key march_2026 = 24314"
  using month_key_new_date [of 2 2026] by (simp add: march_2026_def)

lemma parse_br_20517: "parse_br ''05/03/2026'' = Some 20517"
  by code_simp

lemma nav_unreadable:
  assumes "\<forall>w. period_text P w = (Inr None, w)" and "\<forall>w. cal_click P Next w = (Inr (), w)"
    and "\<forall>w ms. elapse P ms w = w"
  shows "nav_mes_loop P tgt n s = (Inr False, s\<lparr>clock := clock s + 120 * n\<rparr>)"
  using assms
  by (induction n arbitrary: s)
     (simp_all add: get_calendar_header_date_approx_def run_def parse_header_def sleep_def Let_def
        js_trim_def js_lower_def)

lemma confirm_page_selects:
  "\<exists>s'. selecionar_data_calendario confirm_page ''05/03/2026'' 1 \<lparr>world = (), clock = 0\<rparr> = (Inr True, s')"
proof -
  have nav: "nav_mes_loop confirm_page tgt n s = (Inr False, s\<lparr>clock := clock s + 120 * n\<rparr>)" for tgt n s
    by (rule nav_unreadable) (simp_all add: confirm_page_def inert_page_def)
  have tr: "js_trim (js_int_str (date_from_day 20517)) = js_int_str (date_from_day 20517)"
    using date_from_day_pos [of 20517] by (simp add: js_trim_int_str_pos)
  have pg: "kb_escape confirm_page = (\<lambda>w. (Inr (), w))" "backdrop_visible confirm_page = (\<lambda>w. (Inr False, w))"
    "backdrop_detached confirm_page = (\<lambda>w. (Inr (), w))" "elapse confirm_page = (\<lambda>_ w. w)"
    "date_button_visible confirm_page = (\<lambda>w. (Inr (), w))" "date_button_click confirm_page = (\<lambda>w. (Inr (), w))"
    "calendar_wait confirm_page = (\<lambda>w. (Inr (), w))" "cell_click confirm_page = (\<lambda>_ w. w)"
    "calendar_cells confirm_page = (\<lambda>w. (Inr (Some [day_cell 20517]), w))"
    "date_button_text confirm_page = (\<lambda>w. (Inr ''05/03/2026'', w))"
    by (simp_all add: confirm_page_def inert_page_def)
  have ts: "js_trim ''05/03/2026'' = ''05/03/2026''" by (simp add: js_trim_def js_is_space_def)
  show ?thesis
    by (simp add: selecionar_data_calendario_def selecionar_data_no_calendario_def then_o_def navegar_para_mes_def
        nav parse_br_20517 clicar_dia_no_calendario_def pick_day_cell_def tier_td_aria_def tier_btn_aria_def
        tier_text_def js_date_str_def day_cell_def tr run_def fechar_overlays_def sleep_def catch_default_def
        pg ts Let_def)
qed

section \<open>Properties\<close>

text \<open>C6: on a month picker whose header reads the month's abbreviation in capitals and
  the year, and whose next and previous buttons move one month, \<open>navegarParaMes\<close>
  with its 36 steps reaches every target month fewer than 36 months away (years 1900
  to 2099), clicking exactly as many times as there are months between, all towards
  the target: the month-key comparison never overshoots.\<close>

theorem navegar_para_mes_reaches_month:
  assumes "valid_key (shown_key (world s))" and "valid_key (month_key t)"
    and "nat \<bar>month_key t - shown_key (world s)\<bar> < 36"
  shows "\<exists>s'. navegar_para_mes calendar_page (Some t) 36 s = (Inr True, s') \<and>
           shown_key (world s') = month_key t \<and>
           cal_clicks (world s') = cal_clicks (world s) @
             replicate (nat \<bar>month_key t - shown_key (world s)\<bar>) (if shown_key (world s) < month_key t then Next else Prev)"
proof -
  have "nat \<bar>month_key t - shown_key (world s)\<bar> \<le> 36" using assms(3) by simp
  from calendar_nav [OF assms(1,2) this] obtain s' where
    r: "nav_mes_loop calendar_page (Some t) 36 s = (Inr (nat \<bar>month_key t - shown_key (world s)\<bar> < 36), s')"
    and k: "shown_key (world s') = month_key t"
    and c: "cal_clicks (world s') = cal_clicks (world s) @
             replicate (nat \<bar>month_key t - shown_key (world s)\<bar>) (if shown_key (world s) < month_key t then Next else Prev)"
    by blast
  show ?thesis unfolding navegar_para_mes_def using r k c assms(3) by (intro exI [of _ s']) simp
qed

theorem navegar_para_mes_reaches_month_witness:
  "\<exists>s'. navegar_para_mes calendar_page (Some march_2026) 36 (cal_start 24312) = (Inr True, s') \<and>
     shown_key (world s') = 24314 \<and> cal_clicks (world s') = [Next, Next]"
  using navegar_para_mes_reaches_month [of "cal_start 24312" march_2026]
  by (simp add: cal_start_def month_key_march_2026 valid_key_def numeral_2_eq_2)

text \<open>C11: when the target month is exactly 36 months away, the 36th click brings it on
  display but the loop ends without reading the header again, so
  \<open>navegarParaMes\<close> reports failure with the target month shown.\<close>

theorem navegar_para_mes_last_step_lost:
  assumes "valid_key (shown_key (world s))" and "valid_key (month_key t)"
    and "nat \<bar>month_key t - shown_key (world s)\<bar> = 36"
  shows "\<exists>s'. navegar_para_mes calendar_page (Some t) 36 s = (Inr False, s') \<and> shown_key (world s') = month_key t"
proof -
  have "nat \<bar>month_key t - shown_key (world s)\<bar> \<le> 36" using assms(3) by simp
  from calendar_nav [OF assms(1,2) this] obtain s' where
    r: "nav_mes_loop calendar_page (Some t) 36 s = (Inr (nat \<bar>month_key t - shown_key (world s)\<bar> < 36), s')"
    and k: "shown_key (world s') = month_key t"
    by blast
  show ?thesis unfolding navegar_para_mes_def using r k assms(3) by (intro exI [of _ s']) simp
qed

theorem navegar_para_mes_last_step_lost_witness:
  "\<exists>s'. navegar_para_mes calendar_page (Some march_2026) 36 (cal_start 24278) = (Inr False, s') \<and>
     shown_key (world s') = 24314"
  using navegar_para_mes_last_step_lost [of "cal_start 24278" march_2026]
  by (simp add: cal_start_def month_key_march_2026 valid_key_def)

text \<open>C10: when the date button never becomes visible, the calendar variant's
  \<open>selecionarDataComConfirmacao\<close> rejects, because the \<open>waitFor\<close> in
  \<open>selecionarDataNoCalendario\<close> is not caught, instead of reporting failure.\<close>

theorem selecionar_data_calendario_picker_absent:
  assumes "\<forall>w. isl (fst (date_button_visible P w))"
  shows "isl (fst (selecionar_data_calendario P data_br (Suc n) s))"
proof -
  obtain r s1 where sel: "selecionar_data_no_calendario P data_br s = (r, s1)" by fastforce
  with selecionar_no_calendario_reject [OF assms, of data_br s] obtain e where "r = Inl e"
    by (cases r) auto
  with sel show ?thesis by (simp add: selecionar_data_calendario_def)
qed

theorem selecionar_data_calendario_picker_absent_witness:
  "isl (fst (selecionar_data_calendario picker_absent_page ''05/03/2026'' 3 \<lparr>world = (), clock = 0\<rparr>))"
  using selecionar_data_calendario_picker_absent [of picker_absent_page "''05/03/2026''" 2 "\<lparr>world = (), clock = 0\<rparr>"]
  by (simp add: picker_absent_page_def numeral_3_eq_3)

text \<open>C5: a success of the calendar variant's \<open>selecionarDataComConfirmacao\<close> rests
  on a read of the date button whose trimmed text equals the target string exactly:
  no false positive, whatever the page does.\<close>

theorem selecionar_data_calendario_confirmed:
  assumes "selecionar_data_calendario P data_br n s = (Inr True, s')"
  shows "\<exists>s0 r. run (date_button_text P) s0 = (r, s') \<and> js_trim (catch_default [] r) = data_br"
  using assms unfolding selecionar_data_calendario_def by (rule sel_data_cal_loop_true)

theorem selecionar_data_calendario_confirmed_witness:
  "\<exists>s'. selecionar_data_calendario confirm_page ''05/03/2026'' 1 \<lparr>world = (), clock = 0\<rparr> = (Inr True, s') \<and>
     (\<exists>s0 r. run (date_button_text confirm_page) s0 = (r, s') \<and> js_trim (catch_default [] r) = ''05/03/2026'')"
  using confirm_page_selects selecionar_data_calendario_confirmed by blast

end
