(* ===== verification/Sink.thy ===== *)
theory Sink
  imports Dates Session
begin

text \<open>
  The MySQL sink of the second variant of \<open>src/PAUTA-JRT2.js\<close>: \<open>getEnv\<close>,
  \<open>isTrue\<close>, the pool options of \<open>openDb\<close> (\<open>open_db\<close>), \<open>initDbIfEnabled\<close>
  (lines 624-706) and \<open>insertRowsMySql\<close>
  (716-758). The database server is an external collaborator; its side of the
  \<open>INSERT ... ON DUPLICATE KEY UPDATE\<close> statement is modelled from the schema the
  script creates (\<open>ensureSchema\<close>, 656-677) and MySQL's documented semantics:
  the rows of one statement are applied in order, a row whose key
  \<open>(vara, dataISO, numeroProcesso)\<close> is already in the table updates that row's
  \<open>geradoEm\<close>, \<open>sessao\<close>, \<open>juiz\<close>, \<open>reclamante\<close> and \<open>reclamada\<close>, any
  other row is appended; \<open>affectedRows\<close> counts 1 per insert, 2 per update that
  changes the row and 0 per update that does not. Keys are compared as strings
  (the server's case-insensitive collation is not modelled). A server that is down
  rejects every query; an \<open>INSERT\<close> with no \<open>VALUES\<close> is a syntax error.
\<close>

section \<open>Rows, table and server\<close>

record pauta_row =
  \<comment> \<open>the objects \<open>main\<close> builds for the sinks\<close>
  pr_gerado_em :: jstr
  pr_vara :: jstr
  pr_data :: jstr
  pr_numero :: jstr
  pr_sessao :: jstr
  pr_juiz :: jstr
  pr_reclamante :: jstr
  pr_reclamada :: jstr

record db_row =
  \<comment> \<open>a row of \<open>pauta_processos\<close> (the auto-increment id is its position)\<close>
  db_gerado_em :: jstr
  db_vara :: jstr
  db_data_br :: jstr
  db_data_iso :: jstr
  db_numero :: jstr
  db_sessao :: jstr
  db_juiz :: jstr
  db_reclamante :: jstr
  db_reclamada :: jstr

record db_server =
  db_up :: bool
  db_table :: "db_row list"

definition db_key :: "db_row \<Rightarrow> jstr \<times> jstr \<times> jstr" where
  \<comment> \<open>\<open>UNIQUE KEY uq_pauta (vara, dataISO, numeroProcesso)\<close>\<close>
  "db_key r = (db_vara r, db_data_iso r, db_numero r)"

fun find_key :: "jstr \<times> jstr \<times> jstr \<Rightarrow> db_row list \<Rightarrow> nat option" where
  "find_key k [] = None"
| "find_key k (r # rs) = (if db_key r = k then Some 0 else map_option Suc (find_key k rs))"

definition upsert_row :: "db_row \<Rightarrow> db_row list \<Rightarrow> db_row list \<times> nat" where
  \<comment> \<open>one row of \<open>INSERT ... ON DUPLICATE KEY UPDATE\<close>, with its affected-row count\<close>
  "upsert_row r t =
     (case find_key (db_key r) t of
        None \<Rightarrow> (t @ [r], 1)
      | Some i \<Rightarrow>
          (let old = t ! i;
               new = old\<lparr>db_gerado_em := db_gerado_em r, db_sessao := db_sessao r, db_juiz := db_juiz r,
                         db_reclamante := db_reclamante r, db_reclamada := db_reclamada r\<rparr>
           in (t[i := new], if new = old then 0 else 2)))"

fun upsert_all :: "db_row list \<Rightarrow> db_row list \<Rightarrow> db_row list \<times> nat" where
  "upsert_all [] t = (t, 0)"
| "upsert_all (r # rs) t =
     (let (t1, a1) = upsert_row r t; (t2, a2) = upsert_all rs t1 in (t2, a1 + a2))"

definition db_insert :: "db_row list \<Rightarrow> db_server \<Rightarrow> nat outcome \<times> db_server" where
  \<comment> \<open>\<open>pool.query(sql, values)\<close> for the statement of one chunk\<close>
  "db_insert rows d =
     (if \<not> db_up d then (Inl (JsError ''ECONNREFUSED''), d)
      else if rows = [] then (Inl (JsError ''ER_PARSE_ERROR''), d)
      else (let (t, a) = upsert_all rows (db_table d) in (Inr a, d\<lparr>db_table := t\<rparr>)))"

section \<open>\<open>insertRowsMySql\<close>\<close>

definition to_db_row :: "pauta_row \<Rightarrow> db_row" where
  \<comment> \<open>the \<open>values.push(...)\<close> of one row; \<open>dataISO\<close> is \<open>brToIsoDateString(r.data)\<close>\<close>
  "to_db_row r =
     \<lparr>db_gerado_em = pr_gerado_em r, db_vara = pr_vara r, db_data_br = pr_data r,
      db_data_iso = br_to_iso (pr_data r), db_numero = pr_numero r, db_sessao = pr_sessao r,
      db_juiz = pr_juiz r, db_reclamante = pr_reclamante r, db_reclamada = pr_reclamada r\<rparr>"

function insert_chunks :: "nat \<Rightarrow> pauta_row list \<Rightarrow> nat \<Rightarrow> db_server \<Rightarrow> nat outcome \<times> db_server" where
  \<comment> \<open>\<open>for (let i = 0; i < rows.length; i += chunkSize)\<close> over the rows left, with the
      running \<open>acc\<close>; the query is not caught\<close>
  "insert_chunks chunk_size rows acc d =
     (if rows = [] then (Inr acc, d)
      else
        (case db_insert (map to_db_row (take chunk_size rows)) d of
           (Inl e, d1) \<Rightarrow> (Inl e, d1)
         | (Inr a, d1) \<Rightarrow> insert_chunks chunk_size (drop chunk_size rows) (acc + a) d1))"
  by pat_completeness auto
termination
  by (relation "measure (\<lambda>(n, rows, acc, d). length rows)")
     (auto simp: db_insert_def split: if_splits prod.splits)

declare insert_chunks.simps [simp del]

definition insert_rows_mysql ::
  "bool \<Rightarrow> pauta_row list \<Rightarrow> nat \<Rightarrow> db_server \<Rightarrow> nat outcome \<times> db_server" where
  \<comment> \<open>the first argument says whether \<open>pool\<close> is set\<close>
  "insert_rows_mysql pool rows chunk_size d =
     (if \<not> pool then (Inr 0, d)
      else if rows = [] then (Inr 0, d)
      else insert_chunks chunk_size rows 0 d)"

section \<open>Configuration: \<open>getEnv\<close>, \<open>isTrue\<close>, \<open>initDbIfEnabled\<close>\<close>

definition get_env :: "(jstr \<Rightarrow> jstr option) \<Rightarrow> jstr \<Rightarrow> jstr \<Rightarrow> jstr" where
  "get_env env name fallback = (case env name of None \<Rightarrow> fallback | Some v \<Rightarrow> if v = [] then fallback else v)"

definition is_true :: "jstr \<Rightarrow> bool" where
  "is_true v \<longleftrightarrow> js_lower (js_trim v) = ''true'' \<or> js_trim v = ''1''"

record db_config =
  \<comment> \<open>the options \<open>openDb\<close> passes to \<open>mysql.createPool\<close>\<close>
  dc_host :: jstr
  dc_port :: "nat option"
  \<comment> \<open>\<open>Number(...)\<close>: \<open>None\<close> is \<open>NaN\<close>\<close>
  dc_user :: jstr
  dc_password :: jstr
  dc_database :: jstr
  dc_wait_for_connections :: bool
  dc_connection_limit :: nat
  dc_queue_limit :: nat
  dc_multiple_statements :: bool
  dc_connect_timeout :: nat

definition open_db :: "(jstr \<Rightarrow> jstr option) \<Rightarrow> db_config" where
  \<comment> \<open>\<open>openDb\<close>: the configuration read from the environment with its defaults\<close>
  "open_db env =
     \<lparr>dc_host = get_env env ''DB_HOST'' ''127.0.0.1'',
      dc_port = js_number (get_env env ''DB_PORT'' ''3306''),
      dc_user = get_env env ''DB_USER'' ''root'',
      dc_password = get_env env ''DB_PASS'' [],
      dc_database = get_env env ''DB_NAME'' ''jte'',
      dc_wait_for_connections = True, dc_connection_limit = 10, dc_queue_limit = 0,
      dc_multiple_statements = False, dc_connect_timeout = 8000\<rparr>"

definition init_db_if_enabled :: "(jstr \<Rightarrow> jstr option) \<Rightarrow> db_server \<Rightarrow> bool" where
  \<comment> \<open>whether a pool comes back: \<open>SELECT 1\<close> and \<open>ensureSchema\<close> fail on a server that
      is down, and the \<open>catch\<close> turns that into \<open>null\<close>\<close>
  "init_db_if_enabled env d = (is_true (get_env env ''DB_ENABLED'' ''false'') \<and> db_up d)"

section \<open>The table as a map\<close>

definition keys_distinct :: "db_row list \<Rightarrow> bool" where
  "keys_distinct t \<longleftrightarrow> distinct (map db_key t)"

definition db_map :: "db_row list \<Rightarrow> jstr \<times> jstr \<times> jstr \<rightharpoonup> db_row" where
  "db_map t = map_of (map (\<lambda>r. (db_key r, r)) t)"

definition merge_row :: "db_row option \<Rightarrow> db_row \<Rightarrow> db_row" where
  "merge_row old r =
     (case old of None \<Rightarrow> r
      | Some x \<Rightarrow> x\<lparr>db_gerado_em := db_gerado_em r, db_sessao := db_sessao r, db_juiz := db_juiz r,
                   db_reclamante := db_reclamante r, db_reclamada := db_reclamada r\<rparr>)"

definition upsert_map :: "db_row \<Rightarrow> (jstr \<times> jstr \<times> jstr \<rightharpoonup> db_row) \<Rightarrow> (jstr \<times> jstr \<times> jstr \<rightharpoonup> db_row)" where
  "upsert_map r m = m(db_key r \<mapsto> merge_row (m (db_key r)) r)"

section \<open>Example rows\<close>

definition sample_row :: "jstr \<Rightarrow> pauta_row" where
  "sample_row juiz_nome =
     \<lparr>pr_gerado_em = ''2026-03-01T09:00:00.000Z'', pr_vara = ''1a Vara do Trabalho de Sao Paulo'',
      pr_data = ''05/03/2026'', pr_numero = ''1000001-11.2026.5.02.0001'', pr_sessao = ''09:00 - Designada'',
      pr_juiz = juiz_nome, pr_reclamante = ''Maria'', pr_reclamada = ''Empresa Y''\<rparr>"

definition empty_db :: db_server where
  "empty_db = \<lparr>db_up = True, db_table = []\<rparr>"

section \<open>Key invariant, refinement and chunking\<close>

lemma find_key_Some: "find_key k t = Some i \<Longrightarrow> i < length t \<and> db_key (t ! i) = k"
  by (induction k t arbitrary: i rule: find_key.induct) (auto split: if_splits)

lemma find_key_None: "find_key k t = None \<longleftrightarrow> k \<notin> db_key ` set t"
  by (induction k t rule: find_key.induct) auto

lemma db_key_update [simp]:
  "db_key (r\<lparr>db_gerado_em := a, db_sessao := b, db_juiz := c, db_reclamante := d, db_reclamada := e\<rparr>) = db_key r"
  by (simp add: db_key_def)

lemma upsert_row_keys:
  "map db_key (fst (upsert_row r t)) =
     (if db_key r \<in> db_key ` set t then map db_key t else map db_key t @ [db_key r])"
proof (cases "find_key (db_key r) t")
  case None
  moreover from None have "db_key r \<notin> db_key ` set t" by (simp add: find_key_None)
  ultimately show ?thesis by (simp add: upsert_row_def)
next
  case (Some i)
  with find_key_Some [OF Some] have "i < length t" "db_key (t ! i) = db_key r" by simp_all
  moreover from this have "db_key r \<in> db_key ` set t" by (metis image_eqI nth_mem)
  moreover have "(map db_key t)[i := db_key r] = map db_key t"
    using calculation(1,2) list_update_id [of "map db_key t" i] by simp
  ultimately show ?thesis using Some by (simp add: upsert_row_def Let_def map_update)
qed

lemma keys_distinct_upsert_row: "keys_distinct t \<Longrightarrow> keys_distinct (fst (upsert_row r t))"
  by (simp add: keys_distinct_def upsert_row_keys)

lemma map_of_distinct_nth:
  "distinct (map db_key t) \<Longrightarrow> i < length t \<Longrightarrow> db_map t (db_key (t ! i)) = Some (t ! i)"
  unfolding db_map_def by (subst map_of_eq_Some_iff) (auto simp: comp_def)

lemma db_map_snoc_new:
  "db_key r \<notin> db_key ` set t \<Longrightarrow> db_map (t @ [r]) = (db_map t)(db_key r \<mapsto> r)"
proof (rule ext)
  fix k
  assume n: "db_key r \<notin> db_key ` set t"
  then have "db_map t (db_key r) = None" by (auto simp: db_map_def map_of_eq_None_iff)
  then show "db_map (t @ [r]) k = ((db_map t)(db_key r \<mapsto> r)) k"
    by (simp add: db_map_def map_add_def split: option.split)
qed

lemma db_map_update_nth:
  "distinct (map db_key t) \<Longrightarrow> i < length t \<Longrightarrow> db_key v = db_key (t ! i) \<Longrightarrow>
     db_map (t[i := v]) = (db_map t)(db_key v \<mapsto> v)"
proof (induction t arbitrary: i)
  case Nil
  then show ?case by simp
next
  case (Cons x xs)
  show ?case
  proof (cases i)
    case 0
    with Cons.prems show ?thesis by (auto simp: db_map_def)
  next
    case (Suc j)
    from Cons.prems Suc have "j < length xs" and k: "db_key v = db_key (xs ! j)" by simp_all
    then have "db_key v \<in> db_key ` set xs" using nth_mem by (metis image_eqI)
    with Cons.prems(1) have "db_key v \<noteq> db_key x" by auto
    with Cons Suc show ?thesis by (auto simp: db_map_def fun_upd_twist)
  qed
qed

lemma upsert_row_refines:
  assumes "keys_distinct t"
  shows "db_map (fst (upsert_row r t)) = upsert_map r (db_map t)"
proof (cases "find_key (db_key r) t")
  case None
  moreover from None have "db_key r \<notin> db_key ` set t" by (simp add: find_key_None)
  moreover from this have "db_map t (db_key r) = None" by (auto simp: db_map_def map_of_eq_None_iff)
  ultimately show ?thesis by (simp add: upsert_row_def upsert_map_def merge_row_def db_map_snoc_new)
next
  case (Some i)
  from find_key_Some [OF Some] have i: "i < length t" "db_key (t ! i) = db_key r" by simp_all
  with assms have m: "db_map t (db_key r) = Some (t ! i)"
    using map_of_distinct_nth [of t i] by (simp add: keys_distinct_def)
  show ?thesis
    using Some i m assms
    by (simp add: upsert_row_def upsert_map_def merge_row_def Let_def db_map_update_nth keys_distinct_def)
qed

lemma keys_distinct_upsert_all: "keys_distinct t \<Longrightarrow> keys_distinct (fst (upsert_all rs t))"
  by (induction rs arbitrary: t) (simp_all add: split_def Let_def keys_distinct_upsert_row)

lemma upsert_all_refines:
  "keys_distinct t \<Longrightarrow> db_map (fst (upsert_all rs t)) = fold upsert_map rs (db_map t)"
  by (induction rs arbitrary: t) (simp_all add: split_def Let_def keys_distinct_upsert_row upsert_row_refines)

lemma upsert_all_append:
  "upsert_all (xs @ ys) t =
     (fst (upsert_all ys (fst (upsert_all xs t))), snd (upsert_all xs t) + snd (upsert_all ys (fst (upsert_all xs t))))"
  by (induction xs arbitrary: t) (simp_all add: split_def Let_def)

lemma insert_chunks_up:
  assumes "db_up d" and "0 < n"
  shows "insert_chunks n rows acc d =
           (Inr (acc + snd (upsert_all (map to_db_row rows) (db_table d))),
            d\<lparr>db_table := fst (upsert_all (map to_db_row rows) (db_table d))\<rparr>)"
  using assms
proof (induction n rows acc d rule: insert_chunks.induct)
  case (1 n rows acc d)
  show ?case
  proof (cases "rows = []")
    case True
    then show ?thesis by (simp add: insert_chunks.simps [of n "[]"])
  next
    case False
    let ?c = "map to_db_row (take n rows)"
    have ne: "?c \<noteq> []" using False "1.prems"(2) by simp
    let ?u = "upsert_all ?c (db_table d)"
    have q: "db_insert ?c d = (Inr (snd ?u), d\<lparr>db_table := fst ?u\<rparr>)"
      using "1.prems"(1) ne by (simp add: db_insert_def split_def Let_def)
    have ih: "insert_chunks n (drop n rows) (acc + snd ?u) (d\<lparr>db_table := fst ?u\<rparr>) =
        (Inr (acc + snd ?u + snd (upsert_all (map to_db_row (drop n rows)) (fst ?u))),
         d\<lparr>db_table := fst (upsert_all (map to_db_row (drop n rows)) (fst ?u))\<rparr>)"
      using "1.IH" [OF False q [symmetric]] "1.prems" by simp
    have split: "map to_db_row rows = ?c @ map to_db_row (drop n rows)"
      by (simp add: map_append [symmetric])
    show ?thesis
      using False q ih by (simp add: insert_chunks.simps [of n rows] split upsert_all_append add.assoc)
  qed
qed

lemma insert_chunks_Inr:
  "rows \<noteq> [] \<Longrightarrow> insert_chunks n rows acc d = (Inr a, d') \<Longrightarrow> db_up d \<and> 0 < n"
  by (auto simp: insert_chunks.simps [of n rows] db_insert_def split: if_splits prod.splits)

lemma insert_chunks_keys:
  "keys_distinct (db_table d) \<Longrightarrow> insert_chunks n rows acc d = (r, d') \<Longrightarrow> keys_distinct (db_table d')"
proof (induction n rows acc d arbitrary: r rule: insert_chunks.induct)
  case (1 n rows acc d)
  show ?case
  proof (cases "rows = []")
    case True
    with "1.prems" show ?thesis by (simp add: insert_chunks.simps [of n "[]"])
  next
    case False
    obtain q d1 where q: "db_insert (map to_db_row (take n rows)) d = (q, d1)" by fastforce
    have k1: "keys_distinct (db_table d1)"
      using q "1.prems"(1) keys_distinct_upsert_all
      by (auto simp: db_insert_def split_def Let_def split: if_splits)
    show ?thesis
    proof (cases q)
      case (Inl e)
      with q False "1.prems"(2) k1 show ?thesis by (simp add: insert_chunks.simps [of n rows])
    next
      case (Inr a)
      with q False "1.prems"(2)
      have "insert_chunks n (drop n rows) (acc + a) d1 = (r, d')" by (simp add: insert_chunks.simps [of n rows])
      with "1.IH" [OF False q [symmetric] Inr k1] show ?thesis by simp
    qed
  qed
qed

lemma insert_rows_mysql_keys:
  assumes "keys_distinct (db_table d)" and "insert_rows_mysql pool rows n d = (r, d')"
  shows "keys_distinct (db_table d')"
  using assms insert_chunks_keys [OF assms(1)] by (auto simp: insert_rows_mysql_def split: if_splits)

lemma filter_key_single:
  "distinct (map db_key t) \<Longrightarrow> db_map t k = Some x \<Longrightarrow> filter (\<lambda>y. db_key y = k) t = [x]"
proof (induction t)
  case Nil
  then show ?case by (simp add: db_map_def)
next
  case (Cons y ys)
  show ?case
  proof (cases "db_key y = k")
    case True
    with Cons.prems have "x = y" by (simp add: db_map_def)
    moreover have "filter (\<lambda>z. db_key z = k) ys = []"
    proof -
      from True Cons.prems(1) have "k \<notin> db_key ` set ys" by simp
      then show ?thesis by (auto simp: filter_empty_conv)
    qed
    ultimately show ?thesis using True by simp
  next
    case False
    with Cons show ?thesis by (simp add: db_map_def)
  qed
qed

lemma insert_rows_mysql_up:
  assumes "db_up d" and "0 < n"
  shows "insert_rows_mysql True rows n d =
           (Inr (snd (upsert_all (map to_db_row rows) (db_table d))),
            d\<lparr>db_table := fst (upsert_all (map to_db_row rows) (db_table d))\<rparr>)"
  using insert_chunks_up [OF assms, of rows 0] by (simp add: insert_rows_mysql_def)

lemma insert_rows_mysql_map:
  assumes "keys_distinct (db_table d)" and "insert_rows_mysql True rows n d = (Inr a, d')"
  shows "db_map (db_table d') = fold upsert_map (map to_db_row rows) (db_map (db_table d))"
proof (cases "rows = []")
  case True
  with assms(2) show ?thesis by (simp add: insert_rows_mysql_def)
next
  case False
  with assms(2) have "insert_chunks n rows 0 d = (Inr a, d')" by (simp add: insert_rows_mysql_def)
  with insert_chunks_Inr [OF False this] insert_chunks_up [of d n rows 0] have
    "db_table d' = fst (upsert_all (map to_db_row rows) (db_table d))" by simp
  with assms(1) show ?thesis by (simp add: upsert_all_refines)
qed

section \<open>Properties\<close>

text \<open>C28: \<open>insertRowsMySql\<close> on a live server, whatever its chunk size, leaves the table
  and returns the affected-row count of one \<open>INSERT ... ON DUPLICATE KEY UPDATE\<close>
  over all the rows in order: the chunking is invisible.\<close>

theorem insert_rows_mysql_chunking:
  assumes "db_up d" and "0 < n"
  shows "insert_rows_mysql True rows n d =
           (Inr (snd (upsert_all (map to_db_row rows) (db_table d))),
            d\<lparr>db_table := fst (upsert_all (map to_db_row rows) (db_table d))\<rparr>)"
  using assms by (rule insert_rows_mysql_up)

theorem insert_rows_mysql_chunking_witness:
  "insert_rows_mysql True [sample_row ''A'', sample_row ''B''] 1 empty_db =
     insert_rows_mysql True [sample_row ''A'', sample_row ''B''] 800 empty_db"
  using insert_rows_mysql_chunking [of empty_db 1 "[sample_row ''A'', sample_row ''B'']"]
    insert_rows_mysql_chunking [of empty_db 800 "[sample_row ''A'', sample_row ''B'']"]
  by (simp add: empty_db_def)

text \<open>C29: a successful \<open>insertRowsMySql\<close> refines the map specification of the table:
  seen as a map from keys to rows, the table afterwards is the sequential upsert of
  the rows into the map before.\<close>

theorem insert_rows_mysql_refines:
  assumes "keys_distinct (db_table d)" and "insert_rows_mysql True rows n d = (Inr a, d')"
  shows "db_map (db_table d') = fold upsert_map (map to_db_row rows) (db_map (db_table d))"
  using assms by (rule insert_rows_mysql_map)

theorem insert_rows_mysql_refines_witness:
  "\<exists>a d'. insert_rows_mysql True [sample_row ''A''] 800 empty_db = (Inr a, d') \<and>
     db_map (db_table d') = fold upsert_map [to_db_row (sample_row ''A'')] (db_map (db_table empty_db))"
proof -
  obtain a d' where r: "insert_rows_mysql True [sample_row ''A''] 800 empty_db = (Inr a, d')"
    using insert_rows_mysql_up [of empty_db 800 "[sample_row ''A'']"] by (simp add: empty_db_def)
  have k: "keys_distinct (db_table empty_db)" by (simp add: keys_distinct_def empty_db_def)
  show ?thesis using r insert_rows_mysql_refines [OF k r] by auto
qed

text \<open>C27: inserting two records with the same \<open>(vara, dataISO, numeroProcesso)\<close>, one
  call after the other, leaves exactly one row with that key, whose \<open>geradoEm\<close> and
  descriptive fields are those of the later record.\<close>

theorem insert_same_record_twice:
  assumes "keys_distinct (db_table d)" and "db_up d" and "0 < n"
    and "db_key (to_db_row r2) = db_key (to_db_row r1)"
  shows "\<exists>a1 d1 a2 d2 x. insert_rows_mysql True [r1] n d = (Inr a1, d1) \<and>
           insert_rows_mysql True [r2] n d1 = (Inr a2, d2) \<and>
           filter (\<lambda>y. db_key y = db_key (to_db_row r1)) (db_table d2) = [x] \<and>
           db_gerado_em x = pr_gerado_em r2 \<and> db_sessao x = pr_sessao r2 \<and> db_juiz x = pr_juiz r2 \<and>
           db_reclamante x = pr_reclamante r2 \<and> db_reclamada x = pr_reclamada r2"
proof -
  let ?k = "db_key (to_db_row r1)"
  obtain a1 d1 where i1: "insert_rows_mysql True [r1] n d = (Inr a1, d1)"
    using insert_rows_mysql_up [OF assms(2,3), of "[r1]"] by simp
  have up1: "db_up d1" using i1 insert_rows_mysql_up [OF assms(2,3), of "[r1]"] assms(2) by auto
  obtain a2 d2 where i2: "insert_rows_mysql True [r2] n d1 = (Inr a2, d2)"
    using insert_rows_mysql_up [OF up1 assms(3), of "[r2]"] by simp
  have k1: "keys_distinct (db_table d1)" using insert_rows_mysql_keys [OF assms(1) i1] .
  have k2: "keys_distinct (db_table d2)" using insert_rows_mysql_keys [OF k1 i2] .
  have "db_map (db_table d2) = upsert_map (to_db_row r2) (db_map (db_table d1))"
    using insert_rows_mysql_map [OF k1 i2] by simp
  moreover have "db_map (db_table d1) ?k \<noteq> None"
    using insert_rows_mysql_map [OF assms(1) i1] by (simp add: upsert_map_def)
  ultimately obtain x where x: "db_map (db_table d2) ?k = Some x"
    and f: "db_gerado_em x = pr_gerado_em r2 \<and> db_sessao x = pr_sessao r2 \<and> db_juiz x = pr_juiz r2 \<and>
            db_reclamante x = pr_reclamante r2 \<and> db_reclamada x = pr_reclamada r2"
    using assms(4) by (auto simp: upsert_map_def merge_row_def to_db_row_def)
  have "filter (\<lambda>y. db_key y = ?k) (db_table d2) = [x]"
    using filter_key_single [OF k2 [unfolded keys_distinct_def] x] .
  with i1 i2 f show ?thesis by blast
qed

theorem insert_same_record_twice_witness:
  "\<exists>a1 d1 a2 d2 x. insert_rows_mysql True [sample_row ''A''] 800 empty_db = (Inr a1, d1) \<and>
     insert_rows_mysql True [sample_row ''B''] 800 d1 = (Inr a2, d2) \<and>
     filter (\<lambda>y. db_key y = db_key (to_db_row (sample_row ''A''))) (db_table d2) = [x] \<and>
     db_gerado_em x = pr_gerado_em (sample_row ''B'') \<and> db_sessao x = pr_sessao (sample_row ''B'') \<and>
     db_juiz x = ''B'' \<and> db_reclamante x = pr_reclamante (sample_row ''B'') \<and>
     db_reclamada x = pr_reclamada (sample_row ''B'')"
  using insert_same_record_twice [of empty_db 800 "sample_row ''B''" "sample_row ''A''"]
  by (simp add: keys_distinct_def empty_db_def sample_row_def to_db_row_def db_key_def)


section \<open>Pool configuration\<close>

lemma open_db_port: "env ''DB_PORT'' = Some (js_nat_str n) \<Longrightarrow> dc_port (open_db env) = Some n"
  using js_nat_str_digits [of n] by (simp add: open_db_def get_env_def)

lemma open_db_defaults:
  "open_db (\<lambda>_. None) =
     \<lparr>dc_host = ''127.0.0.1'', dc_port = Some 3306, dc_user = ''root'', dc_password = [], dc_database = ''jte'',
      dc_wait_for_connections = True, dc_connection_limit = 10, dc_queue_limit = 0,
      dc_multiple_statements = False, dc_connect_timeout = 8000\<rparr>"
  by (simp add: open_db_def get_env_def js_number_def js_trim_def js_is_space_def js_is_digit_def
      nat_of_digits_def)

end
