(* ===== verification/Output.thy ===== *)
theory Output
  imports Prelude
begin

text \<open>
  The output step of the second variant's \<open>main\<close> in \<open>src/PAUTA-JRT2.js\<close>
  (lines 1331-1359): the two file paths built from one \<open>Date.now()\<close> stamp, the
  subject and body of the report e-mail and the attachment's file name, which
  \<open>sendEmailWithAttachment\<close> takes as \<open>path.basename(attachmentPath)\<close>
  (line 840). Node's \<open>path.join\<close> and \<open>path.basename\<close> are taken on POSIX paths
  for a normalised directory and a plain file name. Creating the directory and
  writing the files are I/O and not modelled.
\<close>

section \<open>Paths and message\<close>

definition path_join :: "jstr \<Rightarrow> jstr \<Rightarrow> jstr" where
  \<comment> \<open>\<open>path.join(dir, name)\<close>\<close>
  "path_join dir name = dir @ ''/'' @ name"

definition path_basename :: "jstr \<Rightarrow> jstr" where
  \<comment> \<open>\<open>path.basename(p)\<close>: what follows the last separator\<close>
  "path_basename p = rev (takeWhile (\<lambda>c. c \<noteq> CHR ''/'') (rev p))"

definition out_name :: "nat \<Rightarrow> jstr \<Rightarrow> jstr" where
  \<comment> \<open>\<open>`pauta_trt2_2meses_${stamp}.${ext}`\<close>\<close>
  "out_name stamp ext = ''pauta_trt2_2meses_'' @ js_nat_str stamp @ ''.'' @ ext"

definition out_paths :: "jstr \<Rightarrow> nat \<Rightarrow> jstr \<times> jstr" where
  \<comment> \<open>\<open>csvPath\<close> and \<open>xlsxPath\<close> for \<open>stamp = Date.now()\<close>\<close>
  "out_paths out_dir stamp = (path_join out_dir (out_name stamp ''csv''), path_join out_dir (out_name stamp ''xlsx''))"

definition mail_text :: "nat \<Rightarrow> jstr \<Rightarrow> jstr" where
  \<comment> \<open>the report's \<open>text\<close>, with \<open>rowsCsv.length\<close> and \<open>geradoEm\<close>\<close>
  "mail_text n gerado_em =
     ''Ol'' @ [CHR 0xE1] @ ''!'' @ [CHR 0x0A, CHR 0x0A] @
     ''Segue em anexo o arquivo XLSX com a extra'' @ [CHR 0xE7, CHR 0xE3] @ ''o da pauta do TRT2 para os pr'' @
     [CHR 0xF3] @ ''ximos ~2 meses.'' @ [CHR 0x0A, CHR 0x0A] @
     ''Total de linhas: '' @ js_nat_str n @ [CHR 0x0A] @
     ''Gerado em: '' @ gerado_em @ [CHR 0x0A, CHR 0x0A] @
     ''Atenciosamente,'' @ [CHR 0x0A] @ ''Rob'' @ [CHR 0xF4] @ '' JTe''"

definition mail_subject :: "jstr \<Rightarrow> jstr" where
  \<comment> \<open>\<open>`Pauta TRT2 (2 meses) - ${new Date().toLocaleString('pt-BR')}`\<close>, the
      locale rendering of the time given\<close>
  "mail_subject local_time = ''Pauta TRT2 (2 meses) - '' @ local_time"

definition attachment_name :: "jstr \<Rightarrow> jstr" where
  \<comment> \<open>\<open>filename: path.basename(attachmentPath)\<close>\<close>
  "attachment_name attachment_path = path_basename attachment_path"

section \<open>Lemmas\<close>

lemma append_sep_cancel:
  assumes "list_all P xs" "list_all P ys" "\<not> P c"
  shows "xs @ c # r1 = ys @ c # r2 \<longleftrightarrow> xs = ys \<and> r1 = r2"
  using assms
proof (induction xs arbitrary: ys)
  case Nil
  then show ?case by (cases ys) auto
next
  case (Cons x xs)
  then show ?case by (cases ys) auto
qed

lemma js_nat_str_inj: "js_nat_str a = js_nat_str b \<longleftrightarrow> a = b"
  by (metis nat_of_digits_js_nat_str)

lemma out_name_eq: "out_name s1 e1 = out_name s2 e2 \<longleftrightarrow> s1 = s2 \<and> e1 = e2"
proof -
  have "\<not> js_is_digit (CHR ''.'')" by (simp add: js_is_digit_def)
  then show ?thesis
    using append_sep_cancel [of js_is_digit "js_nat_str s1" "js_nat_str s2" "CHR ''.''" e1 e2]
      js_nat_str_digits [of s1] js_nat_str_digits [of s2]
    by (simp add: out_name_def js_nat_str_inj)
qed

lemma out_name_no_slash: "CHR ''/'' \<notin> set (out_name s e) \<longleftrightarrow> CHR ''/'' \<notin> set e"
  using js_nat_str_no_char [of "CHR ''/''" s] by (auto simp: out_name_def js_is_digit_def)

lemma path_basename_join:
  assumes "CHR ''/'' \<notin> set n"
  shows "path_basename (path_join d n) = n"
proof -
  have "takeWhile (\<lambda>c. c \<noteq> CHR ''/'') (rev n @ CHR ''/'' # rev d) = rev n"
    using assms by (subst takeWhile_append2) auto
  then show ?thesis by (simp add: path_basename_def path_join_def)
qed

lemma attachment_name_out_path:
  "CHR ''/'' \<notin> set e \<Longrightarrow> attachment_name (path_join d (out_name s e)) = out_name s e"
  by (simp add: attachment_name_def path_basename_join out_name_no_slash)

lemma path_join_eq: "path_join d a = path_join d b \<longleftrightarrow> a = b"
  by (simp add: path_join_def)

text \<open>C19: the files of a run are its own: two runs with different \<open>Date.now()\<close>
  stamps never write the same CSV or XLSX path of the output directory, the CSV and
  the XLSX path never coincide, and the e-mail's attachment is named after the
  run's XLSX file.\<close>

theorem out_paths_distinct:
  "(fst (out_paths d s1) = fst (out_paths d s2) \<longleftrightarrow> s1 = s2) \<and>
   (snd (out_paths d s1) = snd (out_paths d s2) \<longleftrightarrow> s1 = s2) \<and>
   fst (out_paths d s1) \<noteq> snd (out_paths d s2) \<and>
   attachment_name (snd (out_paths d s)) = out_name s ''xlsx''"
  by (simp add: out_paths_def path_join_eq out_name_eq attachment_name_out_path)

end
