(* ===== verification/Mail.thy ===== *)
theory Mail
  imports Sink Output
begin

text \<open>
  The e-mail notifier of the second variant of \<open>src/PAUTA-JRT2.js\<close>:
  \<open>parseMailTo\<close> (lines 803-809) and \<open>sendEmailWithAttachment\<close> (811-847): the
  configuration read from the environment with its guard, the options of
  \<open>nodemailer.createTransport\<close> (\<open>smtp_config\<close>) and the message handed to
  \<open>transporter.sendMail\<close> (\<open>mail_message\<close>), built from the caller's request
  \<open>{subject, text, attachmentPath}\<close> (\<open>mail_request\<close>). Delivering the message
  is SMTP I/O: it is a parameter \<open>send\<close> of the model, taking the transport
  options and the message, an outcome the caller awaits without a \<open>catch\<close>. \<open>getEnv(name)\<close> without a fallback returns \<open>undefined\<close> for an
  unset or empty variable, \<open>None\<close> here.
\<close>

section \<open>\<open>parseMailTo\<close>\<close>

fun js_split_by :: "(char \<Rightarrow> bool) \<Rightarrow> jstr \<Rightarrow> jstr list" where
  \<comment> \<open>\<open>s.split(re)\<close> for a one-character class \<open>re\<close>\<close>
  "js_split_by p [] = [[]]"
| "js_split_by p (x # xs) =
     (if p x then [] # js_split_by p xs
      else (case js_split_by p xs of q # qs \<Rightarrow> (x # q) # qs | [] \<Rightarrow> [[x]]))"

definition mail_sep :: "char \<Rightarrow> bool" where
  \<comment> \<open>the class \<open>[;,]\<close>\<close>
  "mail_sep c \<longleftrightarrow> c = CHR '';'' \<or> c = CHR '',''"

definition parse_mail_to :: "jstr option \<Rightarrow> jstr list" where
  \<comment> \<open>\<open>if (!value) return []\<close>, then split, trim, \<open>filter(Boolean)\<close>\<close>
  "parse_mail_to v =
     (case v of None \<Rightarrow> []
      | Some s \<Rightarrow> if s = [] then [] else filter (\<lambda>t. t \<noteq> []) (map js_trim (js_split_by mail_sep s)))"

section \<open>\<open>sendEmailWithAttachment\<close>\<close>

definition get_env_opt :: "(jstr \<Rightarrow> jstr option) \<Rightarrow> jstr \<Rightarrow> jstr option" where
  \<comment> \<open>\<open>getEnv(name)\<close>: \<open>undefined\<close> when unset or empty\<close>
  "get_env_opt env name = (case env name of None \<Rightarrow> None | Some v \<Rightarrow> if v = [] then None else Some v)"

record smtp_config =
  \<comment> \<open>the values read before the guard; host, port, secure and auth go to \<open>createTransport\<close>\<close>
  smtp_host :: jstr
  smtp_port :: "nat option"
  \<comment> \<open>\<open>Number(getEnv('SMTP_PORT', '587'))\<close>, \<open>None\<close> being \<open>NaN\<close>\<close>
  smtp_secure :: bool
  smtp_user :: jstr
  smtp_pass :: jstr
  mail_from :: jstr
  mail_to :: "jstr list"

record mail_request =
  \<comment> \<open>the argument \<open>{ subject, text, attachmentPath }\<close>\<close>
  mr_subject :: jstr
  mr_text :: jstr
  mr_attachment_path :: jstr

record mail_message =
  \<comment> \<open>the object passed to \<open>transporter.sendMail\<close>\<close>
  msg_from :: jstr
  msg_to :: "jstr list"
  msg_subject :: jstr
  msg_text :: jstr
  msg_attachments :: "(jstr \<times> jstr) list"
  \<comment> \<open>\<open>attachments\<close>: pairs \<open>(filename, path)\<close>\<close>

definition smtp_config_of :: "(jstr \<Rightarrow> jstr option) \<Rightarrow> smtp_config option" where
  \<comment> \<open>the guard \<open>if (!host || !user || !pass || !from || !to.length) throw ...\<close>; \<open>MAIL_FROM\<close>
      falls back to \<open>SMTP_USER\<close>; \<open>SMTP_SECURE\<close> is lower-cased but not trimmed\<close>
  "smtp_config_of env =
     (let host = get_env_opt env ''SMTP_HOST'';
          port = js_number (get_env env ''SMTP_PORT'' ''587'');
          secure = (js_lower (get_env env ''SMTP_SECURE'' ''false'') = ''true'');
          user = get_env_opt env ''SMTP_USER'';
          pass = get_env_opt env ''SMTP_PASS'';
          from = (case get_env_opt env ''MAIL_FROM'' of None \<Rightarrow> user | Some f \<Rightarrow> Some f);
          to = parse_mail_to (Some (get_env env ''MAIL_TO'' ''''))
      in case (host, user, pass, from) of
           (Some h, Some u, Some p, Some f) \<Rightarrow>
             if to = [] then None
             else Some \<lparr>smtp_host = h, smtp_port = port, smtp_secure = secure, smtp_user = u, smtp_pass = p,
                         mail_from = f, mail_to = to\<rparr>
         | _ \<Rightarrow> None)"

definition mail_message_of :: "smtp_config \<Rightarrow> mail_request \<Rightarrow> mail_message" where
  \<comment> \<open>\<open>{ from, to, subject, text, attachments: [{ filename: path.basename(attachmentPath),
      path: attachmentPath }] }\<close>\<close>
  "mail_message_of cfg req =
     \<lparr>msg_from = mail_from cfg, msg_to = mail_to cfg, msg_subject = mr_subject req, msg_text = mr_text req,
      msg_attachments = [(attachment_name (mr_attachment_path req), mr_attachment_path req)]\<rparr>"

definition send_email_with_attachment ::
  "(jstr \<Rightarrow> jstr option) \<Rightarrow> (smtp_config \<Rightarrow> mail_message \<Rightarrow> 's \<Rightarrow> jstr outcome \<times> 's) \<Rightarrow> mail_request
     \<Rightarrow> 's \<Rightarrow> jstr outcome \<times> 's" where
  \<comment> \<open>the message id on success\<close>
  "send_email_with_attachment env send req s =
     (case smtp_config_of env of
        None \<Rightarrow> (Inl (JsError ''Config SMTP incompleta. Verifique SMTP_HOST/SMTP_USER/SMTP_PASS/MAIL_FROM/MAIL_TO no env.''), s)
      | Some cfg \<Rightarrow> send cfg (mail_message_of cfg req) s)"

definition env_empty :: "jstr \<Rightarrow> jstr option" where
  "env_empty name = None"

section \<open>Splitting and joining recipient lists\<close>

lemma js_split_by_no_sep: "\<forall>c\<in>set a. \<not> p c \<Longrightarrow> js_split_by p a = [a]"
  by (induction a) auto

lemma js_split_by_append_sep:
  assumes "\<forall>x\<in>set a. \<not> p x" and "p c"
  shows "js_split_by p (a @ c # b) = a # js_split_by p b"
  using assms(1)
proof (induction a)
  case Nil
  with assms(2) show ?case by simp
next
  case (Cons x xs)
  then show ?case by simp
qed

lemma js_split_by_join:
  assumes "xs \<noteq> []" and "\<forall>x\<in>set xs. \<forall>d\<in>set x. \<not> p d" and "p c"
  shows "js_split_by p (js_join [c] xs) = xs"
  using assms(1,2)
proof (induction xs rule: list_nonempty_induct)
  case (single x)
  then show ?case by (simp add: js_split_by_no_sep)
next
  case (cons x xs)
  obtain y ys where xs_eq: "xs = y # ys" using cons.hyps by (cases xs) auto
  have "js_split_by p (x @ c # js_join [c] xs) = x # js_split_by p (js_join [c] xs)"
    using cons.prems assms(3) by (intro js_split_by_append_sep) simp_all
  with cons show ?case by (simp add: xs_eq)
qed

lemma send_email_sent:
  "send_email_with_attachment env send req s = (Inr i, s') \<Longrightarrow>
     \<exists>cfg. smtp_config_of env = Some cfg \<and> send cfg (mail_message_of cfg req) s = (Inr i, s')"
  by (auto simp: send_email_with_attachment_def split: option.splits)

section \<open>Properties\<close>

text \<open>C36: \<open>parseMailTo\<close> reads a recipient list joined with \<open>;\<close> or \<open>,\<close> back as its
  entries trimmed, with the empty ones dropped, in order: padding around an address
  and empty entries (\<open>"a@x ; ;b@y"\<close>) do not survive, when no entry contains a
  separator.\<close>

theorem parse_mail_to_join:
  assumes "xs \<noteq> []" and "\<forall>x\<in>set xs. \<forall>d\<in>set x. \<not> mail_sep d" and "mail_sep c"
  shows "parse_mail_to (Some (js_join [c] xs)) = filter (\<lambda>t. t \<noteq> []) (map js_trim xs)"
proof -
  have sp: "js_split_by mail_sep (js_join [c] xs) = xs"
    using assms by (intro js_split_by_join) auto
  show ?thesis
  proof (cases "js_join [c] xs = []")
    case True
    then have "xs = [[]]" using sp by simp
    then show ?thesis by (simp add: parse_mail_to_def js_trim_def)
  next
    case False
    with sp show ?thesis by (simp add: parse_mail_to_def)
  qed
qed

theorem parse_mail_to_join_witness:
  "parse_mail_to (Some '' ana@trt2.jus.br ; ;bia@trt2.jus.br'') = [''ana@trt2.jus.br'', ''bia@trt2.jus.br'']"
proof -
  have "parse_mail_to (Some (js_join '';'' ['' ana@trt2.jus.br '', '' '', ''bia@trt2.jus.br''])) =
      filter (\<lambda>t. t \<noteq> []) (map js_trim ['' ana@trt2.jus.br '', '' '', ''bia@trt2.jus.br''])"
    by (rule parse_mail_to_join) (simp_all add: mail_sep_def)
  then show ?thesis by (simp add: js_trim_def js_is_space_def)
qed

text \<open>C37: without an SMTP host, \<open>sendEmailWithAttachment\<close> rejects with the
  configuration error and never calls the transport.\<close>

theorem send_email_incomplete_config:
  assumes "get_env_opt env ''SMTP_HOST'' = None"
  shows "\<exists>e. send_email_with_attachment env send req s = (Inl e, s)"
  using assms by (simp add: send_email_with_attachment_def smtp_config_of_def Let_def)

theorem send_email_incomplete_config_witness:
  "get_env_opt (\<lambda>n. if n = ''SMTP_HOST'' then Some [] else Some ''robo@trt2.jus.br'') ''SMTP_HOST'' = None \<and>
   (\<exists>e. send_email_with_attachment (\<lambda>n. if n = ''SMTP_HOST'' then Some [] else Some ''robo@trt2.jus.br'')
          (\<lambda>cfg msg (s::nat). (Inr ''<1@smtp>'', s))
          \<lparr>mr_subject = ''Pauta'', mr_text = [], mr_attachment_path = ''/out/p.xlsx''\<rparr> 0 = (Inl e, 0))"
  using send_email_incomplete_config [of "\<lambda>n. if n = ''SMTP_HOST'' then Some [] else Some ''robo@trt2.jus.br''"
      "\<lambda>cfg msg (s::nat). (Inr ''<1@smtp>'', s)" "\<lparr>mr_subject = ''Pauta'', mr_text = [], mr_attachment_path = ''/out/p.xlsx''\<rparr>" 0]
  by (simp add: get_env_opt_def)

end
