(* ===== verification/Selector.thy ===== *)
theory Selector
  imports Stepper Calendar
begin

text \<open>
  Portal entry, unit enumeration and the cascading unit selector of
  \<open>src/PAUTA-JRT2.js\<close>: \<open>abrirJTeSelecionarTRT2\<close> and \<open>abrirModuloPauta\<close> (lines
  107-135 and 883-911), \<open>listarVaras\<close> (138-179, 914-955), the first variant's
  \<open>selecionarUnidade\<close> (185-223) and the second variant's \<open>escapeRegExp\<close>,
  \<open>openMatSelect\<close>, \<open>clickMatOptionByText\<close>, \<open>matSelectChoose\<close>,
  \<open>waitMatSelectEnabled\<close> and \<open>selecionarUnidade\<close> (960-1046).

  The selection dialog is a record \<open>'w unit_ui\<close> of primitives over the same world
  as the page: one awaited wait-or-click per fixed locator (\<open>ui_step\<close>), the texts of
  the options of the open panel (\<open>ui_options\<close>) and a click on the \<open>i\<close>-th of
  them. Which option a locator picks is modelled here: Playwright's \<open>hasText\<close> with
  a string is a case-insensitive substring test (\<open>has_text_str\<close>), with the
  second variant's regular expression \<open>/^\s*E\s*$/i\<close> it is the pattern's
  language (\<open>re_exact_ci\<close>, with \<open>E\<close> read by \<open>re_literal\<close>); \<open>.first()\<close>
  takes the first match, a locator without it rejects on two matches (strict mode).
\<close>

section \<open>Option texts and patterns\<close>

definition opt_text :: "jstr option \<Rightarrow> jstr" where
  \<comment> \<open>\<open>textContent\<close>, \<open>null\<close> read as the empty text\<close>
  "opt_text t = (case t of None \<Rightarrow> [] | Some x \<Rightarrow> x)"

definition collect_labels :: "jstr option list \<Rightarrow> jstr list" where
  \<comment> \<open>\<open>if (label) varas.push(label.trim())\<close> over the options in order\<close>
  "collect_labels ls = [js_trim l. Some l \<leftarrow> ls, l \<noteq> []]"

definition has_text_str :: "jstr \<Rightarrow> jstr \<Rightarrow> bool" where
  \<comment> \<open>\<open>:has-text("s")\<close> and \<open>filter({hasText: s})\<close>: case-insensitive substring\<close>
  "has_text_str label t \<longleftrightarrow> js_includes (js_lower t) (js_lower label)"

definition re_special :: "char \<Rightarrow> bool" where
  \<comment> \<open>the class \<open>[.*+?^${}()|[\]\\]\<close>\<close>
  "re_special c \<longleftrightarrow> c \<in> set ''.*+?^${}()|[]'' \<or> c = CHR 0x5C"

definition escape_reg_exp :: "jstr \<Rightarrow> jstr" where
  \<comment> \<open>\<open>s.replace(/[.*+?^${}()|[\]\\]/g, '\\$&')\<close>\<close>
  "escape_reg_exp s = concat (map (\<lambda>c. if re_special c then [CHR 0x5C, c] else [c]) s)"

fun re_literal :: "jstr \<Rightarrow> jstr option" where
  \<comment> \<open>the string a pattern of plain characters and escaped metacharacters matches;
      \<open>None\<close> for a pattern with an unescaped metacharacter or another escape\<close>
  "re_literal [] = Some []"
| "re_literal (c # cs) =
     (if c = CHR 0x5C then
        (case cs of [] \<Rightarrow> None
         | d # ds \<Rightarrow> if re_special d then map_option (Cons d) (re_literal ds) else None)
      else if re_special c then None else map_option (Cons c) (re_literal cs))"

definition splits :: "'a list \<Rightarrow> ('a list \<times> 'a list) list" where
  "splits xs = map (\<lambda>i. (take i xs, drop i xs)) [0..<Suc (length xs)]"

definition re_exact_ci :: "jstr \<Rightarrow> jstr \<Rightarrow> bool" where
  \<comment> \<open>\<open>/^\s*E\s*$/i\<close> tested on a text, for \<open>E\<close> matching the literal \<open>lit\<close>\<close>
  "re_exact_ci lit t \<longleftrightarrow>
     list_ex (\<lambda>(pre, rest). list_all js_is_space pre \<and>
        list_ex (\<lambda>(mid, post). list_all js_is_space post \<and> js_lower mid = js_lower lit) (splits rest))
       (splits t)"

definition exact_matcher :: "jstr \<Rightarrow> jstr \<Rightarrow> bool" where
  \<comment> \<open>\<open>new RegExp(`^\\s*${escapeRegExp(text)}\\s*$`, 'i')\<close> of \<open>clickMatOptionByText\<close>\<close>
  "exact_matcher text =
     (case re_literal (escape_reg_exp text) of Some lit \<Rightarrow> re_exact_ci lit | None \<Rightarrow> (\<lambda>_. False))"

definition pick_first :: "(jstr \<Rightarrow> bool) \<Rightarrow> jstr option list \<Rightarrow> nat option" where
  \<comment> \<open>\<open>.first()\<close> of the options whose text the filter accepts\<close>
  "pick_first m opts = first_index (\<lambda>x. m (opt_text x)) opts"

section \<open>The selection dialog\<close>

datatype ui_target =
  GotoStart | LoadDom | LoadIdle | TrtLink | PautaCard | UnitButtonVisible | UnitButtonClick | OrgaoTitle
  | TipoSelect | MunicipioSelect | OrgaoSelect | SelectScroll | PanelVisible | PanelHidden
  | OrgaoPresent | OrgaoEnabled | ConfirmVisible | ConfirmHandle | ConfirmEnabled | ConfirmClick | EscapeKey
  | CancelClick

record 'w unit_ui =
  ui_step :: "ui_target \<Rightarrow> 'w \<Rightarrow> unit outcome \<times> 'w"
  \<comment> \<open>one awaited wait, click or key press on a fixed locator\<close>
  ui_options :: "ui_target \<Rightarrow> 'w \<Rightarrow> jstr option list outcome \<times> 'w"
  \<comment> \<open>the texts of the options of the panel the given select opened\<close>
  ui_click_option :: "ui_target \<Rightarrow> nat \<Rightarrow> 'w \<Rightarrow> unit outcome \<times> 'w"

definition ui :: "'w unit_ui \<Rightarrow> ui_target \<Rightarrow> 'w sess \<Rightarrow> unit outcome \<times> 'w sess" where
  "ui U t = run (ui_step U t)"

definition tipo_label :: jstr where
  \<comment> \<open>the type of unit, with its accented e and ordinal indicator in Latin-1\<close>
  "tipo_label = ''Audi'' @ [CHR 0xEA] @ ''ncias 1'' @ [CHR 0xBA] @ '' grau''"

definition municipio_label :: jstr where
  "municipio_label = ''S'' @ [CHR 0xE3] @ ''o Paulo - Zonas Central, Norte e Oeste''"

definition timeout_error :: js_error where
  "timeout_error = JsError ''Timeout 20000ms exceeded''"

definition click_first :: "'w unit_ui \<Rightarrow> ui_target \<Rightarrow> (jstr \<Rightarrow> bool) \<Rightarrow> 'w sess \<Rightarrow> unit outcome \<times> 'w sess" where
  \<comment> \<open>\<open>....filter(...).first()\<close> awaited and clicked: with no match the wait times out\<close>
  "click_first U sel m s =
     then_o (run (ui_options U sel) s) (\<lambda>opts s1.
       case pick_first m opts of
         None \<Rightarrow> (Inl timeout_error, s1)
       | Some i \<Rightarrow> run (ui_click_option U sel i) s1)"

definition click_strict :: "'w unit_ui \<Rightarrow> ui_target \<Rightarrow> (jstr \<Rightarrow> bool) \<Rightarrow> 'w sess \<Rightarrow> unit outcome \<times> 'w sess" where
  \<comment> \<open>a locator clicked without \<open>.first()\<close>: strict mode rejects two matches\<close>
  "click_strict U sel m s =
     then_o (run (ui_options U sel) s) (\<lambda>opts s1.
       case filter (\<lambda>i. m (opt_text (opts ! i))) [0..<length opts] of
         [] \<Rightarrow> (Inl timeout_error, s1)
       | [i] \<Rightarrow> run (ui_click_option U sel i) s1
       | _ \<Rightarrow> (Inl (JsError ''strict mode violation''), s1))"

definition abrir_jte :: "'w page \<Rightarrow> 'w unit_ui \<Rightarrow> 'w sess \<Rightarrow> unit outcome \<times> 'w sess" where
  \<comment> \<open>\<open>abrirJTeSelecionarTRT2\<close>: the link's wait and click run in \<open>retryOperation\<close>\<close>
  "abrir_jte P U s =
     then_o (ui U GotoStart s) (\<lambda>_ s1.
     then_o (ui U LoadDom s1) (\<lambda>_ s2.
     then_o (retry_operation P (ui U TrtLink) 5 1200 (sleep P 2500 s2)) (\<lambda>_ s3.
     then_o (ui U LoadIdle s3) (\<lambda>_ s4. (Inr (), sleep P 800 s4)))))"

definition abrir_modulo_pauta :: "'w page \<Rightarrow> 'w unit_ui \<Rightarrow> 'w sess \<Rightarrow> unit outcome \<times> 'w sess" where
  "abrir_modulo_pauta P U s =
     then_o (retry_operation P (ui U PautaCard) 5 1200 s) (\<lambda>_ s1.
     then_o (ui U LoadIdle s1) (\<lambda>_ s2. (Inr (), sleep P 800 s2)))"

definition listar_varas :: "'w page \<Rightarrow> 'w unit_ui \<Rightarrow> 'w sess \<Rightarrow> jstr list outcome \<times> 'w sess" where
  \<comment> \<open>both variants: open the dialog, choose type and city, read the units' option
      labels, then \<open>Escape\<close> and \<open>Cancelar\<close> with their rejections caught\<close>
  "listar_varas P U s =
     then_o (ui U UnitButtonVisible s) (\<lambda>_ s.
     then_o (ui U UnitButtonClick s) (\<lambda>_ s.
     then_o (ui U OrgaoTitle s) (\<lambda>_ s.
     then_o (ui U TipoSelect s) (\<lambda>_ s.
     then_o (click_first U TipoSelect (has_text_str tipo_label) s) (\<lambda>_ s.
     then_o (ui U MunicipioSelect (sleep P 200 s)) (\<lambda>_ s.
     then_o (click_strict U MunicipioSelect (has_text_str municipio_label) s) (\<lambda>_ s.
     then_o (ui U OrgaoEnabled (sleep P 200 s)) (\<lambda>_ s.
     then_o (ui U OrgaoSelect s) (\<lambda>_ s.
     then_o (run (ui_options U OrgaoSelect) s) (\<lambda>opts s.
       (Inr (collect_labels opts), snd (ui U CancelClick (snd (ui U EscapeKey s))))))))))))))"

definition selecionar_unidade_a :: "'w page \<Rightarrow> 'w unit_ui \<Rightarrow> int \<Rightarrow> jstr \<Rightarrow> 'w sess \<Rightarrow> unit outcome \<times> 'w sess" where
  \<comment> \<open>the first variant: the unit's option is \<open>filter({hasText: varaLabel}).first()\<close>,
      and the reset to today's date is awaited without a catch\<close>
  "selecionar_unidade_a P U hoje vara_label s0 =
     then_o (ui U UnitButtonClick (fechar_overlays P s0)) (\<lambda>_ s.
     then_o (ui U OrgaoTitle s) (\<lambda>_ s.
     then_o (ui U TipoSelect s) (\<lambda>_ s.
     then_o (click_first U TipoSelect (has_text_str tipo_label) s) (\<lambda>_ s.
     then_o (ui U MunicipioSelect (sleep P 200 s)) (\<lambda>_ s.
     then_o (click_strict U MunicipioSelect (has_text_str municipio_label) s) (\<lambda>_ s.
     then_o (ui U OrgaoEnabled (sleep P 200 s)) (\<lambda>_ s.
     then_o (ui U OrgaoSelect s) (\<lambda>_ s.
     then_o (click_first U OrgaoSelect (has_text_str vara_label) s) (\<lambda>_ s.
     then_o (ui U LoadIdle (snd (ui U ConfirmClick s))) (\<lambda>_ s.
     then_o (selecionar_data_calendario P (get_today_br hoje) 3 (sleep P 700 s)) (\<lambda>_ s.
       (Inr (), s))))))))))))"

definition open_mat_select :: "'w unit_ui \<Rightarrow> ui_target \<Rightarrow> 'w sess \<Rightarrow> unit outcome \<times> 'w sess" where
  "open_mat_select U sel s =
     then_o (ui U sel (snd (ui U SelectScroll s))) (\<lambda>_ s1. ui U PanelVisible s1)"

definition click_mat_option_by_text ::
  "'w unit_ui \<Rightarrow> ui_target \<Rightarrow> jstr \<Rightarrow> bool \<Rightarrow> 'w sess \<Rightarrow> unit outcome \<times> 'w sess" where
  \<comment> \<open>\<open>opts?.exact === false\<close> selects the plain string, otherwise the anchored pattern\<close>
  "click_mat_option_by_text U sel text exact s =
     then_o (ui U PanelVisible s) (\<lambda>_ s1.
     then_o (click_first U sel (if exact then exact_matcher text else has_text_str text) s1) (\<lambda>_ s2.
       (Inr (), snd (ui U PanelHidden s2))))"

definition mat_select_choose ::
  "'w page \<Rightarrow> 'w unit_ui \<Rightarrow> ui_target \<Rightarrow> jstr \<Rightarrow> bool \<Rightarrow> 'w sess \<Rightarrow> unit outcome \<times> 'w sess" where
  "mat_select_choose P U sel text exact s =
     then_o (open_mat_select U sel s) (\<lambda>_ s1.
     then_o (click_mat_option_by_text U sel text exact s1) (\<lambda>_ s2. (Inr (), sleep P 150 s2)))"

definition wait_mat_select_enabled :: "'w unit_ui \<Rightarrow> 'w sess \<Rightarrow> unit outcome \<times> 'w sess" where
  "wait_mat_select_enabled U s = then_o (ui U OrgaoPresent s) (\<lambda>_ s1. ui U OrgaoEnabled s1)"

definition selecionar_unidade_b :: "'w page \<Rightarrow> 'w unit_ui \<Rightarrow> int \<Rightarrow> jstr \<Rightarrow> 'w sess \<Rightarrow> unit outcome \<times> 'w sess" where
  \<comment> \<open>the second variant: exact option patterns; \<open>await confirmar.elementHandle()\<close> is an
      argument of \<open>waitForFunction\<close>, evaluated before its \<open>.catch\<close>, so only the enabled
      wait, the click and the load wait are caught; the reset to today's date by the
      stepper, whose result is only logged\<close>
  "selecionar_unidade_b P U hoje vara_label s0 =
     then_o (ui U UnitButtonVisible (fechar_overlays P s0)) (\<lambda>_ s.
     then_o (ui U UnitButtonClick s) (\<lambda>_ s.
     then_o (ui U OrgaoTitle s) (\<lambda>_ s.
     then_o (mat_select_choose P U TipoSelect tipo_label True s) (\<lambda>_ s.
     then_o (mat_select_choose P U MunicipioSelect municipio_label True s) (\<lambda>_ s.
     then_o (wait_mat_select_enabled U s) (\<lambda>_ s.
     then_o (mat_select_choose P U OrgaoSelect vara_label True s) (\<lambda>_ s.
     then_o (ui U ConfirmVisible s) (\<lambda>_ s.
     then_o (ui U ConfirmHandle s) (\<lambda>_ s.
       (let s1 = snd (ui U LoadIdle (snd (ui U ConfirmClick (snd (ui U ConfirmEnabled s)))))
        in (Inr (), snd (selecionar_data_botoes P (get_today_br hoje) 1 (sleep P 700 s1)))))))))))))"

section \<open>Lemmas on the matchers\<close>

lemma first_index_Some:
  "first_index p xs = Some i \<Longrightarrow> i < length xs \<and> p (xs ! i) \<and> (\<forall>j<i. \<not> p (xs ! j))"
proof (induction xs arbitrary: i)
  case (Cons x xs)
  then show ?case
    by (cases i) (auto simp: nth_Cons' less_Suc_eq_0_disj split: if_splits)
qed simp

lemma first_index_None: "first_index p xs = None \<longleftrightarrow> (\<forall>x\<in>set xs. \<not> p x)"
  by (induction xs) auto

lemma first_index_exists: "x \<in> set xs \<Longrightarrow> p x \<Longrightarrow> \<exists>i. first_index p xs = Some i"
  using first_index_None [of p xs] by (cases "first_index p xs") auto

lemma re_literal_escape: "re_literal (escape_reg_exp s) = Some s"
  by (induction s) (auto simp: escape_reg_exp_def re_special_def)

lemma in_splits: "(a, b) \<in> set (splits xs) \<longleftrightarrow> a @ b = xs"
  by (auto simp: splits_def image_iff intro!: bexI [where x = "length a"])

lemma re_exact_ci_iff:
  "re_exact_ci lit t \<longleftrightarrow>
     (\<exists>pre mid post. t = pre @ mid @ post \<and> list_all js_is_space pre \<and> list_all js_is_space post \<and>
        js_lower mid = js_lower lit)"
  unfolding re_exact_ci_def list_ex_iff
proof
  assume "\<exists>x\<in>set (splits t). case x of (pre, rest) \<Rightarrow> list_all js_is_space pre \<and>
            (\<exists>x\<in>set (splits rest). case x of (mid, post) \<Rightarrow>
               list_all js_is_space post \<and> js_lower mid = js_lower lit)"
  then obtain pre rest mid post where "(pre, rest) \<in> set (splits t)" "list_all js_is_space pre"
      "(mid, post) \<in> set (splits rest)" "list_all js_is_space post" "js_lower mid = js_lower lit"
    by auto
  then show "\<exists>pre mid post. t = pre @ mid @ post \<and> list_all js_is_space pre \<and> list_all js_is_space post \<and>
               js_lower mid = js_lower lit"
    by (auto simp: in_splits)
next
  assume "\<exists>pre mid post. t = pre @ mid @ post \<and> list_all js_is_space pre \<and> list_all js_is_space post \<and>
            js_lower mid = js_lower lit"
  then obtain pre mid post where "t = pre @ mid @ post" "list_all js_is_space pre" "list_all js_is_space post"
      "js_lower mid = js_lower lit"
    by blast
  then show "\<exists>x\<in>set (splits t). case x of (pre, rest) \<Rightarrow> list_all js_is_space pre \<and>
               (\<exists>x\<in>set (splits rest). case x of (mid, post) \<Rightarrow>
                  list_all js_is_space post \<and> js_lower mid = js_lower lit)"
    by (intro bexI [of _ "(pre, mid @ post)"]) (auto simp: in_splits intro!: bexI [of _ "(mid, post)"])
qed

lemma js_is_space_lower [simp]: "js_is_space (js_lower_char c) = js_is_space c"
  by (auto simp: js_lower_char_def js_is_space_def Let_def)

lemma js_trim_decomp:
  "\<exists>pre post. s = pre @ js_trim s @ post \<and> list_all js_is_space pre \<and> list_all js_is_space post"
proof -
  define r where "r = dropWhile js_is_space s"
  have s: "s = takeWhile js_is_space s @ r" by (simp add: r_def)
  have t: "js_trim s = rev (dropWhile js_is_space (rev r))" by (simp add: js_trim_def r_def)
  have "rev r = takeWhile js_is_space (rev r) @ dropWhile js_is_space (rev r)" by simp
  then have "r = js_trim s @ rev (takeWhile js_is_space (rev r))" using t by (metis rev_append rev_rev_ident)
  with s show ?thesis
    by (intro exI [of _ "takeWhile js_is_space s"] exI [of _ "rev (takeWhile js_is_space (rev r))"])
       (auto simp: list_all_iff dest: set_takeWhileD)
qed

lemma js_trim_ends_nonspace:
  assumes "js_trim s \<noteq> []"
  shows "\<not> js_is_space (hd (js_trim s)) \<and> \<not> js_is_space (last (js_trim s))"
proof -
  define a where "a = dropWhile js_is_space s"
  define b where "b = dropWhile js_is_space (rev a)"
  have t: "js_trim s = rev b" by (simp add: js_trim_def a_def b_def)
  with assms have bne: "b \<noteq> []" by auto
  then have "\<not> js_is_space (hd b)" unfolding b_def by (metis dropWhile_eq_Nil_conv hd_dropWhile)
  then have l: "\<not> js_is_space (last (js_trim s))" using bne by (simp add: t last_rev)
  have "last b = last (rev a)" using bne unfolding b_def by (metis dropWhile_eq_Nil_conv dropWhile_last)
  moreover from bne have "a \<noteq> []" by (auto simp: b_def)
  ultimately have "\<not> js_is_space (hd (rev b))"
    by (metis a_def dropWhile_eq_Nil_conv hd_dropWhile hd_rev last_rev)
  with l t show ?thesis by simp
qed

lemma js_trim_strip:
  assumes "list_all js_is_space pre" and "list_all js_is_space post"
    and "mid = [] \<or> \<not> js_is_space (hd mid) \<and> \<not> js_is_space (last mid)"
  shows "js_trim (pre @ mid @ post) = mid"
proof (cases mid rule: rev_cases)
  case Nil
  with assms show ?thesis
    by (auto simp: js_trim_def dropWhile_append list_all_iff dropWhile_eq_Nil_conv dest: set_dropWhileD)
next
  case (snoc ms m)
  then obtain m0 ms0 where c: "mid = m0 # ms0" by (cases "ms @ [m]") auto
  have "\<not> js_is_space (hd mid)" "\<not> js_is_space (last mid)" using assms(3) snoc by auto
  then have h: "\<not> js_is_space m0" "\<not> js_is_space m" using snoc c by (metis list.sel(1), simp)
  have "dropWhile js_is_space (pre @ mid @ post) = mid @ post"
    using assms(1) h(1) c by (simp add: dropWhile_append list_all_iff)
  moreover have "dropWhile js_is_space (rev post @ rev mid) = rev mid"
    using assms(2) h(2) snoc by (simp add: dropWhile_append list_all_iff)
  ultimately show ?thesis by (simp add: js_trim_def)
qed

lemma re_exact_ci_trimmed:
  assumes "js_trim label = label"
  shows "re_exact_ci label t \<longleftrightarrow> js_lower (js_trim t) = js_lower label"
proof
  assume "js_lower (js_trim t) = js_lower label"
  with js_trim_decomp [of t] show "re_exact_ci label t" by (auto simp: re_exact_ci_iff)
next
  assume "re_exact_ci label t"
  then obtain pre mid post where t: "t = pre @ mid @ post" and sp: "list_all js_is_space pre"
      "list_all js_is_space post" and m: "js_lower mid = js_lower label"
    by (auto simp: re_exact_ci_iff)
  have len: "length mid = length label" using arg_cong [OF m, of length] by (simp add: js_lower_def)
  have "mid = [] \<or> \<not> js_is_space (hd mid) \<and> \<not> js_is_space (last mid)"
  proof (cases "label = []")
    case True
    with len show ?thesis by simp
  next
    case False
    with assms js_trim_ends_nonspace [of label] have l: "\<not> js_is_space (hd label)" "\<not> js_is_space (last label)"
      by auto
    from False len have ne: "mid \<noteq> []" by auto
    from m ne False have "js_lower_char (hd mid) = js_lower_char (hd label)"
      "js_lower_char (last mid) = js_lower_char (last label)"
      by (metis hd_map js_lower_def, metis last_map js_lower_def)
    with l show ?thesis by (metis js_is_space_lower)
  qed
  with sp t have "js_trim t = mid" by (simp add: js_trim_strip)
  with m show "js_lower (js_trim t) = js_lower label" by simp
qed

lemma collect_labels_mem:
  "v \<in> set (collect_labels ls) \<longleftrightarrow> (\<exists>l. Some l \<in> set ls \<and> l \<noteq> [] \<and> v = js_trim l)"
  by (auto simp: collect_labels_def split: option.splits)

lemma has_text_str_refl [simp]: "has_text_str l l"
  by (simp add: has_text_str_def)

lemma exact_matcher_re: "exact_matcher text = re_exact_ci text"
  by (simp add: exact_matcher_def re_literal_escape)

lemma exact_matcher_refl [simp]: "exact_matcher l l"
  unfolding exact_matcher_re re_exact_ci_iff by (rule exI [of _ "[]"], rule exI [of _ l]) simp

lemma collect_labels_trimmed: "v \<in> set (collect_labels ls) \<Longrightarrow> js_trim v = v"
  by (auto simp: collect_labels_mem js_trim_idem)

lemma pick_first_Some:
  "pick_first m opts = Some i \<Longrightarrow> i < length opts \<and> m (opt_text (opts ! i)) \<and> (\<forall>j<i. \<not> m (opt_text (opts ! j)))"
  unfolding pick_first_def by (rule first_index_Some)

lemma pick_first_exact_listed:
  assumes "v \<in> set (collect_labels ls)"
  shows "\<exists>i. pick_first (exact_matcher v) ls = Some i"
proof -
  from assms obtain l where l: "Some l \<in> set ls" "v = js_trim l" by (auto simp: collect_labels_mem)
  have "exact_matcher v (opt_text (Some l))"
    using re_exact_ci_trimmed [OF collect_labels_trimmed [OF assms]] l by (simp add: exact_matcher_re opt_text_def)
  with l(1) show ?thesis unfolding pick_first_def by (rule first_index_exists)
qed

section \<open>Steps that always resolve\<close>

lemma ui_always: "\<forall>t w. fst (ui_step U t w) = Inr () \<Longrightarrow> always (ui U t) ()"
  by (simp add: ui_def always_run)

lemma click_first_always:
  fixes U :: "'w unit_ui"
  assumes "\<forall>sel i w. fst (ui_click_option U sel i w) = Inr ()"
    and "\<forall>w. \<exists>os w'. ui_options U sel w = (Inr os, w') \<and> pick_first m os \<noteq> None"
  shows "always (click_first U sel m) ()"
  unfolding always_def
proof
  fix s :: "'w sess"
  obtain os w' where o: "ui_options U sel (world s) = (Inr os, w')" and p: "pick_first m os \<noteq> None"
    using assms(2) by blast
  then obtain i where "pick_first m os = Some i" by blast
  with o assms(1) show "\<exists>s'. click_first U sel m s = (Inr (), s')"
    by (simp add: click_first_def then_o_def run_def)
qed

lemma click_strict_always:
  fixes U :: "'w unit_ui"
  assumes "\<forall>sel i w. fst (ui_click_option U sel i w) = Inr ()"
    and "\<forall>w. \<exists>os w' i. ui_options U sel w = (Inr os, w') \<and> filter (\<lambda>i. m (opt_text (os ! i))) [0..<length os] = [i]"
  shows "always (click_strict U sel m) ()"
  unfolding always_def
proof
  fix s :: "'w sess"
  obtain os w' i where "ui_options U sel (world s) = (Inr os, w')"
      "filter (\<lambda>i. m (opt_text (os ! i))) [0..<length os] = [i]"
    using assms(2) by blast
  with assms(1) show "\<exists>s'. click_strict U sel m s = (Inr (), s')"
    by (simp add: click_strict_def then_o_def run_def)
qed

lemma mat_select_choose_always:
  assumes "\<forall>t w. fst (ui_step U t w) = Inr ()" and "\<forall>sel i w. fst (ui_click_option U sel i w) = Inr ()"
    and "\<forall>w. \<exists>os w'. ui_options U sel w = (Inr os, w') \<and> pick_first (exact_matcher text) os \<noteq> None"
  shows "always (mat_select_choose P U sel text True) ()"
  unfolding mat_select_choose_def open_mat_select_def click_mat_option_by_text_def
  apply (rule always_then_o)
   apply (rule always_then_o, rule always_pre [where h = "\<lambda>s. snd (ui U SelectScroll s)"], rule ui_always [OF assms(1)])
   apply (rule ui_always [OF assms(1)])
  apply (rule always_then_o)
   apply (rule always_then_o, rule ui_always [OF assms(1)])
   apply (rule always_then_o, simp only: if_True, rule click_first_always [OF assms(2,3)])
   apply (rule always_return)
  apply (rule always_return)
  done

lemma wait_mat_select_enabled_always:
  "\<forall>t w. fst (ui_step U t w) = Inr () \<Longrightarrow> always (wait_mat_select_enabled U) ()"
  unfolding wait_mat_select_enabled_def by (rule always_then_o; rule ui_always)

definition dialog_ui :: "jstr option list \<Rightarrow> unit unit_ui" where
  \<comment> \<open>a dialog whose steps resolve, whose type and city panels hold the expected option
      and whose unit panel holds \<open>ls\<close>\<close>
  "dialog_ui ls =
     \<lparr>ui_step = (\<lambda>t w. (Inr (), w)),
      ui_options = (\<lambda>sel w. (Inr (if sel = TipoSelect then [Some tipo_label]
                               else if sel = MunicipioSelect then [Some municipio_label] else ls), w)),
      ui_click_option = (\<lambda>sel i w. (Inr (), w))\<rparr>"

definition recording_ui :: "(ui_target \<Rightarrow> jstr option list) \<Rightarrow> (ui_target \<times> nat) list unit_ui" where
  \<comment> \<open>a dialog whose fixed steps resolve, whose panels show \<open>opts sel\<close> and which records
      every option click, in order, as its world\<close>
  "recording_ui opts =
     \<lparr>ui_step = (\<lambda>t w. (Inr (), w)), ui_options = (\<lambda>sel w. (Inr (opts sel), w)),
      ui_click_option = (\<lambda>sel i w. (Inr (), w @ [(sel, i)]))\<rparr>"

definition unit_panel_12_2 :: "ui_target \<Rightarrow> jstr option list" where
  \<comment> \<open>the type and city panels with their option, the unit panel listing \<open>12a VT\<close> first\<close>
  "unit_panel_12_2 sel =
     (if sel = TipoSelect then [Some tipo_label] else if sel = MunicipioSelect then [Some municipio_label]
      else [Some ''12a VT'', Some ''2a VT''])"

lemma has_text_str_trim: "has_text_str (js_trim l) l"
proof -
  obtain pre post where "l = pre @ js_trim l @ post" using js_trim_decomp [of l] by blast
  then have "map js_lower_char l = map js_lower_char pre @ map js_lower_char (js_trim l) @ map js_lower_char post"
    by (metis map_append)
  then show ?thesis by (simp add: has_text_str_def js_lower_def js_includes_def sublist_appendI)
qed

lemma collect_labels_eq: "collect_labels ls = map js_trim (filter (\<lambda>t. t \<noteq> []) (map opt_text ls))"
  by (induction ls) (auto simp: collect_labels_def opt_text_def split: option.splits)

section \<open>Properties of the selector\<close>

text \<open>C24: for a unit label without surrounding white space, the second variant's option
  pattern \<open>new RegExp(`^\\s*${escapeRegExp(label)}\\s*$`, 'i')\<close> accepts exactly the
  option texts that equal the label after trimming, ignoring letter case, whatever
  metacharacters the label holds.\<close>

theorem exact_matcher_trimmed:
  assumes "js_trim label = label"
  shows "exact_matcher label t \<longleftrightarrow> js_lower (js_trim t) = js_lower label"
  using re_exact_ci_trimmed [OF assms] by (simp add: exact_matcher_re)

theorem exact_matcher_trimmed_witness:
  "js_trim ''1a VT (SP)'' = ''1a VT (SP)'' \<and> exact_matcher ''1a VT (SP)'' '' 1A vt (sp) ''"
proof -
  have "js_lower ''1A vt (sp)'' = js_lower ''1a VT (SP)''" by code_simp
  then show ?thesis
    using exact_matcher_trimmed [of "''1a VT (SP)''" "'' 1A vt (sp) ''"] by (simp add: js_trim_def js_is_space_def)
qed

text \<open>C25: when every step of the dialog resolves, the type and city options are found
  (the city exactly once) and the unit panel shows the option texts \<open>ls\<close>,
  \<open>listarVaras\<close> resolves to the trimmed non-empty texts of \<open>ls\<close> in order.\<close>

theorem listar_varas_labels:
  assumes "\<forall>t w. fst (ui_step U t w) = Inr ()" and "\<forall>sel i w. fst (ui_click_option U sel i w) = Inr ()"
    and "\<forall>w. \<exists>os w'. ui_options U TipoSelect w = (Inr os, w') \<and> pick_first (has_text_str tipo_label) os \<noteq> None"
    and "\<forall>w. \<exists>os w' i. ui_options U MunicipioSelect w = (Inr os, w') \<and>
           filter (\<lambda>i. has_text_str municipio_label (opt_text (os ! i))) [0..<length os] = [i]"
    and "\<forall>w. fst (ui_options U OrgaoSelect w) = Inr ls"
  shows "\<exists>s'. listar_varas P U s = (Inr (map js_trim (filter (\<lambda>t. t \<noteq> []) (map opt_text ls))), s')"
proof -
  have "always (listar_varas P U) (collect_labels ls)"
    unfolding listar_varas_def
    apply (rule always_then_o, rule ui_always [OF assms(1)])+
    apply (rule always_then_o, rule click_first_always [OF assms(2,3)])
    apply (rule always_then_o, rule always_pre [where h = "sleep P 200"], rule ui_always [OF assms(1)])
    apply (rule always_then_o, rule click_strict_always [OF assms(2,4)])
    apply (rule always_then_o, rule always_pre [where h = "sleep P 200"], rule ui_always [OF assms(1)])
    apply (rule always_then_o, rule ui_always [OF assms(1)])
    apply (rule always_then_o, rule always_run [OF assms(5)])
    apply (rule always_return)
    done
  then show ?thesis by (simp add: always_def collect_labels_eq)
qed

theorem listar_varas_labels_witness:
  "\<exists>s'. listar_varas inert_page (dialog_ui [Some ''  1a VT '', None, Some [], Some ''2a VT''])
          \<lparr>world = (), clock = 0\<rparr> = (Inr [''1a VT'', ''2a VT''], s')"
  using listar_varas_labels [of "dialog_ui [Some ''  1a VT '', None, Some [], Some ''2a VT'']"
      "[Some ''  1a VT '', None, Some [], Some ''2a VT'']" inert_page "\<lparr>world = (), clock = 0\<rparr>"]
  by (simp add: dialog_ui_def pick_first_def opt_text_def js_trim_def js_is_space_def)

text \<open>C23: every unit \<open>listarVaras\<close> returns can be selected by the second variant's
  \<open>selecionarUnidade\<close> from the same unit panel, when the other steps of the dialog
  resolve and the type and city options are present.\<close>

theorem selecionar_unidade_b_listed:
  assumes "\<forall>t w. fst (ui_step U t w) = Inr ()" and "\<forall>sel i w. fst (ui_click_option U sel i w) = Inr ()"
    and "\<forall>w. \<exists>os w'. ui_options U TipoSelect w = (Inr os, w') \<and> pick_first (exact_matcher tipo_label) os \<noteq> None"
    and "\<forall>w. \<exists>os w'. ui_options U MunicipioSelect w = (Inr os, w') \<and>
           pick_first (exact_matcher municipio_label) os \<noteq> None"
    and "\<forall>w. \<exists>w'. ui_options U OrgaoSelect w = (Inr ls, w')"
    and "v \<in> set (collect_labels ls)"
  shows "\<exists>s'. selecionar_unidade_b P U hoje v s = (Inr (), s')"
proof -
  have org: "\<forall>w. \<exists>os w'. ui_options U OrgaoSelect w = (Inr os, w') \<and> pick_first (exact_matcher v) os \<noteq> None"
    using assms(5) pick_first_exact_listed [OF assms(6)] by fastforce
  have "always (selecionar_unidade_b P U hoje v) ()"
    unfolding selecionar_unidade_b_def Let_def
    apply (rule always_then_o, rule always_pre [where h = "fechar_overlays P"], rule ui_always [OF assms(1)])
    apply (rule always_then_o, rule ui_always [OF assms(1)])+
    apply (rule always_then_o, rule mat_select_choose_always [OF assms(1,2,3)])
    apply (rule always_then_o, rule mat_select_choose_always [OF assms(1,2,4)])
    apply (rule always_then_o, rule wait_mat_select_enabled_always [OF assms(1)])
    apply (rule always_then_o, rule mat_select_choose_always [OF assms(1,2) org])
    apply (rule always_then_o, rule ui_always [OF assms(1)])+
    apply (rule always_return)
    done
  then show ?thesis by (simp add: always_def)
qed

theorem selecionar_unidade_b_listed_witness:
  "\<exists>s'. selecionar_unidade_b inert_page (dialog_ui [None, Some ''  1a VT '']) 20514 ''1a VT''
          \<lparr>world = (), clock = 0\<rparr> = (Inr (), s')"
  using selecionar_unidade_b_listed [where U = "dialog_ui [None, Some ''  1a VT '']"
      and ls = "[None, Some ''  1a VT '']" and v = "''1a VT''" and P = inert_page and hoje = 20514
      and s = "\<lparr>world = (), clock = 0\<rparr>"]
  by (simp add: dialog_ui_def pick_first_def opt_text_def collect_labels_def js_trim_def js_is_space_def)

text \<open>C21: the first variant's \<open>selecionarUnidade\<close> clicks, in the unit panel, the first
  option whose text contains the unit label ignoring case: for a unit listed at
  position \<open>k\<close>, that is its own option or an earlier one containing it (another unit,
  such as \<open>12a VT\<close> for \<open>2a VT\<close>); after the clicks on the type, city and unit
  options it awaits the reset to today's date without a catch.\<close>

theorem selecionar_unidade_a_clicks_first_containing:
  assumes "\<forall>ms w. elapse P ms w = w"
    and "pick_first (has_text_str tipo_label) (opts TipoSelect) = Some t"
    and "filter (\<lambda>i. has_text_str municipio_label (opt_text (opts MunicipioSelect ! i)))
           [0..<length (opts MunicipioSelect)] = [m]"
    and "k < length (opts OrgaoSelect)" and "opts OrgaoSelect ! k = Some l" and "v = js_trim l"
  shows "\<exists>i s1. i \<le> k \<and> has_text_str v (opt_text (opts OrgaoSelect ! i)) \<and>
           (\<forall>j<i. \<not> has_text_str v (opt_text (opts OrgaoSelect ! j))) \<and>
           world s1 = world (fechar_overlays P s0) @ [(TipoSelect, t), (MunicipioSelect, m), (OrgaoSelect, i)] \<and>
           selecionar_unidade_a P (recording_ui opts) hoje v s0 =
             then_o (selecionar_data_calendario P (get_today_br hoje) 3 (sleep P 700 s1)) (\<lambda>_ s. (Inr (), s))"
proof -
  have own: "has_text_str v (opt_text (opts OrgaoSelect ! k))"
    using assms(5,6) by (simp add: opt_text_def has_text_str_trim)
  then obtain i where i: "pick_first (has_text_str v) (opts OrgaoSelect) = Some i"
    using assms(4) unfolding pick_first_def by (metis first_index_exists nth_mem)
  have first: "i < length (opts OrgaoSelect) \<and> has_text_str v (opt_text (opts OrgaoSelect ! i)) \<and>
      (\<forall>j<i. \<not> has_text_str v (opt_text (opts OrgaoSelect ! j)))"
    using pick_first_Some [OF i] .
  with own have "i \<le> k" by (meson not_le)
  moreover have "selecionar_unidade_a P (recording_ui opts) hoje v s0 =
      then_o (selecionar_data_calendario P (get_today_br hoje) 3
        (sleep P 700 ((fechar_overlays P s0)\<lparr>clock := clock (fechar_overlays P s0) + 400,
           world := world (fechar_overlays P s0) @ [(TipoSelect, t), (MunicipioSelect, m), (OrgaoSelect, i)]\<rparr>)))
        (\<lambda>_ s. (Inr (), s))"
    using assms(1-3) i
    by (simp add: selecionar_unidade_a_def recording_ui_def ui_def run_def then_o_def click_first_def
        click_strict_def sleep_def)
  ultimately show ?thesis using first
    by (intro exI [of _ i] exI [of _ "(fechar_overlays P s0)\<lparr>clock := clock (fechar_overlays P s0) + 400,
           world := world (fechar_overlays P s0) @ [(TipoSelect, t), (MunicipioSelect, m), (OrgaoSelect, i)]\<rparr>"]) simp
qed

theorem selecionar_unidade_a_clicks_first_containing_witness:
  "\<exists>s1. world s1 = [(TipoSelect, 0), (MunicipioSelect, 0), (OrgaoSelect, 0)] \<and>
     selecionar_unidade_a inert_page (recording_ui unit_panel_12_2) 20514 ''2a VT'' \<lparr>world = [], clock = 0\<rparr> =
       then_o (selecionar_data_calendario inert_page (get_today_br 20514) 3 (sleep inert_page 700 s1))
         (\<lambda>_ s. (Inr (), s))"
proof -
  have h: "js_lower ''12a VT'' = ''12a vt''" "js_lower ''2a VT'' = ''2a vt''" "js_trim ''2a VT'' = ''2a VT''"
    by code_simp+
  have c0: "has_text_str ''2a VT'' ''12a VT''"
    using h by (simp add: has_text_str_def js_includes_def js_string_simps)
  have t: "pick_first (has_text_str tipo_label) (unit_panel_12_2 TipoSelect) = Some 0"
    by (simp add: unit_panel_12_2_def pick_first_def opt_text_def)
  have m: "filter (\<lambda>i. has_text_str municipio_label (opt_text (unit_panel_12_2 MunicipioSelect ! i)))
           [0..<length (unit_panel_12_2 MunicipioSelect)] = [0]"
    by (simp add: unit_panel_12_2_def opt_text_def)
  obtain i s1 where i: "i \<le> 1" "\<forall>j<i. \<not> has_text_str ''2a VT'' (opt_text (unit_panel_12_2 OrgaoSelect ! j))"
    and w: "world s1 = world (fechar_overlays inert_page \<lparr>world = [], clock = 0\<rparr>) @
              [(TipoSelect, 0), (MunicipioSelect, 0), (OrgaoSelect, i)]"
    and e: "selecionar_unidade_a inert_page (recording_ui unit_panel_12_2) 20514 ''2a VT'' \<lparr>world = [], clock = 0\<rparr> =
       then_o (selecionar_data_calendario inert_page (get_today_br 20514) 3 (sleep inert_page 700 s1))
         (\<lambda>_ s. (Inr (), s))"
    using selecionar_unidade_a_clicks_first_containing [of inert_page unit_panel_12_2 0 0 1 "''2a VT''" "''2a VT''"
        "\<lparr>world = [], clock = 0\<rparr>" 20514] t m h(3)
    by (auto simp: inert_page_def unit_panel_12_2_def)
  have "i = 0" using i c0 by (cases i) (auto simp: unit_panel_12_2_def opt_text_def)
  with w e show ?thesis
    by (intro exI [of _ s1]) (simp add: fechar_overlays_def inert_page_def run_def sleep_def Let_def)
qed

end
