(* ===== verification/Xlsx.thy ===== *)
theory Xlsx
  imports Prelude
begin

text \<open>
  The XLSX sink of the second variant of \<open>src/PAUTA-JRT2.js\<close>: \<open>writeXlsx\<close>
  (lines 764-797). The workbook it builds through ExcelJS is a value here: a record
  \<open>workbook\<close> with its creator, creation time and one worksheet \<open>xlsx_sheet\<close>, whose
  column definitions (\<open>xlsx_column\<close>: header, key, width) and rows of cell values are
  updated the way ExcelJS does on \<open>ws.columns = ...\<close> (the header row is written),
  \<open>ws.addRow(obj)\<close> (one cell per column, read by the column's key) and
  \<open>ws.getColumn(c).width = ...\<close>. \<open>wb.xlsx.writeFile\<close> is file I/O and is not
  modelled; the workbook is what it would serialise.
\<close>

section \<open>Worksheet model\<close>

record xlsx_column =
  xc_header :: jstr
  xc_key :: jstr
  xc_width :: nat

record xlsx_sheet =
  xs_name :: jstr
  xs_columns :: "xlsx_column list"
  xs_rows :: "jstr option list list"
  \<comment> \<open>row 1 (the header row) first; \<open>None\<close> is an empty cell\<close>
  xs_header_bold :: bool
  xs_filter :: "(nat \<times> nat) \<times> (nat \<times> nat)"
  \<comment> \<open>\<open>autoFilter\<close>: from (row, column) to (row, column); \<open>((0, 0), (0, 0))\<close> when unset\<close>

record workbook =
  wb_creator :: jstr
  wb_created :: nat
  wb_sheets :: "xlsx_sheet list"

definition new_sheet :: "jstr \<Rightarrow> xlsx_sheet" where
  \<comment> \<open>\<open>wb.addWorksheet(name)\<close>\<close>
  "new_sheet name = \<lparr>xs_name = name, xs_columns = [], xs_rows = [], xs_header_bold = False,
     xs_filter = ((0, 0), (0, 0))\<rparr>"

definition set_columns :: "xlsx_column list \<Rightarrow> xlsx_sheet \<Rightarrow> xlsx_sheet" where
  \<comment> \<open>\<open>ws.columns = cols\<close> on an empty sheet: the headers become row 1\<close>
  "set_columns cols ws = ws\<lparr>xs_columns := cols, xs_rows := [map (\<lambda>c. Some (xc_header c)) cols]\<rparr>"

definition add_row :: "(jstr \<rightharpoonup> jstr) \<Rightarrow> xlsx_sheet \<Rightarrow> xlsx_sheet" where
  \<comment> \<open>\<open>ws.addRow(obj)\<close>: the cell of each column is \<open>obj[key]\<close>\<close>
  "add_row r ws = ws\<lparr>xs_rows := xs_rows ws @ [map (\<lambda>c. r (xc_key c)) (xs_columns ws)]\<rparr>"

definition cell_text :: "jstr option \<Rightarrow> jstr" where
  \<comment> \<open>\<open>(v === null || v === undefined) ? '' : String(v)\<close>\<close>
  "cell_text v = (case v of None \<Rightarrow> [] | Some s \<Rightarrow> s)"

definition cell_at :: "jstr option list \<Rightarrow> nat \<Rightarrow> jstr" where
  \<comment> \<open>\<open>row.getCell(c).value\<close> read as text, columns numbered from 1\<close>
  "cell_at row c = (if 0 < c \<and> c \<le> length row then cell_text (row ! (c - 1)) else [])"

definition initial_width :: "jstr \<Rightarrow> nat" where
  \<comment> \<open>\<open>Math.max(12, Math.min(40, h.length + 6))\<close>\<close>
  "initial_width h = max 12 (min 40 (length h + 6))"

definition column_of :: "jstr \<Rightarrow> xlsx_column" where
  "column_of h = \<lparr>xc_header = h, xc_key = h, xc_width = initial_width h\<rparr>"

definition fit_width :: "nat \<Rightarrow> nat" where
  \<comment> \<open>\<open>Math.max(12, Math.min(60, maxLen + 2))\<close>\<close>
  "fit_width m = max 12 (min 60 (m + 2))"

definition column_max_len :: "jstr list \<Rightarrow> xlsx_sheet \<Rightarrow> nat \<Rightarrow> nat" where
  \<comment> \<open>\<open>maxLen\<close>: the header's length, raised by every cell of column \<open>c\<close> below row 1\<close>
  "column_max_len headers ws c =
     fold (\<lambda>row m. if m < length (cell_at row c) then length (cell_at row c) else m)
       (tl (xs_rows ws)) (length (headers ! (c - 1)))"

definition fit_column :: "jstr list \<Rightarrow> nat \<Rightarrow> xlsx_sheet \<Rightarrow> xlsx_sheet" where
  \<comment> \<open>one round of \<open>for (let c = 1; c <= headers.length; c++)\<close>\<close>
  "fit_column headers c ws =
     ws\<lparr>xs_columns := (xs_columns ws)[c - 1 := (xs_columns ws ! (c - 1))
                        \<lparr>xc_width := fit_width (column_max_len headers ws c)\<rparr>]\<rparr>"

definition write_xlsx :: "jstr list \<Rightarrow> (jstr \<rightharpoonup> jstr) list \<Rightarrow> nat \<Rightarrow> workbook" where
  \<comment> \<open>the workbook \<open>writeXlsx(filePath, headers, rows)\<close> writes, \<open>agora\<close> being \<open>new Date()\<close>\<close>
  "write_xlsx headers rows agora =
     (let ws1 = set_columns (map column_of headers) (new_sheet ''Pauta'');
          ws2 = fold add_row rows ws1;
          ws3 = ws2\<lparr>xs_header_bold := True, xs_filter := ((1, 1), (1, length headers))\<rparr>;
          ws4 = fold (fit_column headers) [1..<Suc (length headers)] ws3
      in \<lparr>wb_creator = ''JTe Bot'', wb_created = agora, wb_sheets = [ws4]\<rparr>)"

definition max_len_ref :: "jstr list \<Rightarrow> (jstr \<rightharpoonup> jstr) list \<Rightarrow> nat \<Rightarrow> nat" where
  \<comment> \<open>the longest text of column \<open>c\<close> (from 0), header included\<close>
  "max_len_ref headers rows c =
     Max (insert (length (headers ! c)) ((\<lambda>r. length (cell_text (r (headers ! c)))) ` set rows))"

definition filled_sheet :: "jstr list \<Rightarrow> (jstr \<rightharpoonup> jstr) list \<Rightarrow> xlsx_sheet" where
  \<comment> \<open>the sheet before the widths are fitted\<close>
  "filled_sheet hs rows =
     (fold add_row rows (set_columns (map column_of hs) (new_sheet ''Pauta'')))
       \<lparr>xs_header_bold := True, xs_filter := ((1, 1), (1, length hs))\<rparr>"

section \<open>Lemmas\<close>

lemma cell_text_simps [simp]: "cell_text None = []" "cell_text (Some s) = s"
  by (simp_all add: cell_text_def)

lemma fold_add_row:
  "xs_columns (fold add_row rows ws) = xs_columns ws \<and>
   xs_rows (fold add_row rows ws) = xs_rows ws @ map (\<lambda>r. map (\<lambda>c. r (xc_key c)) (xs_columns ws)) rows"
  by (induction rows arbitrary: ws) (simp_all add: add_row_def)

lemma fit_column_rows [simp]: "xs_rows (fit_column hs c ws) = xs_rows ws"
  by (simp add: fit_column_def)

lemma fit_column_cols:
  "xs_columns (fit_column hs c ws) =
     (xs_columns ws)[c - 1 := (xs_columns ws ! (c - 1))\<lparr>xc_width := fit_width (column_max_len hs ws c)\<rparr>]"
  by (simp add: fit_column_def)

lemma column_max_len_rows:
  "xs_rows ws' = xs_rows ws \<Longrightarrow> column_max_len hs ws' c = column_max_len hs ws c"
  by (simp add: column_max_len_def)

lemma fold_fit_columns:
  assumes "distinct cs" and "\<forall>c\<in>set cs. 0 < c \<and> c \<le> length (xs_columns ws)"
  shows "xs_rows (fold (fit_column hs) cs ws) = xs_rows ws \<and>
         length (xs_columns (fold (fit_column hs) cs ws)) = length (xs_columns ws) \<and>
         (\<forall>j < length (xs_columns ws). xs_columns (fold (fit_column hs) cs ws) ! j =
            (if Suc j \<in> set cs then (xs_columns ws ! j)\<lparr>xc_width := fit_width (column_max_len hs ws (Suc j))\<rparr>
             else xs_columns ws ! j))"
  using assms
proof (induction cs arbitrary: ws)
  case Nil
  then show ?case by simp
next
  case (Cons c cs)
  let ?ws1 = "fit_column hs c ws"
  have r: "xs_rows ?ws1 = xs_rows ws" by simp
  have l: "length (xs_columns ?ws1) = length (xs_columns ws)" by (simp add: fit_column_cols)
  have IH: "xs_rows (fold (fit_column hs) cs ?ws1) = xs_rows ?ws1 \<and>
      length (xs_columns (fold (fit_column hs) cs ?ws1)) = length (xs_columns ?ws1) \<and>
      (\<forall>j < length (xs_columns ?ws1). xs_columns (fold (fit_column hs) cs ?ws1) ! j =
         (if Suc j \<in> set cs then (xs_columns ?ws1 ! j)\<lparr>xc_width := fit_width (column_max_len hs ?ws1 (Suc j))\<rparr>
          else xs_columns ?ws1 ! j))"
    using Cons.IH [of ?ws1] Cons.prems l by simp
  have m: "column_max_len hs ?ws1 k = column_max_len hs ws k" for k by (rule column_max_len_rows [OF r])
  have c: "0 < c" "c \<le> length (xs_columns ws)" "c \<notin> set cs" using Cons.prems by auto
  show ?case
  proof (intro conjI allI impI)
    fix j assume j: "j < length (xs_columns ws)"
    show "xs_columns (fold (fit_column hs) (c # cs) ws) ! j =
        (if Suc j \<in> set (c # cs) then (xs_columns ws ! j)\<lparr>xc_width := fit_width (column_max_len hs ws (Suc j))\<rparr>
         else xs_columns ws ! j)"
      using IH j c l by (cases "Suc j = c") (auto simp: fit_column_cols m nth_list_update)
  qed (use IH r l in simp_all)
qed

lemma fold_max_len:
  "fold (\<lambda>x m. if m < f x then f x else m) xs m0 = Max (insert m0 (f ` set xs))"
proof (induction xs arbitrary: m0)
  case Nil
  then show ?case by simp
next
  case (Cons x xs)
  have "fold (\<lambda>x m. if m < f x then f x else m) (x # xs) m0 =
        fold (\<lambda>x m. if m < f x then f x else m) xs (max m0 (f x))"
    by (auto simp: max_def)
  with Cons.IH show ?case by (cases "xs = []") (simp_all add: max.assoc)
qed

lemma cell_at_row: "j < length hs \<Longrightarrow> cell_at (map r hs) (Suc j) = cell_text (r (hs ! j))"
  by (simp add: cell_at_def)

lemma filled_sheet_parts:
  "xs_rows (filled_sheet hs rows) = map Some hs # map (\<lambda>r. map r hs) rows"
  "xs_columns (filled_sheet hs rows) = map column_of hs"
  using fold_add_row [of rows "set_columns (map column_of hs) (new_sheet ''Pauta'')"]
  by (simp_all add: filled_sheet_def set_columns_def column_of_def comp_def)

lemma write_xlsx_sheet:
  "wb_sheets (write_xlsx hs rows agora) = [fold (fit_column hs) [1..<Suc (length hs)] (filled_sheet hs rows)]"
  by (simp add: write_xlsx_def filled_sheet_def Let_def del: upt_Suc)

lemma write_xlsx_fitted:
  "xs_rows (hd (wb_sheets (write_xlsx hs rows agora))) = map Some hs # map (\<lambda>r. map r hs) rows \<and>
   length (xs_columns (hd (wb_sheets (write_xlsx hs rows agora)))) = length hs \<and>
   (\<forall>j < length hs. xs_columns (hd (wb_sheets (write_xlsx hs rows agora))) ! j =
      (column_of (hs ! j))\<lparr>xc_width := fit_width (column_max_len hs (filled_sheet hs rows) (Suc j))\<rparr>)"
  using fold_fit_columns [of "[1..<Suc (length hs)]" "filled_sheet hs rows" hs]
  by (simp add: write_xlsx_sheet filled_sheet_parts del: upt_Suc)

lemma column_max_len_filled:
  "j < length hs \<Longrightarrow> column_max_len hs (filled_sheet hs rows) (Suc j) = max_len_ref hs rows j"
  by (simp add: column_max_len_def filled_sheet_parts fold_max_len max_len_ref_def image_image cell_at_row)

text \<open>C34: the worksheet \<open>writeXlsx\<close> builds holds one column per header, keyed and
  titled by the header, whose width is the one the spec asks for: two more than the
  longest text of the column (the header and every data cell, an absent value
  counting as \<open>''\<close>), clamped to [12, 60]. The per-column scan of \<open>ws.eachRow\<close>
  computes the maximum of the declarative reference \<open>max_len_ref\<close>.\<close>

theorem write_xlsx_widths:
  assumes "j < length hs"
  shows "xs_columns (hd (wb_sheets (write_xlsx hs rows agora))) ! j =
           \<lparr>xc_header = hs ! j, xc_key = hs ! j, xc_width = fit_width (max_len_ref hs rows j)\<rparr>"
  using write_xlsx_fitted [of hs rows agora] column_max_len_filled [OF assms, of rows] assms
  by (simp add: column_of_def)

theorem write_xlsx_widths_witness:
  "xs_columns (hd (wb_sheets (write_xlsx [''numero'', ''juiz''] [[''juiz'' \<mapsto> ''Dra. Maria Aparecida de Souza'']] 0))) ! 1 =
     \<lparr>xc_header = ''juiz'', xc_key = ''juiz'', xc_width = 31\<rparr>"
  using write_xlsx_widths [of 1 "[''numero'', ''juiz'']" "[[''juiz'' \<mapsto> ''Dra. Maria Aparecida de Souza'']]" 0]
  by (simp add: max_len_ref_def cell_text_def fit_width_def)

end
