(* ===== verification/Orchestrator.thy ===== *)
theory Orchestrator
  imports Stepper Pauta Csv Calendar Sink Mail Output Xlsx Selector
begin

text \<open>
  The run orchestrator: \<open>main\<close> of both variants of \<open>src/PAUTA-JRT2.js\<close> (lines
  457-521 and 1262-1367). It iterates units \<open>\<times>\<close> dates, and for each cell selects
  the date, waits for the list to settle, extracts the records and accumulates them
  (second variant: also upserts them into MySQL); at the end it writes the CSV file
  (second variant: the XLSX file and the e-mail as well). The whole body is one
  \<open>try\<close>: a rejection anywhere ends the run in the \<open>catch\<close>, which only logs.

  Portal entry (\<open>abrirJTeSelecionarTRT2\<close>, \<open>abrirModuloPauta\<close>), unit
  enumeration (\<open>listarVaras\<close>), unit selection (\<open>selecionarUnidade\<close>) and the
  XLSX writer are the operations of a \<open>'w portal\<close> record that the orchestrator
  calls; the date selection, the stabilization detector, the extraction mapper, the
  CSV text, the XLSX workbook, the file names, the MySQL sink and the e-mail are the
  definitions of the other
  theories. \<open>new Date().toISOString()\<close> is the parameter \<open>gerado_em\<close>, today's
  day number the parameter \<open>hoje\<close>. The portal also carries the output directory
  and the locale's time format. The model's state records whether the CSV file was
  written (\<open>rs_csv\<close>, its text) and the request of the e-mail the transport
  accepted (\<open>rs_mail\<close>).
\<close>

section \<open>State and interface\<close>

type_synonym 'w xlsx_writer = "jstr \<Rightarrow> pauta_row list \<Rightarrow> 'w sess \<Rightarrow> unit outcome \<times> 'w sess"
  \<comment> \<open>\<open>await writeXlsx(filePath, headers, rowsCsv)\<close>\<close>

type_synonym 'w smtp_send = "smtp_config \<Rightarrow> mail_message \<Rightarrow> 'w sess \<Rightarrow> jstr outcome \<times> 'w sess"
  \<comment> \<open>\<open>createTransport(options).sendMail(message)\<close>\<close>

record 'w portal =
  abrir_portal :: "'w sess \<Rightarrow> unit outcome \<times> 'w sess"
  \<comment> \<open>\<open>await abrirJTeSelecionarTRT2(page); await abrirModuloPauta(page)\<close>\<close>
  listar_varas_op :: "'w sess \<Rightarrow> jstr list outcome \<times> 'w sess"
  selecionar_unidade_op :: "jstr \<Rightarrow> 'w sess \<Rightarrow> unit outcome \<times> 'w sess"
  write_xlsx_op :: "'w xlsx_writer"
  output_dir :: jstr
  \<comment> \<open>\<open>path.join(process.cwd(), 'output')\<close>\<close>
  locale_time :: "nat \<Rightarrow> jstr"
  \<comment> \<open>\<open>new Date().toLocaleString('pt-BR')\<close> at a given clock\<close>

record 'w run_state =
  rs_sess :: "'w sess"
  rs_db :: db_server
  rs_rows :: "pauta_row list"
  rs_csv :: "jstr option"
  rs_mail :: "mail_request option"
  \<comment> \<open>the request of the e-mail the transport accepted\<close>

definition csv_headers :: "jstr list" where
  "csv_headers =
     [''geradoEm'', ''vara'', ''data'', ''numeroProcesso'', ''sessao'', ''juiz'', ''reclamante'', ''reclamada'']"

definition row_map :: "pauta_row \<Rightarrow> jstr \<rightharpoonup> jstr" where
  \<comment> \<open>the row object as \<open>writeCsv\<close> reads it, \<open>row[h]\<close>\<close>
  "row_map r =
     map_of (zip csv_headers
       [pr_gerado_em r, pr_vara r, pr_data r, pr_numero r, pr_sessao r, pr_juiz r, pr_reclamante r,
        pr_reclamada r])"

definition mk_row :: "jstr \<Rightarrow> jstr \<Rightarrow> jstr \<Rightarrow> processo \<Rightarrow> pauta_row" where
  \<comment> \<open>the object pushed to \<open>rowsCsv\<close> (and to \<open>rowsChunk\<close>) for one process\<close>
  "mk_row gerado_em vara data_br p =
     \<lparr>pr_gerado_em = gerado_em, pr_vara = vara, pr_data = data_br, pr_numero = numero_processo p,
      pr_sessao = sessao p, pr_juiz = juiz p, pr_reclamante = reclamante p, pr_reclamada = reclamada p\<rparr>"

section \<open>The second variant\<close>

definition cell_b ::
  "'w page \<Rightarrow> jstr \<Rightarrow> bool \<Rightarrow> jstr \<Rightarrow> jstr \<Rightarrow> 'w run_state \<Rightarrow> unit outcome \<times> 'w run_state" where
  \<comment> \<open>the body of \<open>for (const dataBR of datas)\<close>\<close>
  "cell_b P gerado_em pool vara data_br st =
     (let (ok, s1) = selecionar_data_botoes P data_br 2 (rs_sess st)
      in if \<not> ok then (Inr (), st\<lparr>rs_sess := s1\<rparr>)
         else
           (let s2 = snd (esperar_pauta_estabilizar P s1)
            in case extrair_processos P s2 of
                 (Inl e, s3) \<Rightarrow> (Inl e, st\<lparr>rs_sess := s3\<rparr>)
               | (Inr ps, s3) \<Rightarrow>
                   (let rows = map (mk_row gerado_em vara data_br) ps;
                        st1 = st\<lparr>rs_sess := s3, rs_rows := rs_rows st @ rows\<rparr>
                    in if pool \<and> ps \<noteq> [] then
                         (case insert_rows_mysql True rows 800 (rs_db st) of
                            (Inl e, d) \<Rightarrow> (Inl e, st1\<lparr>rs_db := d\<rparr>)
                          | (Inr _, d) \<Rightarrow> (Inr (), st1\<lparr>rs_db := d\<rparr>))
                       else (Inr (), st1))))"

definition cells_b ::
  "'w page \<Rightarrow> jstr \<Rightarrow> bool \<Rightarrow> jstr \<Rightarrow> jstr list \<Rightarrow> 'w run_state \<Rightarrow> unit outcome \<times> 'w run_state" where
  \<comment> \<open>\<open>for (const dataBR of datas)\<close>\<close>
  "cells_b P gerado_em pool vara datas = for_each_o (cell_b P gerado_em pool vara) datas"

definition vara_b ::
  "'w page \<Rightarrow> 'w portal \<Rightarrow> jstr \<Rightarrow> bool \<Rightarrow> jstr list \<Rightarrow> jstr \<Rightarrow> 'w run_state \<Rightarrow> unit outcome \<times> 'w run_state" where
  \<comment> \<open>the body of \<open>for (const vara of varasAlvo)\<close>\<close>
  "vara_b P pt gerado_em pool datas v st =
     (case selecionar_unidade_op pt v (rs_sess st) of
        (Inl e, s1) \<Rightarrow> (Inl e, st\<lparr>rs_sess := s1\<rparr>)
      | (Inr _, s1) \<Rightarrow> cells_b P gerado_em pool v datas (st\<lparr>rs_sess := s1\<rparr>))"

definition varas_b ::
  "'w page \<Rightarrow> 'w portal \<Rightarrow> jstr \<Rightarrow> bool \<Rightarrow> jstr list \<Rightarrow> jstr list \<Rightarrow> 'w run_state
     \<Rightarrow> unit outcome \<times> 'w run_state" where
  "varas_b P pt gerado_em pool datas varas = for_each_o (vara_b P pt gerado_em pool datas) varas"

definition finish_b ::
  "'w portal \<Rightarrow> (jstr \<Rightarrow> jstr option) \<Rightarrow> 'w smtp_send \<Rightarrow> jstr \<Rightarrow> 'w run_state \<Rightarrow> 'w run_state" where
  \<comment> \<open>the paths from \<open>Date.now()\<close>, \<open>writeCsv\<close>, then \<open>await writeXlsx\<close> and
      \<open>await sendEmailWithAttachment({subject, text, attachmentPath: xlsxPath})\<close>; a
      rejection of either ends the \<open>try\<close> with the CSV file already written\<close>
  "finish_b pt env send gerado_em st =
     (let xlsx_path = snd (out_paths (output_dir pt) (clock (rs_sess st)));
          st1 = st\<lparr>rs_csv := Some (csv_text csv_headers (map row_map (rs_rows st)))\<rparr>
      in case write_xlsx_op pt xlsx_path (rs_rows st) (rs_sess st1) of
           (Inl e, s2) \<Rightarrow> st1\<lparr>rs_sess := s2\<rparr>
         | (Inr _, s2) \<Rightarrow>
             (let req = \<lparr>mr_subject = mail_subject (locale_time pt (clock s2)),
                         mr_text = mail_text (length (rs_rows st)) gerado_em, mr_attachment_path = xlsx_path\<rparr>
              in case send_email_with_attachment env send req s2 of
                   (Inl e, s3) \<Rightarrow> st1\<lparr>rs_sess := s3\<rparr>
                 | (Inr _, s3) \<Rightarrow> st1\<lparr>rs_sess := s3, rs_mail := Some req\<rparr>))"

definition write_xlsx_file :: "(jstr \<Rightarrow> workbook \<Rightarrow> 'w sess \<Rightarrow> unit outcome \<times> 'w sess) \<Rightarrow> 'w xlsx_writer" where
  \<comment> \<open>\<open>await writeXlsx(xlsxPath, headers, rowsCsv)\<close>: the workbook of \<open>Xlsx\<close>, created at
      \<open>new Date()\<close>, handed to \<open>wb.xlsx.writeFile(filePath)\<close>, the parameter \<open>write_file\<close>\<close>
  "write_xlsx_file write_file file_path rows s =
     write_file file_path (write_xlsx csv_headers (map row_map rows) (clock s)) s"

definition run_main_b ::
  "'w page \<Rightarrow> 'w portal \<Rightarrow> (jstr \<Rightarrow> jstr option) \<Rightarrow> 'w smtp_send \<Rightarrow> jstr \<Rightarrow> jstr list
     \<Rightarrow> 'w run_state \<Rightarrow> 'w run_state" where
  "run_main_b P pt env send gerado_em datas st0 =
     (let pool = init_db_if_enabled env (rs_db st0)
      in case abrir_portal pt (rs_sess st0) of
           (Inl e, s1) \<Rightarrow> st0\<lparr>rs_sess := s1\<rparr>
         | (Inr _, s1) \<Rightarrow>
             (case listar_varas_op pt s1 of
                (Inl e, s2) \<Rightarrow> st0\<lparr>rs_sess := s2\<rparr>
              | (Inr varas, s2) \<Rightarrow>
                  (case varas_b P pt gerado_em pool datas varas (st0\<lparr>rs_sess := s2\<rparr>) of
                     (Inl e, st) \<Rightarrow> st
                   | (Inr _, st) \<Rightarrow> finish_b pt env send gerado_em st)))"

definition run_start :: "'w sess \<Rightarrow> db_server \<Rightarrow> 'w run_state" where
  \<comment> \<open>\<open>rowsCsv = []\<close>, nothing written yet\<close>
  "run_start s0 d0 = \<lparr>rs_sess = s0, rs_db = d0, rs_rows = [], rs_csv = None, rs_mail = None\<rparr>"

definition main_b ::
  "'w page \<Rightarrow> 'w portal \<Rightarrow> (jstr \<Rightarrow> jstr option) \<Rightarrow> 'w smtp_send \<Rightarrow> jstr \<Rightarrow> int \<Rightarrow> 'w sess
     \<Rightarrow> db_server \<Rightarrow> 'w run_state" where
  "main_b P pt env send gerado_em hoje s0 d0 =
     run_main_b P pt env send gerado_em (gerar_datas hoje) (run_start s0 d0)"

definition jte_portal_b ::
  "'w page \<Rightarrow> 'w unit_ui \<Rightarrow> int \<Rightarrow> 'w xlsx_writer \<Rightarrow> jstr \<Rightarrow> (nat \<Rightarrow> jstr) \<Rightarrow> 'w portal" where
  \<comment> \<open>the second variant's portal steps; \<open>writeXlsx\<close> (ExcelJS file I/O) is the parameter \<open>xlsx\<close>,
      the output directory and the locale's time format the parameters \<open>out_dir\<close> and \<open>loc\<close>\<close>
  "jte_portal_b P U hoje xlsx out_dir loc =
     \<lparr>abrir_portal = (\<lambda>s. then_o (abrir_jte P U s) (\<lambda>_ s1. abrir_modulo_pauta P U s1)),
      listar_varas_op = listar_varas P U, selecionar_unidade_op = selecionar_unidade_b P U hoje,
      write_xlsx_op = xlsx, output_dir = out_dir, locale_time = loc\<rparr>"

definition programa_b ::
  "'w page \<Rightarrow> 'w unit_ui \<Rightarrow> 'w xlsx_writer \<Rightarrow> jstr \<Rightarrow> (nat \<Rightarrow> jstr) \<Rightarrow> (jstr \<Rightarrow> jstr option)
     \<Rightarrow> 'w smtp_send \<Rightarrow> jstr \<Rightarrow> int \<Rightarrow> 'w sess \<Rightarrow> db_server \<Rightarrow> 'w run_state" where
  \<comment> \<open>\<open>main()\<close> of the second variant with its own portal steps\<close>
  "programa_b P U xlsx out_dir loc env send gerado_em hoje s0 d0 =
     main_b P (jte_portal_b P U hoje xlsx out_dir loc) env send gerado_em hoje s0 d0"

section \<open>The first variant\<close>

definition cell_a :: "'w page \<Rightarrow> jstr \<Rightarrow> jstr \<Rightarrow> jstr \<Rightarrow> 'w run_state \<Rightarrow> unit outcome \<times> 'w run_state" where
  \<comment> \<open>the calendar \<open>selecionarDataComConfirmacao(page, dataBR, 3)\<close> may reject\<close>
  "cell_a P gerado_em vara data_br st =
     (case selecionar_data_calendario P data_br 3 (rs_sess st) of
        (Inl e, s1) \<Rightarrow> (Inl e, st\<lparr>rs_sess := s1\<rparr>)
      | (Inr ok, s1) \<Rightarrow>
          if \<not> ok then (Inr (), st\<lparr>rs_sess := s1\<rparr>)
          else
            (case extrair_processos P (snd (esperar_pauta_estabilizar P s1)) of
               (Inl e, s3) \<Rightarrow> (Inl e, st\<lparr>rs_sess := s3\<rparr>)
             | (Inr ps, s3) \<Rightarrow>
                 (Inr (), st\<lparr>rs_sess := s3, rs_rows := rs_rows st @ map (mk_row gerado_em vara data_br) ps\<rparr>)))"

definition cells_a :: "'w page \<Rightarrow> jstr \<Rightarrow> jstr \<Rightarrow> jstr list \<Rightarrow> 'w run_state \<Rightarrow> unit outcome \<times> 'w run_state" where
  "cells_a P gerado_em vara datas = for_each_o (cell_a P gerado_em vara) datas"

definition vara_a ::
  "'w page \<Rightarrow> 'w portal \<Rightarrow> jstr \<Rightarrow> jstr list \<Rightarrow> jstr \<Rightarrow> 'w run_state \<Rightarrow> unit outcome \<times> 'w run_state" where
  "vara_a P pt gerado_em datas v st =
     (case selecionar_unidade_op pt v (rs_sess st) of
        (Inl e, s1) \<Rightarrow> (Inl e, st\<lparr>rs_sess := s1\<rparr>)
      | (Inr _, s1) \<Rightarrow> cells_a P gerado_em v datas (st\<lparr>rs_sess := s1\<rparr>))"

definition varas_a ::
  "'w page \<Rightarrow> 'w portal \<Rightarrow> jstr \<Rightarrow> jstr list \<Rightarrow> jstr list \<Rightarrow> 'w run_state \<Rightarrow> unit outcome \<times> 'w run_state" where
  "varas_a P pt gerado_em datas varas = for_each_o (vara_a P pt gerado_em datas) varas"

definition run_main_a ::
  "'w page \<Rightarrow> 'w portal \<Rightarrow> jstr \<Rightarrow> jstr list \<Rightarrow> 'w run_state \<Rightarrow> 'w run_state" where
  "run_main_a P pt gerado_em datas st0 =
     (case abrir_portal pt (rs_sess st0) of
        (Inl e, s1) \<Rightarrow> st0\<lparr>rs_sess := s1\<rparr>
      | (Inr _, s1) \<Rightarrow>
          (case listar_varas_op pt s1 of
             (Inl e, s2) \<Rightarrow> st0\<lparr>rs_sess := s2\<rparr>
           | (Inr varas, s2) \<Rightarrow>
               (case varas_a P pt gerado_em datas varas (st0\<lparr>rs_sess := s2\<rparr>) of
                  (Inl e, st) \<Rightarrow> st
                | (Inr _, st) \<Rightarrow> st\<lparr>rs_csv := Some (csv_text csv_headers (map row_map (rs_rows st)))\<rparr>)))"

definition jte_portal_a :: "'w page \<Rightarrow> 'w unit_ui \<Rightarrow> int \<Rightarrow> 'w portal" where
  "jte_portal_a P U hoje =
     \<lparr>abrir_portal = (\<lambda>s. then_o (abrir_jte P U s) (\<lambda>_ s1. abrir_modulo_pauta P U s1)),
      listar_varas_op = listar_varas P U, selecionar_unidade_op = selecionar_unidade_a P U hoje,
      write_xlsx_op = (\<lambda>p rows s. (Inr (), s)), output_dir = ''output'', locale_time = (\<lambda>t. [])\<rparr>"
  \<comment> \<open>the first variant writes no XLSX file and no e-mail: the last three fields are never read\<close>

definition main_a :: "'w page \<Rightarrow> 'w portal \<Rightarrow> jstr \<Rightarrow> int \<Rightarrow> 'w sess \<Rightarrow> db_server \<Rightarrow> 'w run_state" where
  "main_a P pt gerado_em hoje s0 d0 =
     run_main_a P pt gerado_em (gerar_datas hoje) (run_start s0 d0)"

definition programa_a :: "'w page \<Rightarrow> 'w unit_ui \<Rightarrow> jstr \<Rightarrow> int \<Rightarrow> 'w sess \<Rightarrow> db_server \<Rightarrow> 'w run_state" where
  \<comment> \<open>\<open>main()\<close> of the first variant with its own portal steps\<close>
  "programa_a P U gerado_em hoje s0 d0 = main_a P (jte_portal_a P U hoje) gerado_em hoje s0 d0"

section \<open>Examples\<close>

definition static_portal :: "jstr list \<Rightarrow> 'w portal" where
  \<comment> \<open>a portal whose entry, unit selection and XLSX writer succeed and that lists \<open>vs\<close>\<close>
  "static_portal vs =
     \<lparr>abrir_portal = (\<lambda>s. (Inr (), s)), listar_varas_op = (\<lambda>s. (Inr vs, s)),
      selecionar_unidade_op = (\<lambda>v s. (Inr (), s)), write_xlsx_op = (\<lambda>p rows s. (Inr (), s)),
      output_dir = ''/app/output'', locale_time = (\<lambda>t. ''02/03/2026, 09:00:00'')\<rparr>"

definition accept_mail :: "'w smtp_send" where
  "accept_mail cfg msg s = (Inr ''<1@smtp>'', s)"

definition mail_env :: "jstr \<Rightarrow> jstr option" where
  \<comment> \<open>an environment with a complete SMTP configuration and MySQL disabled\<close>
  "mail_env n = map_of [(''SMTP_HOST'', ''smtp.trt2.jus.br''), (''SMTP_USER'', ''robo@trt2.jus.br''),
     (''SMTP_PASS'', ''segredo''), (''MAIL_TO'', ''ana@trt2.jus.br'')] n"

definition flaky_page :: "nat page" where
  \<comment> \<open>a stepper showing \<open>05/03/2026\<close> with one item listed, whose page script
      for the list works once and then rejects; the world counts the reads\<close>
  "flaky_page = inert_page\<lparr>ion_exists := (\<lambda>b w. (Inr True, w)),
     label_xpath := (\<lambda>w. (Inr (Some ''05/03/2026''), w)), items_count := (\<lambda>w. (Inr 1, w)),
     items_read := (\<lambda>w. if w = 0 then (Inr [sample_item], Suc w)
                         else (Inl (JsError ''Execution context was destroyed''), w))\<rparr>"

definition rows_extend :: "(pauta_row \<Rightarrow> bool) \<Rightarrow> 'w run_state \<Rightarrow> 'w run_state \<Rightarrow> bool" where
  \<comment> \<open>\<open>rowsCsv\<close> only grows, by records satisfying \<open>Q\<close>\<close>
  "rows_extend Q st st' \<longleftrightarrow> (\<exists>new. rs_rows st' = rs_rows st @ new \<and> list_all Q new)"

section \<open>Loop lemmas\<close>

lemma rows_extend_same: "rs_rows st' = rs_rows st \<Longrightarrow> rows_extend Q st st'"
  by (simp add: rows_extend_def)

lemma rows_extend_trans: "rows_extend Q st1 st2 \<Longrightarrow> rows_extend Q st2 st3 \<Longrightarrow> rows_extend Q st1 st3"
  by (auto simp: rows_extend_def)

lemma rows_extend_mono: "rows_extend Q st st' \<Longrightarrow> (\<And>x. Q x \<Longrightarrow> Q' x) \<Longrightarrow> rows_extend Q' st st'"
  by (auto simp: rows_extend_def list_all_iff)

lemma rows_extend_sess [simp]: "rows_extend Q (st\<lparr>rs_sess := s\<rparr>) st' = rows_extend Q st st'"
  by (simp add: rows_extend_def)

lemma for_each_o_rows:
  assumes "\<And>x st r st'. x \<in> set xs \<Longrightarrow> f x st = (r, st') \<Longrightarrow> rows_extend Q st st'"
    and "for_each_o f xs st = (r, st')"
  shows "rows_extend Q st st'"
proof (rule for_each_o_invariant [where I = "rows_extend Q st"])
  show "rows_extend Q st st" by (rule rows_extend_same) simp
  show "for_each_o f xs st = (r, st')" by (rule assms(2))
next
  fix x s r s'
  assume "x \<in> set xs" "rows_extend Q st s" "f x s = (r, s')"
  then show "rows_extend Q st s'" by (metis rows_extend_trans assms(1))
qed

lemma cell_b_rows:
  "cell_b P g pool v d st = (r, st') \<Longrightarrow>
     rows_extend (\<lambda>x. pr_gerado_em x = g \<and> pr_vara x = v \<and> pr_data x = d) st st'"
  by (auto simp: cell_b_def rows_extend_def mk_row_def list_all_iff Let_def
        split: prod.splits if_splits sum.splits)

lemma vara_b_rows:
  assumes "vara_b P pt g pool datas v st = (r, st')"
  shows "rows_extend (\<lambda>x. pr_gerado_em x = g \<and> pr_vara x = v \<and> pr_data x \<in> set datas) st st'"
proof (cases "selecionar_unidade_op pt v (rs_sess st)")
  case (Pair r1 s1)
  show ?thesis
  proof (cases r1)
    case Inl
    with Pair assms show ?thesis by (auto simp: vara_b_def intro: rows_extend_same)
  next
    case Inr
    with Pair assms have "cells_b P g pool v datas (st\<lparr>rs_sess := s1\<rparr>) = (r, st')"
      by (simp add: vara_b_def)
    then have "rows_extend (\<lambda>x. pr_gerado_em x = g \<and> pr_vara x = v \<and> pr_data x \<in> set datas)
                 (st\<lparr>rs_sess := s1\<rparr>) st'"
      unfolding cells_b_def
      by (rule for_each_o_rows [rotated]) (auto dest: cell_b_rows elim: rows_extend_mono)
    then show ?thesis by simp
  qed
qed

lemma varas_b_rows:
  "varas_b P pt g pool datas varas st = (r, st') \<Longrightarrow>
     rows_extend (\<lambda>x. pr_gerado_em x = g \<and> pr_vara x \<in> set varas \<and> pr_data x \<in> set datas) st st'"
  unfolding varas_b_def
  by (rule for_each_o_rows [rotated]) (auto dest: vara_b_rows elim: rows_extend_mono)

lemma finish_b_fields [simp]:
  "rs_csv (finish_b pt env send g st) = Some (csv_text csv_headers (map row_map (rs_rows st)))"
  "rs_rows (finish_b pt env send g st) = rs_rows st"
  "rs_db (finish_b pt env send g st) = rs_db st"
  by (simp_all add: finish_b_def Let_def split: prod.splits sum.splits)

lemma cell_b_keeps:
  "cell_b P g pool v d st = (r, st') \<Longrightarrow>
     rs_csv st' = rs_csv st \<and> rs_mail st' = rs_mail st \<and> (\<not> pool \<longrightarrow> rs_db st' = rs_db st)"
  by (auto simp: cell_b_def Let_def split: prod.splits if_splits sum.splits)

lemma cells_b_keeps:
  "cells_b P g pool v datas st = (r, st') \<Longrightarrow>
     rs_csv st' = rs_csv st \<and> rs_mail st' = rs_mail st \<and> (\<not> pool \<longrightarrow> rs_db st' = rs_db st)"
  unfolding cells_b_def
  by (rule for_each_o_invariant [rotated 2]) (auto dest: cell_b_keeps)

lemma vara_b_keeps:
  "vara_b P pt g pool datas v st = (r, st') \<Longrightarrow>
     rs_csv st' = rs_csv st \<and> rs_mail st' = rs_mail st \<and> (\<not> pool \<longrightarrow> rs_db st' = rs_db st)"
  by (auto simp: vara_b_def split: prod.splits sum.splits dest: cells_b_keeps)

lemma varas_b_keeps:
  "varas_b P pt g pool datas varas st = (r, st') \<Longrightarrow>
     rs_csv st' = rs_csv st \<and> rs_mail st' = rs_mail st \<and> (\<not> pool \<longrightarrow> rs_db st' = rs_db st)"
  unfolding varas_b_def
  by (rule for_each_o_invariant [rotated 2]) (auto dest: vara_b_keeps)

lemma rows_extend_finish_b [simp]:
  "rows_extend Q st (finish_b pt env send g st') = rows_extend Q st st'"
  by (simp add: rows_extend_def)

lemma run_main_b_rows:
  "rows_extend (\<lambda>x. pr_gerado_em x = g \<and> pr_data x \<in> set datas \<and>
       (\<exists>s vs s'. listar_varas_op pt s = (Inr vs, s') \<and> pr_vara x \<in> set vs))
     st0 (run_main_b P pt env send g datas st0)"
  (is "rows_extend ?Q st0 _")
proof -
  have loop: "rows_extend ?Q st0 st"
    if "listar_varas_op pt s1 = (Inr varas, s2)"
      and "varas_b P pt g pool datas varas (st0\<lparr>rs_sess := s2\<rparr>) = (r, st)" for s1 varas s2 pool r st
  proof -
    from varas_b_rows [OF that(2)]
    have "rows_extend (\<lambda>x. pr_gerado_em x = g \<and> pr_vara x \<in> set varas \<and> pr_data x \<in> set datas) st0 st"
      by simp
    then show ?thesis by (rule rows_extend_mono) (use that(1) in blast)
  qed
  show ?thesis
    by (auto simp: run_main_b_def Let_def rows_extend_same split: prod.splits sum.splits dest: loop)
qed

lemma cell_b_skip:
  "\<not> fst (selecionar_data_botoes P d 2 (rs_sess st)) \<Longrightarrow> \<exists>s'. cell_b P g pool v d st = (Inr (), st\<lparr>rs_sess := s'\<rparr>)"
  by (auto simp: cell_b_def split: prod.splits)

lemma inert_sel_loop: "\<not> fst (sel_data_botoes_loop inert_page d n s)"
  by (induction n arbitrary: s)
     (simp_all add: ir_ate_data_por_botoes_def ion_exists_by_css_def run_def inert_page_def
        catch_default_def Let_def split_def)

lemma inert_sel_fails: "\<not> fst (selecionar_data_botoes inert_page d n s)"
  by (simp add: selecionar_data_botoes_def inert_sel_loop)

lemma cells_b_skip:
  assumes "\<forall>d s. \<not> fst (selecionar_data_botoes P d 2 s)"
  shows "\<exists>s'. cells_b P g pool v ds st = (Inr (), st\<lparr>rs_sess := s'\<rparr>)"
proof (induction ds arbitrary: st)
  case Nil
  show ?case by (simp add: cells_b_def) (rule exI [of _ "rs_sess st"], simp)
next
  case (Cons d ds)
  obtain s1 where c: "cell_b P g pool v d st = (Inr (), st\<lparr>rs_sess := s1\<rparr>)"
    using cell_b_skip assms by blast
  obtain s' where "cells_b P g pool v ds (st\<lparr>rs_sess := s1\<rparr>) = (Inr (), st\<lparr>rs_sess := s1, rs_sess := s'\<rparr>)"
    using Cons.IH by blast
  with c show ?case by (auto simp: cells_b_def)
qed

lemma varas_b_skip:
  assumes "\<forall>d s. \<not> fst (selecionar_data_botoes P d 2 s)"
    and "\<forall>v s. fst (selecionar_unidade_op pt v s) = Inr ()"
  shows "\<exists>s'. varas_b P pt g pool ds vs st = (Inr (), st\<lparr>rs_sess := s'\<rparr>)"
proof (induction vs arbitrary: st)
  case Nil
  show ?case by (simp add: varas_b_def) (rule exI [of _ "rs_sess st"], simp)
next
  case (Cons v vs)
  obtain s1 where u: "selecionar_unidade_op pt v (rs_sess st) = (Inr (), s1)"
    using assms(2) [rule_format, of v "rs_sess st"] by (cases "selecionar_unidade_op pt v (rs_sess st)") simp
  obtain s2 where c: "cells_b P g pool v ds (st\<lparr>rs_sess := s1\<rparr>) = (Inr (), st\<lparr>rs_sess := s1, rs_sess := s2\<rparr>)"
    using cells_b_skip [OF assms(1)] by blast
  obtain s' where "varas_b P pt g pool ds vs (st\<lparr>rs_sess := s2\<rparr>) = (Inr (), st\<lparr>rs_sess := s2, rs_sess := s'\<rparr>)"
    using Cons.IH by blast
  with u c show ?case by (auto simp: varas_b_def vara_b_def)
qed

lemma flaky_sel:
  "selecionar_data_botoes flaky_page ''05/03/2026'' 2 s = (True, s\<lparr>clock := clock s + 200\<rparr>)"
  by (simp add: selecionar_data_botoes_def numeral_2_eq_2 ir_ate_data_por_botoes_def ion_exists_by_css_def
      ler_texto_data_exibida_def read_ion_button_text_by_xpath_def run_def flaky_page_def inert_page_def
      catch_default_def fechar_overlays_def sleep_def Let_def split_def js_trim_def js_is_space_def)

lemma flaky_estab:
  "estab_loop flaky_page (Suc (Suc n)) (-1) s = (True, s\<lparr>clock := clock s + 850\<rparr>)"
  by (simp add: count_items_def run_def flaky_page_def inert_page_def catch_default_def sleep_def Let_def)

lemma flaky_esperar:
  "esperar_pauta_estabilizar flaky_page s = (True, s\<lparr>clock := clock s + 850\<rparr>)"
  using flaky_estab [of 18 "wait_spinners flaky_page s", simplified]
  by (simp add: esperar_pauta_estabilizar_def wait_spinners_def spinners_def wait_spinner_def run_def
      flaky_page_def inert_page_def catch_default_def)

lemma flaky_extrair:
  "world s = 0 \<Longrightarrow> extrair_processos flaky_page s = (Inr [map_item sample_item], s\<lparr>world := 1\<rparr>)"
  "0 < world s \<Longrightarrow> extrair_processos flaky_page s = (Inl (JsError ''Execution context was destroyed''), s)"
  by (simp_all add: extrair_processos_def count_items_def run_def flaky_page_def inert_page_def catch_default_def)

lemma listar_varas_Inr:
  "listar_varas P U s = (Inr vs, s') \<Longrightarrow> \<exists>opts. vs = collect_labels opts"
  by (auto simp: listar_varas_def then_o_def split: prod.splits sum.splits)

lemma selecionar_data_calendario_3_reject:
  assumes "\<forall>w. isl (fst (date_button_visible P w))"
  shows "selecionar_data_calendario P d 3 s \<noteq> (Inr a, s')"
proof -
  obtain r s1 where sel: "selecionar_data_no_calendario P d s = (r, s1)" by fastforce
  with selecionar_no_calendario_reject [OF assms, of d s] obtain e where "r = Inl e"
    by (cases r) auto
  with sel show ?thesis by (simp add: selecionar_data_calendario_def numeral_3_eq_3)
qed

lemma finish_b_mail:
  assumes "rs_mail (finish_b pt env send g st) \<noteq> rs_mail st"
  shows "\<exists>s2 s3 i. write_xlsx_op pt (snd (out_paths (output_dir pt) (clock (rs_sess st)))) (rs_rows st) (rs_sess st) = (Inr (), s2) \<and>
     send_email_with_attachment env send
       \<lparr>mr_subject = mail_subject (locale_time pt (clock s2)), mr_text = mail_text (length (rs_rows st)) g,
        mr_attachment_path = snd (out_paths (output_dir pt) (clock (rs_sess st)))\<rparr> s2 = (Inr i, s3) \<and>
     rs_mail (finish_b pt env send g st) =
       Some \<lparr>mr_subject = mail_subject (locale_time pt (clock s2)), mr_text = mail_text (length (rs_rows st)) g,
             mr_attachment_path = snd (out_paths (output_dir pt) (clock (rs_sess st)))\<rparr>"
  using assms by (auto simp: finish_b_def Let_def split: prod.splits sum.splits)

lemma run_main_b_mail:
  assumes "rs_mail (run_main_b P pt env send g datas st0) \<noteq> rs_mail st0"
  shows "\<exists>st. run_main_b P pt env send g datas st0 = finish_b pt env send g st \<and> rs_mail st = rs_mail st0"
proof -
  obtain r st where v: "varas_b P pt g (init_db_if_enabled env (rs_db st0)) datas
      (case listar_varas_op pt (snd (abrir_portal pt (rs_sess st0))) of (Inr vs, _) \<Rightarrow> vs | _ \<Rightarrow> [])
      (st0\<lparr>rs_sess := snd (listar_varas_op pt (snd (abrir_portal pt (rs_sess st0))))\<rparr>) = (r, st)"
    by (rule prod.exhaust)
  then have "rs_mail st = rs_mail st0" by (auto dest: varas_b_keeps)
  with v assms show ?thesis
    by (auto simp: run_main_b_def Let_def split: prod.splits sum.splits)
qed

lemma mail_env_config:
  "smtp_config_of mail_env =
     Some \<lparr>smtp_host = ''smtp.trt2.jus.br'', smtp_port = Some 587, smtp_secure = False, smtp_user = ''robo@trt2.jus.br'',
           smtp_pass = ''segredo'', mail_from = ''robo@trt2.jus.br'', mail_to = [''ana@trt2.jus.br'']\<rparr>"
  by (simp add: smtp_config_of_def mail_env_def get_env_opt_def get_env_def js_number_def js_lower_def
      js_lower_char_def parse_mail_to_def mail_sep_def js_trim_def js_is_space_def js_is_digit_def nat_of_digits_def)

lemma run_main_b_csv:
  "rs_csv (run_main_b P pt env send g datas st0) = rs_csv st0 \<or>
   rs_csv (run_main_b P pt env send g datas st0) =
     Some (csv_text csv_headers (map row_map (rs_rows (run_main_b P pt env send g datas st0))))"
  by (auto simp: run_main_b_def Let_def split: prod.splits sum.splits dest: varas_b_keeps)

lemma csv_line_row_map:
  "csv_line csv_headers (row_map r) =
     js_join '';'' (map (\<lambda>v. csv_escape (Some v))
       [pr_gerado_em r, pr_vara r, pr_data r, pr_numero r, pr_sessao r, pr_juiz r, pr_reclamante r, pr_reclamada r])"
  by (simp add: csv_line_def row_map_def csv_headers_def)

section \<open>Properties of a run\<close>

text \<open>C15: when MySQL is enabled but unreachable at startup, the second variant's run
  writes the same CSV file as a run with MySQL disabled, and leaves the database
  untouched: the store is treated as absent for the whole run.\<close>

theorem main_b_store_unreachable:
  assumes "\<not> db_up d0"
  shows "rs_csv (main_b P pt env send g hoje s0 d0) = rs_csv (main_b P pt env_empty send g hoje s0 d0) \<and>
         rs_db (main_b P pt env send g hoje s0 d0) = d0"
proof -
  have pool: "init_db_if_enabled e d0 = False" for e using assms by (simp add: init_db_if_enabled_def)
  show ?thesis
    by (auto simp: main_b_def run_main_b_def run_start_def pool split: prod.splits sum.splits
          dest: varas_b_keeps)
qed

theorem main_b_store_unreachable_witness:
  "\<not> db_up (empty_db\<lparr>db_up := False\<rparr>) \<and>
   rs_csv (main_b inert_page (static_portal [''1a VT'']) (\<lambda>n. if n = ''DB_ENABLED'' then Some ''true'' else None)
             accept_mail ''2026-03-02T12:00:00.000Z'' 20514 unit_start (empty_db\<lparr>db_up := False\<rparr>)) =
   rs_csv (main_b inert_page (static_portal [''1a VT'']) env_empty
             accept_mail ''2026-03-02T12:00:00.000Z'' 20514 unit_start (empty_db\<lparr>db_up := False\<rparr>))"
  using main_b_store_unreachable [of "empty_db\<lparr>db_up := False\<rparr>" inert_page "static_portal [''1a VT'']"
      "\<lambda>n. if n = ''DB_ENABLED'' then Some ''true'' else None" accept_mail "''2026-03-02T12:00:00.000Z''"
      20514 unit_start]
  by simp

text \<open>C12: a date that cannot be reached for a unit is skipped, never aborting the run:
  when the portal opens and lists units, every unit can be selected and no date can be
  reached, the second variant's run still completes and writes a CSV file holding
  only the header line, without touching the database.\<close>

theorem main_b_unreachable_dates_skipped:
  assumes "\<forall>s. fst (abrir_portal pt s) = Inr ()" and "\<forall>s. \<exists>vs s'. listar_varas_op pt s = (Inr vs, s')"
    and "\<forall>v s. fst (selecionar_unidade_op pt v s) = Inr ()"
    and "\<forall>d s. \<not> fst (selecionar_data_botoes P d 2 s)"
  shows "rs_csv (main_b P pt env send g hoje s_init db_init) = Some (csv_text csv_headers []) \<and>
         rs_db (main_b P pt env send g hoje s_init db_init) = db_init"
proof -
  obtain s1 where a: "abrir_portal pt s_init = (Inr (), s1)"
    using assms(1) [rule_format, of s_init] by (cases "abrir_portal pt s_init") simp
  obtain varas s2 where l: "listar_varas_op pt s1 = (Inr varas, s2)"
    using assms(2) by meson
  obtain s' where "varas_b P pt g (init_db_if_enabled env db_init) (gerar_datas hoje) varas
      ((run_start s_init db_init)\<lparr>rs_sess := s2\<rparr>) = (Inr (), (run_start s_init db_init)\<lparr>rs_sess := s2, rs_sess := s'\<rparr>)"
    using varas_b_skip [OF assms(4,3)] by blast
  then show ?thesis
    by (simp add: main_b_def run_main_b_def Let_def a l run_start_def)
qed

theorem main_b_unreachable_dates_skipped_witness:
  "rs_csv (main_b inert_page (static_portal [''1a VT'', ''2a VT'']) env_empty accept_mail
     ''2026-03-02T12:00:00.000Z'' 20514 unit_start empty_db) = Some (csv_text csv_headers [])"
  using main_b_unreachable_dates_skipped [where pt = "static_portal [''1a VT'', ''2a VT'']" and P = inert_page
      and env = env_empty and send = accept_mail and g = "''2026-03-02T12:00:00.000Z''" and hoje = 20514
      and s_init = unit_start and db_init = empty_db]
  by (simp add: static_portal_def inert_sel_fails)

text \<open>C16: every record the second variant accumulates, and so every line of its CSV
  file, belongs to one cell of the run: it carries the run's \<open>geradoEm\<close> stamp, a
  target date of \<open>gerarDatasProximosDoisMeses\<close> and a unit the portal listed.\<close>

theorem main_b_rows_attributable:
  "list_all (\<lambda>x. pr_gerado_em x = g \<and> pr_data x \<in> set (gerar_datas hoje) \<and>
       (\<exists>s vs s'. listar_varas_op pt s = (Inr vs, s') \<and> pr_vara x \<in> set vs))
     (rs_rows (main_b P pt env send g hoje s0 d0))"
  using run_main_b_rows [of g "gerar_datas hoje" pt "run_start s0 d0" P env send]
  by (simp add: main_b_def rows_extend_def run_start_def)

text \<open>C13: in the first variant a rejection of the date selection of a cell ends the whole
  run there: the uncaught rejection of \<open>selecionarDataComConfirmacao(page, dataBR, 3)\<close>
  leaves both loops, no later date or unit is tried, no record is added and no CSV
  file is written; the state is the initial one with the session where the selection
  left it.\<close>

theorem run_main_a_date_rejection_ends_run:
  assumes "abrir_portal pt (rs_sess st_init) = (Inr (), sa)" and "listar_varas_op pt sa = (Inr (v # vs), sb)"
    and "selecionar_unidade_op pt v sb = (Inr (), sc)"
    and "selecionar_data_calendario P d 3 sc = (Inl e, sd)"
  shows "run_main_a P pt g (d # ds) st_init = st_init\<lparr>rs_sess := sd\<rparr>"
proof -
  have "cell_a P g v d (st_init\<lparr>rs_sess := sc\<rparr>) = (Inl e, st_init\<lparr>rs_sess := sd\<rparr>)"
    using assms(4) by (simp add: cell_a_def)
  with assms(1-3) show ?thesis
    by (simp add: run_main_a_def varas_a_def vara_a_def cells_a_def)
qed

theorem run_main_a_date_rejection_ends_run_witness:
  "\<exists>e sd. selecionar_data_calendario picker_absent_page ''03/03/2026'' 3 unit_start = (Inl e, sd) \<and>
     run_main_a picker_absent_page (static_portal [''1a VT'', ''2a VT'']) ''2026-03-02T12:00:00.000Z''
       [''03/03/2026'', ''04/03/2026''] (run_start unit_start empty_db) = (run_start unit_start empty_db)\<lparr>rs_sess := sd\<rparr>"
proof -
  obtain r sd where sel: "selecionar_data_calendario picker_absent_page ''03/03/2026'' 3 unit_start = (r, sd)"
    by fastforce
  have "\<forall>w. isl (fst (date_button_visible picker_absent_page w))" by (simp add: picker_absent_page_def)
  from selecionar_data_calendario_3_reject [OF this] sel obtain e where r: "r = Inl e"
    by (cases r) auto
  have "run_main_a picker_absent_page (static_portal [''1a VT'', ''2a VT'']) ''2026-03-02T12:00:00.000Z''
       [''03/03/2026'', ''04/03/2026''] (run_start unit_start empty_db) = (run_start unit_start empty_db)\<lparr>rs_sess := sd\<rparr>"
    by (rule run_main_a_date_rejection_ends_run [where sa = unit_start and sb = unit_start and sc = unit_start and e = e])
       (simp_all add: static_portal_def run_start_def sel r)
  with sel r show ?thesis by blast
qed

text \<open>C14: a rejection in a later cell discards every record already extracted: when the
  extraction of some cell of some unit rejects, the second variant's run ends in that
  cell with the records of all the cells before it accumulated, and writes no CSV
  file, no XLSX file and no e-mail.\<close>

theorem run_main_b_failure_discards_rows:
  assumes "init_db_if_enabled env (rs_db st_init) = pool"
    and "abrir_portal pt (rs_sess st_init) = (Inr (), sa)"
    and "listar_varas_op pt sa = (Inr (vs_pre @ v # vs_post), sb)"
    and "varas_b P pt g pool (ds_pre @ d # ds_post) vs_pre (st_init\<lparr>rs_sess := sb\<rparr>) = (Inr (), st_mid)"
    and "selecionar_unidade_op pt v (rs_sess st_mid) = (Inr (), sc)"
    and "cells_b P g pool v ds_pre (st_mid\<lparr>rs_sess := sc\<rparr>) = (Inr (), st_cell)"
    and "selecionar_data_botoes P d 2 (rs_sess st_cell) = (True, sd)"
    and "extrair_processos P (snd (esperar_pauta_estabilizar P sd)) = (Inl e, se)"
  shows "run_main_b P pt env send g (ds_pre @ d # ds_post) st_init = st_cell\<lparr>rs_sess := se\<rparr> \<and>
         rs_csv st_cell = rs_csv st_init \<and> rs_mail st_cell = rs_mail st_init"
proof -
  have cell: "cell_b P g pool v d st_cell = (Inl e, st_cell\<lparr>rs_sess := se\<rparr>)"
    using assms(7,8) by (simp add: cell_b_def)
  have "cells_b P g pool v (ds_pre @ d # ds_post) (st_mid\<lparr>rs_sess := sc\<rparr>) = (Inl e, st_cell\<lparr>rs_sess := se\<rparr>)"
    using assms(6) cell unfolding cells_b_def by (simp add: for_each_o_append)
  then have "varas_b P pt g pool (ds_pre @ d # ds_post) (vs_pre @ v # vs_post) (st_init\<lparr>rs_sess := sb\<rparr>) =
               (Inl e, st_cell\<lparr>rs_sess := se\<rparr>)"
    using assms(4,5) unfolding varas_b_def by (simp add: for_each_o_append vara_b_def)
  moreover have "rs_csv st_cell = rs_csv st_init \<and> rs_mail st_cell = rs_mail st_init"
    using varas_b_keeps [OF assms(4)] cells_b_keeps [OF assms(6)] by simp
  ultimately show ?thesis
    using assms(1-3) by (simp add: run_main_b_def)
qed

theorem run_main_b_failure_discards_rows_witness:
  "run_main_b flaky_page (static_portal [''1a VT'', ''2a VT'']) env_empty accept_mail ''2026-03-02T12:00:00.000Z''
      [''05/03/2026''] (run_start \<lparr>world = 0, clock = 0\<rparr> empty_db) =
   (run_start \<lparr>world = 1, clock = 2100\<rparr> empty_db)
     \<lparr>rs_rows := [mk_row ''2026-03-02T12:00:00.000Z'' ''1a VT'' ''05/03/2026'' (map_item sample_item)]\<rparr>"
proof -
  let ?P = flaky_page and ?pt = "static_portal [''1a VT'', ''2a VT''] :: nat portal"
    and ?g = "''2026-03-02T12:00:00.000Z''" and ?d = "''05/03/2026''"
    and ?st = "run_start \<lparr>world = 0::nat, clock = 0\<rparr> empty_db"
  let ?row = "mk_row ?g ''1a VT'' ?d (map_item sample_item)"
  let ?mid = "(run_start \<lparr>world = 1::nat, clock = 1050\<rparr> empty_db)\<lparr>rs_rows := [?row]\<rparr>"
  have pool: "init_db_if_enabled env_empty (rs_db ?st) = False"
    by (simp add: init_db_if_enabled_def get_env_def env_empty_def is_true_def js_trim_def js_lower_def
        js_is_space_def)
  have a: "abrir_portal ?pt (rs_sess ?st) = (Inr (), \<lparr>world = 0, clock = 0\<rparr>)"
    by (simp add: static_portal_def run_start_def)
  have l: "listar_varas_op ?pt \<lparr>world = 0, clock = 0\<rparr> = (Inr ([''1a VT''] @ ''2a VT'' # []), \<lparr>world = 0, clock = 0\<rparr>)"
    by (simp add: static_portal_def)
  have m: "varas_b ?P ?pt ?g False ([] @ ?d # []) [''1a VT''] (?st\<lparr>rs_sess := \<lparr>world = 0, clock = 0\<rparr>\<rparr>) = (Inr (), ?mid)"
    by (simp add: varas_b_def vara_b_def cells_b_def cell_b_def static_portal_def flaky_sel flaky_esperar
        flaky_extrair run_start_def Let_def)
  have u: "selecionar_unidade_op ?pt ''2a VT'' (rs_sess ?mid) = (Inr (), rs_sess ?mid)"
    by (simp add: static_portal_def)
  have c: "cells_b ?P ?g False ''2a VT'' [] (?mid\<lparr>rs_sess := rs_sess ?mid\<rparr>) = (Inr (), ?mid)"
    by (simp add: cells_b_def)
  have sel: "selecionar_data_botoes ?P ?d 2 (rs_sess ?mid) = (True, \<lparr>world = 1, clock = 1250\<rparr>)"
    by (simp add: flaky_sel run_start_def)
  have ex: "extrair_processos ?P (snd (esperar_pauta_estabilizar ?P \<lparr>world = 1, clock = 1250\<rparr>)) =
              (Inl (JsError ''Execution context was destroyed''), \<lparr>world = 1, clock = 2100\<rparr>)"
    by (simp add: flaky_esperar flaky_extrair)
  show ?thesis
    using run_main_b_failure_discards_rows [OF pool a l m u c sel ex, of accept_mail]
    by (simp add: run_start_def)
qed

text \<open>C26: with its own portal steps, every record the second variant accumulates names
  its unit by a label \<open>listarVaras\<close> read and trimmed: the \<open>vara\<close> column never
  carries surrounding white space.\<close>

theorem programa_b_vara_trimmed:
  "list_all (\<lambda>x. js_trim (pr_vara x) = pr_vara x) (rs_rows (programa_b P U xlsx out_dir loc env send g hoje s0 d0))"
proof -
  have "rows_extend (\<lambda>x. pr_gerado_em x = g \<and> pr_data x \<in> set (gerar_datas hoje) \<and>
          (\<exists>s vs s'. listar_varas P U s = (Inr vs, s') \<and> pr_vara x \<in> set vs))
        (run_start s0 d0) (programa_b P U xlsx out_dir loc env send g hoje s0 d0)"
    using run_main_b_rows [of g "gerar_datas hoje" "jte_portal_b P U hoje xlsx out_dir loc" "run_start s0 d0" P env send]
    by (simp add: programa_b_def main_b_def jte_portal_b_def)
  then show ?thesis
    by (auto simp: rows_extend_def run_start_def list_all_iff dest!: listar_varas_Inr
        intro: collect_labels_trimmed)
qed

text \<open>C22: with a calendar whose date button never appears, the first variant's
  \<open>selecionarUnidade\<close> rejects, whatever the unit dialog does: the reset to today's
  date at its end (line 220) is awaited without a catch, so even a unit that was
  selected and confirmed ends the run.\<close>

theorem selecionar_unidade_a_picker_absent_rejects:
  assumes "\<forall>w. isl (fst (date_button_visible P w))"
  shows "isl (fst (selecionar_unidade_a P U hoje v s))"
  unfolding selecionar_unidade_a_def
  by (intro isl_then_o) (simp add: selecionar_data_calendario_3_reject [OF assms])

theorem selecionar_unidade_a_picker_absent_rejects_witness:
  "isl (fst (selecionar_unidade_a picker_absent_page (dialog_ui [Some ''1a VT'']) 20514 ''1a VT''
      \<lparr>world = (), clock = 0\<rparr>))"
  by (rule selecionar_unidade_a_picker_absent_rejects) (simp add: picker_absent_page_def)

end
