(* ===== verification/Spec2Isabelle.thy ===== *)
theory Spec2Isabelle
  imports Dates Session Stepper Pauta Csv Calendar Sink Mail Selector Orchestrator Xlsx Output
begin

text \<open>
  \<^bold>\<open>A verification development for \<open>src/PAUTA-JRT2.js\<close>.\<close>

  The program is a Playwright script that opens the PJe JT portal of TRT2, picks a
  court unit through cascading selectors, moves the hearing-schedule page to each
  business day of the coming weeks, waits for the list of hearings to settle and
  extracts its items, and writes them to CSV (first variant, lines 1-521) or to
  MySQL/XLSX with an e-mail report (second variant, lines 552-1367). Dates travel
  between the parts as \<open>DD/MM/YYYY\<close> strings; every browser action goes through
  the overlay guard and, for the risky ones, the retry envelope.

  \<^bold>\<open>Theories.\<close>
  \<^item> \<open>Prelude\<close>: the JavaScript string primitives the script uses on Latin-1
    strings (\<open>trim\<close>, \<open>toLowerCase\<close>, \<open>includes\<close>, \<open>padStart(2, '0')\<close>,
    \<open>split\<close>, \<open>String(n)\<close>, \<open>Number(s)\<close>) and their shared lemmas (digits of
    \<open>String(n)\<close>, \<open>Number\<close> after \<open>String\<close>, lengths).
  \<^item> \<open>Dates\<close>: a \<open>Date\<close> at local midnight is its day number; the ECMA-262
    calendar functions (\<open>DayFromYear\<close>, \<open>YearFromTime\<close> by a terminating
    search, \<open>MonthFromTime\<close>, \<open>DateFromTime\<close>, \<open>WeekDay\<close>, \<open>MakeDay\<close>) and
    the helpers \<open>parseBRDate\<close> (\<open>parse_br\<close>), \<open>isWeekdayBR\<close>,
    \<open>getTodayBR\<close>/\<open>toBR\<close> (\<open>format_br\<close>), \<open>gerarDatasProximosDoisMeses\<close>
    (\<open>gerar_from\<close>, \<open>gerar_datas\<close>) and \<open>brToIsoDateString\<close>. Lemmas: the
    search computes \<open>YearFromTime\<close> (\<open>year_from_day_bounds\<close>, \<open>_unique\<close>),
    \<open>MakeDay\<close> inverts the date decomposition, \<open>parse_br\<close> after
    \<open>format_br\<close> is the identity from year 100 on, and the generated list is
    exactly the business days of the range, ascending and distinct.
  \<^item> \<open>Session\<close>: the browser page as an abstract world \<open>'w\<close> with a record
    \<open>'w page\<close> of primitives, each returning an \<open>outcome\<close> (\<open>Inl\<close> is a
    Playwright rejection); the threaded state \<open>'w sess\<close> is the world and the
    clock of \<open>Date.now()\<close>. \<open>page.waitForTimeout\<close> is \<open>sleep\<close> (advances
    the clock exactly); every other primitive is instantaneous. \<open>fecharOverlays\<close>
    (\<open>fechar_overlays\<close>) and \<open>retryOperation\<close> (\<open>retry_from\<close>,
    \<open>retry_operation\<close>) are modelled with every \<open>.catch\<close> as
    \<open>catch_default\<close>; \<open>retry_from_result\<close> says where each result comes from
    and \<open>retry_operation_gives_up\<close> that the envelope ends after \<open>maxRetries\<close>
    rejected attempts. Uncaught awaits are chained by \<open>then_o\<close>, loops over lists
    by \<open>for_each_o\<close>.
  \<^item> \<open>Stepper\<close>: the second variant's date navigation without a calendar
    (lines 1048-1187): \<open>extrairDataBR\<close> as a leftmost match of the regular
    expression with word boundaries, the page reads and clicks, the polling wait
    \<open>esperarTextoMudar\<close> (\<open>esperar_loop\<close>), \<open>irAteDataPorBotoes\<close>
    (\<open>ir_loop\<close>, \<open>ir_ate_data_por_botoes\<close>) and \<open>selecionarDataComConfirmacao\<close>
    (\<open>sel_data_botoes_loop\<close>). Lemmas: a success is always backed by a read that
    contains the target; on a page that moves one day per click the navigator
    reaches every target within 220 days with exactly the needed clicks.
  \<^item> \<open>Pauta\<close>: \<open>esperarPautaEstabilizar\<close> (\<open>wait_spinners\<close>, \<open>estab_loop\<close>,
    \<open>esperar_pauta_estabilizar\<close>) and \<open>extrairProcessosDaPauta\<close>
    (\<open>map_item\<close>, \<open>extrair_processos\<close>). The detector's two exits both return
    \<open>undefined\<close> in the source; the model's boolean names the exit taken. Lemmas: a
    certified exit rests on two equal counts 600 ms apart; a settled list is
    certified in the second round; the whole wait is at most 62 s; the mapper's
    fields are positional and normalised; a rejecting \<open>count()\<close> empties the cell.
  \<^item> \<open>Csv\<close>: \<open>csvEscape\<close> (\<open>csv_escape\<close>) and \<open>writeCsv\<close> (\<open>csv_line\<close>,
    \<open>csv_text\<close>), with a reference reader \<open>csv_parse\<close> for the dialect (a
    terminating \<open>function\<close> on the length of the rest); the round trip gives back
    headers and values whatever separators, quotes or line breaks they hold.
  \<^item> \<open>Calendar\<close>: the first variant's calendar-grid navigation (lines 231-382):
    the header parser (\<open>find_year\<close>, \<open>month_map\<close>, \<open>header_month\<close>,
    \<open>parse_header\<close>), \<open>navegarParaMes\<close> (\<open>nav_mes_loop\<close>) on month keys
    \<open>year * 12 + month\<close>, the three-tier day click (\<open>pick_day_cell\<close>) and the
    calendar \<open>selecionarDataComConfirmacao\<close> (\<open>sel_data_cal_loop\<close>), with
    uncaught awaits chained by \<open>then_o\<close>. Lemmas: \<open>new Date(y, m, 1)\<close> gives back
    \<open>y\<close> and \<open>m\<close>; a header \<open>MMM YYYY\<close> parses to its month; the month walk
    reaches any month fewer than 36 away without overshooting, and loses a target
    reached on the 36th click; a success is an exact read of the target; an absent
    picker makes the function reject.

  \<^item> \<open>Sink\<close>: the MySQL sink of the second variant (lines 620-758): \<open>getEnv\<close>,
    \<open>isTrue\<close>, \<open>openDb\<close>'s pool options (\<open>open_db\<close>), \<open>initDbIfEnabled\<close>
    (\<open>init_db_if_enabled\<close>: the pool exists when
    \<open>DB_ENABLED\<close> is true and the server is up at startup) and \<open>insertRowsMySql\<close>
    (\<open>insert_chunks\<close>, a terminating \<open>function\<close> on the rows left) against a
    model of the server's \<open>INSERT ... ON DUPLICATE KEY UPDATE\<close> on the unique key
    \<open>(vara, dataISO, numeroProcesso)\<close> (\<open>upsert_row\<close>). Lemmas: chunking is
    equivalent to one statement over all rows, and the table
    refines the key map \<open>db_map\<close> updated by \<open>upsert_map\<close>.
  \<^item> \<open>Mail\<close>: \<open>parseMailTo\<close> and \<open>sendEmailWithAttachment\<close> (803-847): the
    configuration with its guard and the \<open>createTransport\<close> options
    (\<open>smtp_config_of\<close>), the caller's request (\<open>mail_request\<close>) and the message
    handed to \<open>sendMail\<close> (\<open>mail_message_of\<close>); delivery is a parameter. Lemmas:
    a recipient list joined by \<open>;\<close> or \<open>,\<close> reads back, and an incomplete
    configuration rejects before the transport is called.
  \<^item> \<open>Selector\<close>: portal entry, \<open>listarVaras\<close> and both \<open>selecionarUnidade\<close>
    (107-223, 883-1046) over a record \<open>'w unit_ui\<close> of the dialog's locator actions,
    with every await in order and the caught ones caught. Which option a locator
    picks is modelled: a case-insensitive substring for \<open>hasText\<close> with a string,
    the language of \<open>/^\s*E\s*$/i\<close> for the second variant's pattern, with
    \<open>escapeRegExp\<close> read back by \<open>re_literal\<close>. Lemmas: for trimmed labels
    the pattern is trimmed case-insensitive equality; \<open>listarVaras\<close> returns the
    trimmed non-empty option texts; every listed unit can be selected in the second
    variant; the first variant clicks the first option containing the label, which
    may be another unit listed before it (observed on \<open>recording_ui\<close>, a dialog
    whose world records the option clicks), and then awaits the reset to today's
    date uncaught. The second variant's confirmation awaits
    \<open>confirmar.elementHandle()\<close> (\<open>ConfirmHandle\<close>) outside the \<open>.catch\<close> of its
    \<open>waitForFunction\<close>.
  \<^item> \<open>Orchestrator\<close>: \<open>main\<close> of both variants (457-521, 1262-1367) over a
    record \<open>'w portal\<close> of the portal steps, instantiated by the \<open>Selector\<close>
    operations in \<open>programa_a\<close> and \<open>programa_b\<close>. The state \<open>'w run_state\<close>
    holds the session, the database, \<open>rowsCsv\<close>, the CSV text once written and
    the request of the e-mail the transport accepted; the output directory, the
    locale's time format and the XLSX writer (\<open>write_xlsx_file\<close> over
    \<open>wb.xlsx.writeFile\<close>) are fields of the portal record; the loops are \<open>for_each_o\<close> (a \<open>for ... of\<close>
    whose awaits are not caught). Lemmas: records only accumulate, each tagged with
    its cell; a date that cannot be reached is skipped; an unreachable database at
    startup changes nothing in the CSV file; a rejection in any later cell discards
    every record already extracted (no CSV, XLSX or e-mail); in the first variant a
    rejected date selection ends the whole run, and an absent picker makes its own
    unit selection reject.
  \<^item> \<open>Xlsx\<close>: \<open>writeXlsx\<close> (764-797) as the workbook value it builds through
    ExcelJS: \<open>xlsx_column\<close>, \<open>xlsx_sheet\<close> and \<open>workbook\<close> records, the library
    calls \<open>addWorksheet\<close>, \<open>ws.columns = ...\<close> and \<open>addRow\<close> (\<open>new_sheet\<close>,
    \<open>set_columns\<close>, \<open>add_row\<close>) and the column-width pass (\<open>column_max_len\<close>,
    \<open>fit_column\<close>, a \<open>fold\<close> over \<open>[1..headers.length]\<close>). Lemmas: the
    \<open>eachRow\<close> scan computes the declarative maximum \<open>max_len_ref\<close>, so every
    width is the longest text plus two clamped to [12, 60].
  \<^item> \<open>Output\<close>: the output step of the second variant's \<open>main\<close> (1331-1359):
    the CSV and XLSX paths built from one \<open>Date.now()\<close> stamp (\<open>out_name\<close>,
    \<open>out_paths\<close>, over POSIX \<open>path.join\<close> and \<open>path.basename\<close>), the report's
    subject and body (\<open>mail_subject\<close>, \<open>mail_text\<close>) and the attachment's name. Lemma: \<open>String(stamp)\<close> is
    injective and ends before the dot, so different stamps give different files, the
    two files of a run differ and the attachment is named after the XLSX file.
  \<^item> This theory: the properties spanning the orchestrator and the two file sinks:
    the CSV file a run writes reads back as its header and one line per record, and
    it holds, cell for cell, the table of the worksheet \<open>writeXlsx\<close> builds from
    the same rows; the e-mail a run sends attaches, under its own name, the XLSX path
    \<open>writeXlsx\<close> wrote for the run's records, with their count in the text.

  \<^bold>\<open>Bounds and termination.\<close> Every loop of the script is bounded in the
  source and is a terminating function here: the \<open>for\<close> loops by their counters
  (\<open>maxSteps = 220\<close>, \<open>maxTentativas\<close>, \<open>maxRetries\<close>) or by the list they
  walk (\<open>for_each_o\<close>), the date generator by the distance to the end day, the
  polling wait by the clock (each iteration sleeps 80 ms, so at most
  \<open>timeoutMs / 80 + 1\<close> iterations), the year search by the distance to the year's
  first day, the chunk loop of \<open>insertRowsMySql\<close> by the rows left and the CSV
  reader by the text left. No fuel is needed.

  \<^bold>\<open>Not modelled.\<close> The page-side scripts of \<open>page.evaluate\<close> calls and the
  locator waits and clicks are primitives of the page and dialog records, so every
  lemma holds for every behaviour of them; in \<open>main\<close> the call of \<open>writeXlsx\<close>
  is the portal operation \<open>write_xlsx_op\<close>, which \<open>write_xlsx_file\<close> builds from
  the workbook \<open>Xlsx\<close> models; ExcelJS's \<open>wb.xlsx.writeFile\<close> and other file
  writing, the byte order mark, \<open>openDb\<close>'s pool creation and
  \<open>ensureSchema\<close>'s DDL, nodemailer's delivery, \<open>toLocaleString('pt-BR')\<close> (a field of the portal) and \<open>console\<close> logging are I/O
  outside the model. A database that becomes unreachable after startup is not
  modelled (the server's availability is fixed for a run), and Playwright's
  whitespace normalisation of \<open>hasText\<close> and JavaScript's full case folding
  beyond Latin-1 are approximated by \<open>toLowerCase\<close> on Latin-1. The helpers
  both variants define (\<open>csvEscape\<close>, \<open>writeCsv\<close>, the date helpers,
  \<open>fecharOverlays\<close>, \<open>retryOperation\<close>, portal entry, \<open>listarVaras\<close>,
  \<open>esperarPautaEstabilizar\<close>, \<open>extrairProcessosDaPauta\<close>) are the same text up
  to white space, and one definition models both copies.
\<close>

section \<open>Properties across components\<close>

lemma main_b_csv_text:
  "rs_csv (main_b P pt env send g hoje s0 d0) = Some t \<Longrightarrow>
     t = csv_text csv_headers (map row_map (rs_rows (main_b P pt env send g hoje s0 d0)))"
  using run_main_b_csv [of P pt env send g "gerar_datas hoje" "run_start s0 d0"]
  by (auto simp: main_b_def run_start_def)

lemma csv_text_pauta_rows:
  "csv_parse (csv_text csv_headers (map row_map rows)) = Some (csv_headers # map (\<lambda>r. [pr_gerado_em r, pr_vara r,
     pr_data r, pr_numero r, pr_sessao r, pr_juiz r, pr_reclamante r, pr_reclamada r]) rows)"
proof -
  have "csv_headers \<noteq> []" by (simp add: csv_headers_def)
  then show ?thesis
    using csv_parse_records [of "csv_headers # map (\<lambda>r. [pr_gerado_em r, pr_vara r, pr_data r, pr_numero r,
        pr_sessao r, pr_juiz r, pr_reclamante r, pr_reclamada r]) rows"]
    by (simp add: csv_parse_def csv_text_def comp_def csv_line_row_map)
qed

lemma row_map_cells:
  "map (\<lambda>h. cell_text (row_map r h)) csv_headers = [pr_gerado_em r, pr_vara r, pr_data r, pr_numero r,
     pr_sessao r, pr_juiz r, pr_reclamante r, pr_reclamada r]"
  by (simp add: row_map_def csv_headers_def cell_text_def)

text \<open>C17: the CSV file a second-variant run writes reads back, with the dialect's
  reader, as the header line of \<open>main\<close> followed by one line per accumulated record,
  in order, holding its eight fields in the order of the headers.\<close>

theorem main_b_csv_reads_back:
  assumes "rs_csv (main_b P pt env send g hoje s0 d0) = Some t"
  shows "csv_parse t = Some (csv_headers # map (\<lambda>r. [pr_gerado_em r, pr_vara r, pr_data r, pr_numero r,
           pr_sessao r, pr_juiz r, pr_reclamante r, pr_reclamada r]) (rs_rows (main_b P pt env send g hoje s0 d0)))"
  using main_b_csv_text [OF assms] by (simp add: csv_text_pauta_rows)

theorem main_b_csv_reads_back_witness:
  "rs_csv (main_b inert_page (static_portal []) env_empty accept_mail ''2026-03-02T12:00:00.000Z'' 20514
      \<lparr>world = (), clock = 0\<rparr> empty_db) = Some (csv_text csv_headers []) \<and>
   csv_parse (csv_text csv_headers []) = Some [csv_headers]"
proof -
  have r: "rs_csv (main_b inert_page (static_portal []) env_empty accept_mail ''2026-03-02T12:00:00.000Z'' 20514
      \<lparr>world = (), clock = 0\<rparr> empty_db) = Some (csv_text csv_headers [])"
    by (simp add: main_b_def run_main_b_def run_start_def static_portal_def varas_b_def Let_def)
  have "rs_rows (main_b inert_page (static_portal []) env_empty accept_mail ''2026-03-02T12:00:00.000Z'' 20514
      \<lparr>world = (), clock = 0\<rparr> empty_db) = []"
    by (simp add: main_b_def run_main_b_def run_start_def static_portal_def varas_b_def Let_def)
  with r show ?thesis
    using main_b_csv_reads_back [OF r] by simp
qed

text \<open>C18: the two files of a second-variant run hold the same table: when the run
  writes its CSV file, that file reads back, cell for cell, as the worksheet that
  \<open>writeXlsx\<close> builds from the same headers and accumulated rows (header row first,
  an absent value an empty cell).\<close>

theorem main_b_sinks_agree:
  assumes "rs_csv (main_b P pt env send g hoje s0 d0) = Some t"
  shows "csv_parse t = Some (map (map cell_text)
           (xs_rows (hd (wb_sheets (write_xlsx csv_headers (map row_map (rs_rows (main_b P pt env send g hoje s0 d0))) agora)))))"
  using main_b_csv_text [OF assms] write_xlsx_fitted [of csv_headers "map row_map (rs_rows (main_b P pt env send g hoje s0 d0))" agora]
  by (simp add: csv_text_pauta_rows comp_def row_map_cells)

theorem main_b_sinks_agree_witness:
  "rs_csv (main_b inert_page (static_portal []) env_empty accept_mail ''2026-03-02T12:00:00.000Z'' 20514
      \<lparr>world = (), clock = 0\<rparr> empty_db) = Some (csv_text csv_headers []) \<and>
   csv_parse (csv_text csv_headers []) = Some (map (map cell_text) (xs_rows (hd (wb_sheets (write_xlsx csv_headers [] 0)))))"
proof -
  have r: "rs_csv (main_b inert_page (static_portal []) env_empty accept_mail ''2026-03-02T12:00:00.000Z'' 20514
      \<lparr>world = (), clock = 0\<rparr> empty_db) = Some (csv_text csv_headers [])"
    by (simp add: main_b_def run_main_b_def run_start_def static_portal_def varas_b_def Let_def)
  have "rs_rows (main_b inert_page (static_portal []) env_empty accept_mail ''2026-03-02T12:00:00.000Z'' 20514
      \<lparr>world = (), clock = 0\<rparr> empty_db) = []"
    by (simp add: main_b_def run_main_b_def run_start_def static_portal_def varas_b_def Let_def)
  with r show ?thesis
    using main_b_sinks_agree [OF r, of 0] by simp
qed


text \<open>C20: the e-mail a second-variant run sends carries the file the run wrote: when the
  transport accepts the report, the configuration was complete, the request's
  attachment is the XLSX path of the run's stamp in the output directory, that path
  and the accumulated records are what \<open>writeXlsx\<close> was called with and resolved,
  the message handed to \<open>sendMail\<close> attaches it under its own file name
  \<open>pauta_trt2_2meses_<stamp>.xlsx\<close>, the text reports the number of records and
  \<open>geradoEm\<close>, and the CSV file of the same records was written.\<close>

theorem main_b_mail_attaches_xlsx:
  assumes "rs_mail (main_b P pt env send g hoje s0 d0) = Some req"
  shows "\<exists>cfg stamp s1 s2 s3 i.
           smtp_config_of env = Some cfg \<and>
           mr_attachment_path req = path_join (output_dir pt) (out_name stamp ''xlsx'') \<and>
           write_xlsx_op pt (mr_attachment_path req) (rs_rows (main_b P pt env send g hoje s0 d0)) s1 = (Inr (), s2) \<and>
           send cfg (mail_message_of cfg req) s2 = (Inr i, s3) \<and>
           msg_attachments (mail_message_of cfg req) = [(out_name stamp ''xlsx'', mr_attachment_path req)] \<and>
           mr_text req = mail_text (length (rs_rows (main_b P pt env send g hoje s0 d0))) g \<and>
           rs_csv (main_b P pt env send g hoje s0 d0) =
             Some (csv_text csv_headers (map row_map (rs_rows (main_b P pt env send g hoje s0 d0))))"
proof -
  let ?st0 = "run_start s0 d0"
  have ne: "rs_mail (run_main_b P pt env send g (gerar_datas hoje) ?st0) \<noteq> rs_mail ?st0"
    using assms by (simp add: main_b_def run_start_def)
  obtain st where r: "run_main_b P pt env send g (gerar_datas hoje) ?st0 = finish_b pt env send g st"
    and m0: "rs_mail st = rs_mail ?st0"
    using run_main_b_mail [OF ne] by blast
  have "rs_mail (finish_b pt env send g st) \<noteq> rs_mail st" using ne r m0 by simp
  then obtain s2 s3 i where w: "write_xlsx_op pt (snd (out_paths (output_dir pt) (clock (rs_sess st)))) (rs_rows st) (rs_sess st) = (Inr (), s2)"
    and snt: "send_email_with_attachment env send
       \<lparr>mr_subject = mail_subject (locale_time pt (clock s2)), mr_text = mail_text (length (rs_rows st)) g,
        mr_attachment_path = snd (out_paths (output_dir pt) (clock (rs_sess st)))\<rparr> s2 = (Inr i, s3)"
    and q: "rs_mail (finish_b pt env send g st) =
       Some \<lparr>mr_subject = mail_subject (locale_time pt (clock s2)), mr_text = mail_text (length (rs_rows st)) g,
             mr_attachment_path = snd (out_paths (output_dir pt) (clock (rs_sess st)))\<rparr>"
    by (blast dest: finish_b_mail)
  have req: "req = \<lparr>mr_subject = mail_subject (locale_time pt (clock s2)), mr_text = mail_text (length (rs_rows st)) g,
             mr_attachment_path = snd (out_paths (output_dir pt) (clock (rs_sess st)))\<rparr>"
    using assms q r by (simp add: main_b_def)
  obtain cfg where cfg: "smtp_config_of env = Some cfg" and sd: "send cfg (mail_message_of cfg req) s2 = (Inr i, s3)"
    using send_email_sent [OF snt] req by blast
  have rows: "rs_rows (main_b P pt env send g hoje s0 d0) = rs_rows st"
    and csv: "rs_csv (main_b P pt env send g hoje s0 d0) = Some (csv_text csv_headers (map row_map (rs_rows st)))"
    using r by (simp_all add: main_b_def)
  have att: "msg_attachments (mail_message_of cfg req) =
      [(out_name (clock (rs_sess st)) ''xlsx'', mr_attachment_path req)]"
    by (simp add: mail_message_of_def req out_paths_def attachment_name_out_path)
  show ?thesis
    using cfg w sd att csv
    by (intro exI [of _ cfg] exI [of _ "clock (rs_sess st)"] exI [of _ "rs_sess st"] exI [of _ s2] exI [of _ s3] exI [of _ i])
       (simp add: rows req out_paths_def)
qed

theorem main_b_mail_attaches_xlsx_witness:
  "rs_mail (main_b inert_page (static_portal []) mail_env accept_mail ''2026-03-02T12:00:00.000Z'' 20514
      \<lparr>world = (), clock = 0\<rparr> empty_db) =
     Some \<lparr>mr_subject = ''Pauta TRT2 (2 meses) - 02/03/2026, 09:00:00'', mr_text = mail_text 0 ''2026-03-02T12:00:00.000Z'',
           mr_attachment_path = ''/app/output/pauta_trt2_2meses_0.xlsx''\<rparr> \<and>
   (\<exists>cfg. smtp_config_of mail_env = Some cfg \<and>
      msg_attachments (mail_message_of cfg \<lparr>mr_subject = ''Pauta TRT2 (2 meses) - 02/03/2026, 09:00:00'',
        mr_text = mail_text 0 ''2026-03-02T12:00:00.000Z'', mr_attachment_path = ''/app/output/pauta_trt2_2meses_0.xlsx''\<rparr>) =
        [(''pauta_trt2_2meses_0.xlsx'', ''/app/output/pauta_trt2_2meses_0.xlsx'')])"
proof -
  have r: "rs_mail (main_b inert_page (static_portal []) mail_env accept_mail ''2026-03-02T12:00:00.000Z'' 20514
      \<lparr>world = (), clock = 0\<rparr> empty_db) =
     Some \<lparr>mr_subject = ''Pauta TRT2 (2 meses) - 02/03/2026, 09:00:00'', mr_text = mail_text 0 ''2026-03-02T12:00:00.000Z'',
           mr_attachment_path = ''/app/output/pauta_trt2_2meses_0.xlsx''\<rparr>"
    by (simp add: main_b_def run_main_b_def run_start_def static_portal_def varas_b_def finish_b_def Let_def
        send_email_with_attachment_def mail_env_config accept_mail_def out_paths_def path_join_def out_name_def
        mail_subject_def js_nat_str.simps digit_char_of)
  obtain cfg stamp where c: "smtp_config_of mail_env = Some cfg"
    and p: "''/app/output/pauta_trt2_2meses_0.xlsx'' = path_join ''/app/output'' (out_name stamp ''xlsx'')"
    and a: "msg_attachments (mail_message_of cfg \<lparr>mr_subject = ''Pauta TRT2 (2 meses) - 02/03/2026, 09:00:00'',
        mr_text = mail_text 0 ''2026-03-02T12:00:00.000Z'', mr_attachment_path = ''/app/output/pauta_trt2_2meses_0.xlsx''\<rparr>) =
        [(out_name stamp ''xlsx'', ''/app/output/pauta_trt2_2meses_0.xlsx'')]"
    using main_b_mail_attaches_xlsx [OF r] by (auto simp: static_portal_def)
  from p have "out_name stamp ''xlsx'' = ''pauta_trt2_2meses_0.xlsx''"
    by (simp only: path_join_def) simp
  with r c a show ?thesis by auto
qed

end
